(* ===== verification/Yaf_Prelude.thy ===== *)
theory Yaf_Prelude
  imports Main "HOL-Library.Word"
begin

text \<open>
  Shared vocabulary of the development: machine integers, error numbers, the outcome of a
  piece of kernel code (it returns, or it stops in a panic, an invalid memory access or a
  wait that never ends), sequential composition of state-passing code, and generic lemmas
  on words, little-endian bytes, searches over index ranges and C strings.
\<close>

unbundle bit_operations_syntax

named_theorems yaf_exec \<open>rules that run a piece of kernel code symbolically\<close>
named_theorems yaf_layout \<open>values of the layout functions as natural numbers\<close>

section \<open>Machine integers and error numbers\<close>

type_synonym byte = "8 word"
type_synonym u16 = "16 word"
type_synonym u32 = "32 word"
type_synonym u64 = "64 word"

text \<open>A buffer of bytes, read by offset; a C string or file name is a list of bytes.\<close>

type_synonym block = "nat \<Rightarrow> byte"
type_synonym name = "byte list"

definition ENOENT :: int where "ENOENT = 2"
definition EIO :: int where "EIO = 5"
definition ENOMEM :: int where "ENOMEM = 12"
definition ENOTDIR :: int where "ENOTDIR = 20"
definition EINVAL :: int where "EINVAL = 22"
definition EFBIG :: int where "EFBIG = 27"
definition ENOSPC :: int where "ENOSPC = 28"
definition ENAMETOOLONG :: int where "ENAMETOOLONG = 36"
definition ENOTEMPTY :: int where "ENOTEMPTY = 39"

lemmas errno_defs = ENOENT_def EIO_def ENOMEM_def ENOTDIR_def EINVAL_def EFBIG_def
  ENOSPC_def ENAMETOOLONG_def ENOTEMPTY_def

section \<open>Outcomes and sequential composition\<close>

text \<open>
  \<open>Panic\<close> is a failed \<open>assert\<close> (the macro of \<open>include/yaf.h\<close> calls \<open>panic()\<close>),
  \<open>BadAccess\<close> a read or write outside of an array or through a pointer to nothing,
  \<open>Hang\<close> a wait that no one will end, and \<open>Exit\<close> the end of a user-space program.
\<close>

datatype stop = Panic | BadAccess | Hang | Exit

datatype ('a, 's) outcome = Run 'a 's | Stop stop

definition ret :: "'a \<Rightarrow> 's \<Rightarrow> ('a, 's) outcome" where
  "ret x s = Run x s"

definition halt :: "stop \<Rightarrow> 's \<Rightarrow> ('a, 's) outcome" where
  "halt e s = Stop e"

definition bnd ::
  "('s \<Rightarrow> ('a, 's) outcome) \<Rightarrow> ('a \<Rightarrow> 's \<Rightarrow> ('b, 's) outcome) \<Rightarrow> 's \<Rightarrow> ('b, 's) outcome" where
  "bnd m f s = (case m s of Run x s' \<Rightarrow> f x s' | Stop e \<Rightarrow> Stop e)"

text \<open>The \<open>assert\<close> macro of \<open>include/yaf.h\<close> (kernel side).\<close>

definition assert_k :: "bool \<Rightarrow> 's \<Rightarrow> (unit, 's) outcome" where
  "assert_k c s = (if c then Run () s else Stop Panic)"

lemma ret_run [yaf_exec, simp]: "ret x s = Run x s"
  by (simp add: ret_def)

lemma halt_run [yaf_exec, simp]: "halt e s = Stop e"
  by (simp add: halt_def)

lemma bnd_Run: "m s = Run x s' \<Longrightarrow> bnd m f s = f x s'"
  by (simp add: bnd_def)

lemma bnd_Stop: "m s = Stop e \<Longrightarrow> bnd m f s = Stop e"
  by (simp add: bnd_def)

lemma bnd_ret [simp]: "bnd (ret x) f = f x"
  by (rule ext) (simp add: bnd_def)

lemma bnd_halt [simp]: "bnd (halt e) f = halt e"
  by (rule ext) (simp add: bnd_def)

lemma bnd_assoc: "bnd (bnd m f) g = bnd m (\<lambda>x. bnd (f x) g)"
  by (rule ext) (simp add: bnd_def split: outcome.splits)

lemma bnd_cong [fundef_cong]: "m = m' \<Longrightarrow> (\<And>x. f x = f' x) \<Longrightarrow> bnd m f = bnd m' f'"
  by (rule ext) (simp add: bnd_def split: outcome.splits)

lemma bnd_eq_Run:
  "bnd m f s = Run y s'' \<longleftrightarrow> (\<exists>x s'. m s = Run x s' \<and> f x s' = Run y s'')"
  by (simp add: bnd_def split: outcome.splits)

lemma assert_k_run [simp]: "c \<Longrightarrow> assert_k c s = Run () s"
  by (simp add: assert_k_def)

lemma assert_k_Run_iff: "assert_k c s = Run u t \<longleftrightarrow> c \<and> t = s"
  by (auto simp: assert_k_def)

text \<open>
  \<open>keeps R m\<close>: whenever the code returns, the state before and the state after are
  related by \<open>R\<close>. For a reflexive and transitive \<open>R\<close> it composes.
\<close>

definition keeps :: "('s \<Rightarrow> 's \<Rightarrow> bool) \<Rightarrow> ('s \<Rightarrow> ('a, 's) outcome) \<Rightarrow> bool" where
  "keeps R m \<longleftrightarrow> (\<forall>s x s'. m s = Run x s' \<longrightarrow> R s s')"

lemma keepsD: "keeps R m \<Longrightarrow> m s = Run x s' \<Longrightarrow> R s s'"
  by (simp add: keeps_def)

lemma keeps_ret: "reflp R \<Longrightarrow> keeps R (ret x)"
  by (simp add: keeps_def reflp_def)

lemma keeps_halt: "keeps R (halt e)"
  by (simp add: keeps_def)

lemma keeps_assert: "reflp R \<Longrightarrow> keeps R (assert_k c)"
  by (auto simp: keeps_def reflp_def assert_k_def split: if_splits)

lemma keeps_bnd:
  assumes "transp R" and "keeps R m" and "\<And>x. keeps R (f x)"
  shows "keeps R (bnd m f)"
  using assms unfolding keeps_def bnd_eq_Run by (blast dest: transpD)

section \<open>Little-endian 32-bit fields\<close>

text \<open>
  \<open>le32_to_cpu\<close> and \<open>cpu_to_le32\<close> on a field at a byte offset of a buffer. The least
  significant byte comes first.
\<close>

definition le32_load :: "block \<Rightarrow> nat \<Rightarrow> u32" where
  "le32_load blk off =
     ucast (blk off) OR push_bit 8 (ucast (blk (off + 1))) OR
     push_bit 16 (ucast (blk (off + 2))) OR push_bit 24 (ucast (blk (off + 3)))"

definition le32_store :: "nat \<Rightarrow> u32 \<Rightarrow> block \<Rightarrow> block" where
  "le32_store off v blk =
     blk(off := ucast v, off + 1 := ucast (drop_bit 8 v),
         off + 2 := ucast (drop_bit 16 v), off + 3 := ucast (drop_bit 24 v))"

lemma le32_bytes:
  "ucast (ucast v :: byte) OR push_bit 8 (ucast (ucast (drop_bit 8 v) :: byte)) OR
   push_bit 16 (ucast (ucast (drop_bit 16 v) :: byte)) OR
   push_bit 24 (ucast (ucast (drop_bit 24 v) :: byte)) = (v :: u32)" (is "?w = v")
proof (rule bit_word_eqI)
  fix n assume n: "n < LENGTH(32)"
  then consider "n < 8" | "8 \<le> n" "n < 16" | "16 \<le> n" "n < 24" | "24 \<le> n" "n < 32"
    by fastforce
  then show "bit ?w n = bit v n"
    by cases (auto simp: bit_simps)
qed

lemma le32_load_store [simp]: "le32_load (le32_store off v blk) off = v"
  unfolding le32_load_def le32_store_def by (simp add: le32_bytes)

lemma le32_store_outside: "j < off \<or> off + 4 \<le> j \<Longrightarrow> le32_store off v blk j = blk j"
  by (auto simp: le32_store_def)

lemma le32_load_cong:
  "(\<And>j. off \<le> j \<Longrightarrow> j < off + 4 \<Longrightarrow> blk j = blk' j) \<Longrightarrow> le32_load blk off = le32_load blk' off"
  by (simp add: le32_load_def)

lemma le32_load_store_other [simp]:
  "off + 4 \<le> off' \<or> off' + 4 \<le> off \<Longrightarrow> le32_load (le32_store off' v blk) off = le32_load blk off"
  by (rule le32_load_cong) (auto simp: le32_store_outside)

section \<open>Words and their values\<close>

lemma word_unatI: "unat a = unat b \<Longrightarrow> a = b"
  by (rule unsigned_word_eqI)

lemma unat_bound: "unat (x :: 'a::len word) < 2 ^ LENGTH('a)"
  by (fact unsigned_less)

lemma unat_u32_le: "unat (x :: u32) \<le> 4294967295"
  using unat_bound [of x] by simp

lemma unat_ucast_u64 [simp]: "unat (ucast (x :: u32) :: u64) = unat x"
  using unat_bound [of x] by (simp add: unsigned_ucast_eq take_bit_nat_eq_self_iff)

lemma ucast_u64_u32 [simp]: "ucast (ucast (x :: u32) :: u64) = x"
  by (rule bit_word_eqI) (auto simp: bit_simps)

lemma ucast_u64_eq [simp]: "ucast (x :: u32) = (ucast y :: u64) \<longleftrightarrow> x = y"
  by (metis ucast_u64_u32)

lemma unat_of_nat_u32: "n < 2 ^ 32 \<Longrightarrow> unat (of_nat n :: u32) = n"
  by (simp add: unat_of_nat)

lemma unat_add_u64:
  "unat (x :: u64) + unat y < 2 ^ 64 \<Longrightarrow> unat (x + y) = unat x + unat y"
  by (simp add: unat_word_ariths)

section \<open>C strings\<close>

text \<open>
  \<open>strncmp(a, b, n) == 0\<close>, \<open>strncpy\<close> and \<open>memcmp(a, b, n) == 0\<close> of the C library: a
  comparison stops at the first NUL or after \<open>n\<close> bytes, a copy fills the rest of the
  destination with NULs. \<open>cstr xs\<close> is the NUL-terminated string with the bytes \<open>xs\<close>,
  \<open>cname n a\<close> the string held in a field of \<open>n\<close> bytes, terminated or not.
\<close>

definition cstr :: "name \<Rightarrow> nat \<Rightarrow> byte" where
  "cstr xs i = (if i < length xs then xs ! i else 0)"

definition cname :: "nat \<Rightarrow> (nat \<Rightarrow> byte) \<Rightarrow> name" where
  "cname n a = takeWhile (\<lambda>c. c \<noteq> 0) (map a [0..<n])"

fun strncmp0 :: "nat \<Rightarrow> (nat \<Rightarrow> byte) \<Rightarrow> (nat \<Rightarrow> byte) \<Rightarrow> bool" where
  "strncmp0 0 a b = True"
| "strncmp0 (Suc n) a b =
     (if a 0 \<noteq> b 0 then False
      else if a 0 = 0 then True
      else strncmp0 n (\<lambda>i. a (Suc i)) (\<lambda>i. b (Suc i)))"

fun zero_fill :: "nat \<Rightarrow> nat \<Rightarrow> block \<Rightarrow> block" where
  "zero_fill 0 off blk = blk"
| "zero_fill (Suc n) off blk = zero_fill n (Suc off) (blk(off := 0))"

fun strncpy_to :: "nat \<Rightarrow> nat \<Rightarrow> (nat \<Rightarrow> byte) \<Rightarrow> block \<Rightarrow> block" where
  "strncpy_to 0 off src blk = blk"
| "strncpy_to (Suc n) off src blk =
     (if src 0 = 0 then zero_fill (Suc n) off blk
      else strncpy_to n (Suc off) (\<lambda>i. src (Suc i)) (blk(off := src 0)))"

fun memcmp0 :: "nat \<Rightarrow> (nat \<Rightarrow> byte) \<Rightarrow> (nat \<Rightarrow> byte) \<Rightarrow> bool" where
  "memcmp0 0 a b = True"
| "memcmp0 (Suc n) a b = (a 0 = b 0 \<and> memcmp0 n (\<lambda>i. a (Suc i)) (\<lambda>i. b (Suc i)))"

fun memcpy_to :: "nat \<Rightarrow> nat \<Rightarrow> (nat \<Rightarrow> byte) \<Rightarrow> block \<Rightarrow> block" where
  "memcpy_to 0 off src blk = blk"
| "memcpy_to (Suc n) off src blk =
     memcpy_to n (Suc off) (\<lambda>i. src (Suc i)) (blk(off := src 0))"

lemma cname_0 [simp]: "cname 0 a = []"
  by (simp add: cname_def)

lemma cname_Suc: "cname (Suc n) a = (if a 0 = 0 then [] else a 0 # cname n (\<lambda>i. a (Suc i)))"
  by (simp add: cname_def upt_conv_Cons map_Suc_upt [symmetric] comp_def del: upt_Suc)

lemma strncmp0_iff: "strncmp0 n a b \<longleftrightarrow> cname n a = cname n b"
  by (induction n a b rule: strncmp0.induct) (auto simp: cname_Suc)

lemma cname_cong: "(\<And>i. i < n \<Longrightarrow> a i = b i) \<Longrightarrow> cname n a = cname n b"
  unfolding cname_def by (rule arg_cong [where f = "takeWhile (\<lambda>c. c \<noteq> 0)"]) simp

lemma cname_cstr: "0 \<notin> set xs \<Longrightarrow> length xs \<le> n \<Longrightarrow> cname n (cstr xs) = xs"
proof (induction n arbitrary: xs)
  case (Suc n)
  show ?case
  proof (cases xs)
    case (Cons x ys)
    then have "(\<lambda>i. cstr (x # ys) (Suc i)) = cstr ys"
      by (auto simp: cstr_def)
    with Cons Suc show ?thesis by (auto simp: cname_Suc cstr_def [of _ 0])
  qed (simp add: cname_Suc cstr_def)
qed simp

lemma cname_props: "0 \<notin> set (cname n a)" "length (cname n a) \<le> n"
  unfolding cname_def
  by (auto dest: set_takeWhileD intro: order_trans [OF length_takeWhile_le])

lemma zero_fill_eq: "zero_fill n off blk j = (if off \<le> j \<and> j < off + n then 0 else blk j)"
  by (induction n arbitrary: off blk) auto

lemma strncpy_outside: "j < off \<or> off + n \<le> j \<Longrightarrow> strncpy_to n off src blk j = blk j"
  by (induction n off src blk rule: strncpy_to.induct) (auto simp: zero_fill_eq)

lemma strncpy_cstr:
  "0 \<notin> set xs \<Longrightarrow> i < n \<Longrightarrow> strncpy_to n off (cstr xs) blk (off + i) = cstr xs i"
proof (induction n arbitrary: xs off blk i)
  case (Suc n)
  show ?case
  proof (cases xs)
    case Nil
    with Suc.prems show ?thesis by (simp add: cstr_def zero_fill_eq)
  next
    case (Cons x ys)
    have tl: "(\<lambda>i. cstr (x # ys) (Suc i)) = cstr ys" by (auto simp: cstr_def)
    show ?thesis
    proof (cases i)
      case 0
      with Cons Suc.prems tl show ?thesis
        by (simp add: cstr_def [of _ 0] strncpy_outside)
    next
      case (Suc i')
      have "strncpy_to n (Suc off) (cstr ys) (blk(off := x)) (Suc off + i') = cstr ys i'"
        using Suc.IH [of ys i' "Suc off"] Suc.prems Cons Suc by simp
      with Cons Suc.prems Suc tl show ?thesis
        by (simp add: cstr_def)
    qed
  qed
qed simp

lemma cname_strncpy:
  assumes "0 \<notin> set xs" and "length xs \<le> n"
  shows "cname n (\<lambda>i. strncpy_to n off (cstr xs) blk (off + i)) = xs"
proof -
  have "cname n (\<lambda>i. strncpy_to n off (cstr xs) blk (off + i)) = cname n (cstr xs)"
    by (rule cname_cong) (simp add: strncpy_cstr assms)
  with assms show ?thesis by (simp add: cname_cstr)
qed

lemma memcmp0_iff: "memcmp0 n a b \<longleftrightarrow> (\<forall>i<n. a i = b i)"
proof (induction n arbitrary: a b)
  case (Suc n)
  then show ?case by (auto simp: less_Suc_eq_0_disj)
qed simp

lemma memcpy_eq:
  "memcpy_to n off src blk j = (if off \<le> j \<and> j < off + n then src (j - off) else blk j)"
proof (induction n arbitrary: off src blk)
  case (Suc n)
  have "off < j \<Longrightarrow> Suc (j - Suc off) = j - off" by arith
  with Suc show ?case by (auto simp: Suc_le_eq)
qed auto

section \<open>First index with a property\<close>

definition first_idx :: "(nat \<Rightarrow> bool) \<Rightarrow> nat \<Rightarrow> nat option" where
  "first_idx P n = find P [0..<n]"

lemma first_idx_None: "first_idx P n = None \<longleftrightarrow> (\<forall>k<n. \<not> P k)"
  by (auto simp: first_idx_def find_None_iff)

lemma first_idx_Some:
  "first_idx P n = Some k \<longleftrightarrow> k < n \<and> P k \<and> (\<forall>j<k. \<not> P j)"
proof
  assume "first_idx P n = Some k"
  then show "k < n \<and> P k \<and> (\<forall>j<k. \<not> P j)"
    by (auto simp: first_idx_def find_Some_iff)
next
  assume "k < n \<and> P k \<and> (\<forall>j<k. \<not> P j)"
  then show "first_idx P n = Some k"
    unfolding first_idx_def find_Some_iff by (auto intro!: exI [of _ k])
qed

lemma first_idx_cong: "(\<And>k. k < n \<Longrightarrow> P k = Q k) \<Longrightarrow> first_idx P n = first_idx Q n"
  unfolding first_idx_def by (rule find_cong) auto

text \<open>A search that starts at \<open>i\<close> with nothing found below \<open>i\<close>.\<close>

lemma first_idx_at: "k < n \<Longrightarrow> P k \<Longrightarrow> \<forall>j<k. \<not> P j \<Longrightarrow> first_idx P n = Some k"
  by (simp add: first_idx_Some)

end
