(* ===== verification/Yaf_Layout.thy ===== *)
theory Yaf_Layout
  imports Yaf_Prelude
begin

text \<open>
  The partition layout: the constants and structures of \<open>include/super.h\<close>, the block
  ranges of \<open>include/fs.h\<close>, the index conversions of \<open>include/bitmap.h\<close> and
  \<open>include/inode.h\<close>, with the proof that the five sections do not overlap and that each
  conversion stays inside of its section and is injective. Block numbers are the 64-bit
  \<open>unsigned long\<close> of the code, the counts of the superblock its 32-bit fields.
\<close>

section \<open>Constants and structures\<close>

definition YAF_BLOCK_SIZE :: nat where "YAF_BLOCK_SIZE = 4096"
definition BITS_PER_BYTE :: nat where "BITS_PER_BYTE = 8"
definition BITS_PER_BLOCK :: nat where "BITS_PER_BLOCK = YAF_BLOCK_SIZE * BITS_PER_BYTE"
definition YAF_IBLOCKS :: nat where "YAF_IBLOCKS = 8"
definition SIZEOF_YAF_INODE :: nat where "SIZEOF_YAF_INODE = 8 * 4 + YAF_IBLOCKS * 4"
definition INODES_PER_BLOCK :: nat where "INODES_PER_BLOCK = YAF_BLOCK_SIZE div SIZEOF_YAF_INODE"
definition YAF_DENTRY_SIZE :: nat where "YAF_DENTRY_SIZE = 32"
definition YAF_DENTRY_NAME_LEN :: nat where "YAF_DENTRY_NAME_LEN = YAF_DENTRY_SIZE - 4 - 4"
definition DENTRYS_PER_BLOCK :: nat where "DENTRYS_PER_BLOCK = YAF_BLOCK_SIZE div YAF_DENTRY_SIZE"
definition MAX_DENTRYS :: nat where "MAX_DENTRYS = YAF_IBLOCKS * DENTRYS_PER_BLOCK"
definition MAX_FILESIZE :: nat where "MAX_FILESIZE = YAF_BLOCK_SIZE * YAF_IBLOCKS"

definition RESERVED_INO :: u32 where "RESERVED_INO = 0"
definition ROOT_INO :: u64 where "ROOT_INO = 1"

text \<open>\<open>-1\<close>, which every use in the code compares with or stores into a \<open>uint32_t\<close>.\<close>

definition RESERVED_DNO :: u32 where "RESERVED_DNO = - 1"

lemma layout_consts [simp]:
  "YAF_BLOCK_SIZE = 4096" "BITS_PER_BYTE = 8" "BITS_PER_BLOCK = 32768" "YAF_IBLOCKS = 8"
  "SIZEOF_YAF_INODE = 64" "INODES_PER_BLOCK = 64" "YAF_DENTRY_SIZE = 32"
  "YAF_DENTRY_NAME_LEN = 24" "DENTRYS_PER_BLOCK = 128" "MAX_DENTRYS = 1024"
  "MAX_FILESIZE = 32768"
  by (simp_all add: YAF_BLOCK_SIZE_def BITS_PER_BYTE_def BITS_PER_BLOCK_def YAF_IBLOCKS_def
      SIZEOF_YAF_INODE_def INODES_PER_BLOCK_def YAF_DENTRY_SIZE_def YAF_DENTRY_NAME_LEN_def
      DENTRYS_PER_BLOCK_def MAX_DENTRYS_def MAX_FILESIZE_def)

lemma unat_RESERVED_DNO [simp]: "unat RESERVED_DNO = 4294967295"
  by (simp add: RESERVED_DNO_def unsigned_minus_1_eq_mask mask_eq_exp_minus_1)

record Yaf_Sb_Info =
  nr_ibp :: u32
  nr_dbp :: u32
  nr_i :: u32
  nr_d :: u32

section \<open>Block ranges of the sections\<close>

definition BID_MIN :: "Yaf_Sb_Info \<Rightarrow> u64" where
  "BID_MIN sb = 0"

definition BID_SB_MIN :: "Yaf_Sb_Info \<Rightarrow> u64" where
  "BID_SB_MIN sb = BID_MIN sb"

definition BID_SB_MAX :: "Yaf_Sb_Info \<Rightarrow> u64" where
  "BID_SB_MAX sb = BID_SB_MIN sb + 1 - 1"

definition BID_IBP_MIN :: "Yaf_Sb_Info \<Rightarrow> u64" where
  "BID_IBP_MIN sb = BID_SB_MAX sb + 1"

definition BID_IBP_MAX :: "Yaf_Sb_Info \<Rightarrow> u64" where
  "BID_IBP_MAX sb = BID_IBP_MIN sb + ucast (nr_ibp sb) - 1"

definition BID_DBP_MIN :: "Yaf_Sb_Info \<Rightarrow> u64" where
  "BID_DBP_MIN sb = BID_IBP_MAX sb + 1"

definition BID_DBP_MAX :: "Yaf_Sb_Info \<Rightarrow> u64" where
  "BID_DBP_MAX sb = BID_DBP_MIN sb + ucast (nr_dbp sb) - 1"

definition BID_I_MIN :: "Yaf_Sb_Info \<Rightarrow> u64" where
  "BID_I_MIN sb = BID_DBP_MAX sb + 1"

definition BID_I_MAX :: "Yaf_Sb_Info \<Rightarrow> u64" where
  "BID_I_MAX sb = BID_I_MIN sb + ucast (nr_i sb) - 1"

definition BID_D_MIN :: "Yaf_Sb_Info \<Rightarrow> u64" where
  "BID_D_MIN sb = BID_I_MAX sb + 1"

definition BID_D_MAX :: "Yaf_Sb_Info \<Rightarrow> u64" where
  "BID_D_MAX sb = BID_D_MIN sb + ucast (nr_d sb) - 1"

lemma BID_min_eqs:
  "BID_SB_MIN sb = 0" "BID_SB_MAX sb = 0" "BID_IBP_MIN sb = 1"
  "BID_DBP_MIN sb = 1 + ucast (nr_ibp sb)"
  "BID_I_MIN sb = 1 + ucast (nr_ibp sb) + ucast (nr_dbp sb)"
  "BID_D_MIN sb = 1 + ucast (nr_ibp sb) + ucast (nr_dbp sb) + ucast (nr_i sb)"
  by (simp_all add: BID_SB_MIN_def BID_SB_MAX_def BID_MIN_def BID_IBP_MIN_def
      BID_IBP_MAX_def BID_DBP_MIN_def BID_DBP_MAX_def BID_I_MIN_def BID_I_MAX_def BID_D_MIN_def)

lemma unat_BID [yaf_layout]:
  "unat (BID_IBP_MIN sb) = 1"
  "unat (BID_DBP_MIN sb) = 1 + unat (nr_ibp sb)"
  "unat (BID_I_MIN sb) = 1 + unat (nr_ibp sb) + unat (nr_dbp sb)"
  "unat (BID_D_MIN sb) = 1 + unat (nr_ibp sb) + unat (nr_dbp sb) + unat (nr_i sb)"
  using unat_u32_le [of "nr_ibp sb"] unat_u32_le [of "nr_dbp sb"] unat_u32_le [of "nr_i sb"]
  by (simp_all add: BID_min_eqs unat_add_u64)

lemma unat_BID_MAX [yaf_layout]:
  "unat (BID_IBP_MAX sb) = unat (nr_ibp sb)"
  "unat (BID_DBP_MAX sb) = unat (nr_ibp sb) + unat (nr_dbp sb)"
  "unat (BID_I_MAX sb) = unat (nr_ibp sb) + unat (nr_dbp sb) + unat (nr_i sb)"
  "unat (BID_D_MAX sb) = unat (nr_ibp sb) + unat (nr_dbp sb) + unat (nr_i sb) + unat (nr_d sb)"
  using unat_u32_le [of "nr_ibp sb"] unat_u32_le [of "nr_dbp sb"] unat_u32_le [of "nr_i sb"]
    unat_u32_le [of "nr_d sb"]
  by (simp_all add: BID_IBP_MAX_def BID_DBP_MAX_def BID_I_MAX_def BID_D_MAX_def BID_min_eqs
      unat_add_u64)

section \<open>Index conversions\<close>

text \<open>The bit within its byte and the byte within its block of a bitmap index.\<close>

definition IDX2BEOFF :: "u32 \<Rightarrow> nat" where
  "IDX2BEOFF idx = unat idx mod BITS_PER_BYTE"

definition IDX2BKOFF :: "u32 \<Rightarrow> nat" where
  "IDX2BKOFF idx = (unat idx mod BITS_PER_BLOCK) div BITS_PER_BYTE"

definition IDXI2BID :: "Yaf_Sb_Info \<Rightarrow> u32 \<Rightarrow> u64" where
  "IDXI2BID sb idx = BID_IBP_MIN sb + ucast (idx div of_nat BITS_PER_BLOCK)"

definition IDXD2BID :: "Yaf_Sb_Info \<Rightarrow> u32 \<Rightarrow> u64" where
  "IDXD2BID sb idx = BID_DBP_MIN sb + ucast (idx div of_nat BITS_PER_BLOCK)"

definition INO2BID :: "Yaf_Sb_Info \<Rightarrow> u64 \<Rightarrow> u64" where
  "INO2BID sb ino = BID_I_MIN sb + ino div of_nat INODES_PER_BLOCK"

definition INO2BOFF :: "u64 \<Rightarrow> nat" where
  "INO2BOFF ino = unat ino mod INODES_PER_BLOCK * SIZEOF_YAF_INODE"

definition DNO2BID :: "Yaf_Sb_Info \<Rightarrow> u32 \<Rightarrow> u64" where
  "DNO2BID sb dno = BID_D_MIN sb + ucast dno"

lemma unat_IDXI2BID [yaf_layout]: "unat (IDXI2BID sb idx) = 1 + unat idx div 32768"
  using unat_u32_le [of "idx div 32768"]
  by (simp add: IDXI2BID_def unat_add_u64 unat_BID unat_div)

lemma unat_IDXD2BID [yaf_layout]:
  "unat (IDXD2BID sb idx) = 1 + unat (nr_ibp sb) + unat idx div 32768"
  using unat_u32_le [of "idx div 32768"] unat_u32_le [of "nr_ibp sb"]
  by (simp add: IDXD2BID_def unat_add_u64 unat_BID unat_div)

lemma unat_INO2BID [yaf_layout]:
  "unat (INO2BID sb ino) = 1 + unat (nr_ibp sb) + unat (nr_dbp sb) + unat ino div 64"
proof -
  have "unat (ino div 64) < 2 ^ 58"
    using unat_bound [of ino] by (simp add: unat_div less_mult_imp_div_less)
  then show ?thesis
    using unat_u32_le [of "nr_ibp sb"] unat_u32_le [of "nr_dbp sb"]
    by (simp add: INO2BID_def unat_add_u64 unat_BID unat_div)
qed

lemma unat_DNO2BID [yaf_layout]:
  "unat (DNO2BID sb dno) =
     1 + unat (nr_ibp sb) + unat (nr_dbp sb) + unat (nr_i sb) + unat dno"
  using unat_u32_le [of "nr_ibp sb"] unat_u32_le [of "nr_dbp sb"] unat_u32_le [of "nr_i sb"]
    unat_u32_le [of dno]
  by (simp add: DNO2BID_def unat_add_u64 unat_BID)

lemma DNO2BID_inj [simp]: "DNO2BID sb a = DNO2BID sb b \<longleftrightarrow> a = b"
  by (simp add: DNO2BID_def)

section \<open>The sections as sets of blocks\<close>

definition sect_sb :: "Yaf_Sb_Info \<Rightarrow> u64 \<Rightarrow> bool" where
  "sect_sb sb b \<longleftrightarrow> BID_SB_MIN sb \<le> b \<and> b \<le> BID_SB_MAX sb"

definition sect_ibp :: "Yaf_Sb_Info \<Rightarrow> u64 \<Rightarrow> bool" where
  "sect_ibp sb b \<longleftrightarrow> BID_IBP_MIN sb \<le> b \<and> b \<le> BID_IBP_MAX sb"

definition sect_dbp :: "Yaf_Sb_Info \<Rightarrow> u64 \<Rightarrow> bool" where
  "sect_dbp sb b \<longleftrightarrow> BID_DBP_MIN sb \<le> b \<and> b \<le> BID_DBP_MAX sb"

definition sect_i :: "Yaf_Sb_Info \<Rightarrow> u64 \<Rightarrow> bool" where
  "sect_i sb b \<longleftrightarrow> BID_I_MIN sb \<le> b \<and> b \<le> BID_I_MAX sb"

definition sect_d :: "Yaf_Sb_Info \<Rightarrow> u64 \<Rightarrow> bool" where
  "sect_d sb b \<longleftrightarrow> BID_D_MIN sb \<le> b \<and> b \<le> BID_D_MAX sb"

lemma sect_nat [yaf_layout]:
  "sect_sb sb b \<longleftrightarrow> unat b = 0"
  "sect_ibp sb b \<longleftrightarrow> 1 \<le> unat b \<and> unat b < 1 + unat (nr_ibp sb)"
  "sect_dbp sb b \<longleftrightarrow> 1 + unat (nr_ibp sb) \<le> unat b \<and>
     unat b < 1 + unat (nr_ibp sb) + unat (nr_dbp sb)"
  "sect_i sb b \<longleftrightarrow> 1 + unat (nr_ibp sb) + unat (nr_dbp sb) \<le> unat b \<and>
     unat b < 1 + unat (nr_ibp sb) + unat (nr_dbp sb) + unat (nr_i sb)"
  "sect_d sb b \<longleftrightarrow> 1 + unat (nr_ibp sb) + unat (nr_dbp sb) + unat (nr_i sb) \<le> unat b \<and>
     unat b < 1 + unat (nr_ibp sb) + unat (nr_dbp sb) + unat (nr_i sb) + unat (nr_d sb)"
  unfolding sect_sb_def sect_ibp_def sect_dbp_def sect_i_def sect_d_def word_le_nat_alt
    unat_BID unat_BID_MAX
  by (auto simp: BID_min_eqs)

lemma unat_interval:
  assumes "hi \<le> 2 ^ 64"
  shows "unat ` {b :: u64. lo \<le> unat b \<and> unat b < hi} = {lo..<hi}"
proof (intro set_eqI iffI)
  fix n assume "n \<in> {lo..<hi}"
  moreover from this have "unat (of_nat n :: u64) = n" using assms by (simp add: unat_of_nat take_bit_nat_eq_self)
  ultimately show "n \<in> unat ` {b :: u64. lo \<le> unat b \<and> unat b < hi}"
    by (intro image_eqI [of _ _ "of_nat n"]) simp_all
qed auto

text \<open>
  C23. The five sections, in numbers that can not wrap around. Whatever the four counts of the
  superblock are, the macros \<open>BID_*_MIN\<close> and \<open>BID_*_MAX\<close> delimit five consecutive sections: block 0
  alone is the superblock, the inode bitmap has the next \<open>nr_ibp\<close> blocks, the data bitmap
  the next \<open>nr_dbp\<close>, the inode table the next \<open>nr_i\<close> and the data section the next \<open>nr_d\<close>, none of
  them a block more or less, and \<open>BID_D_MAX\<close> is the last block of the last one.
\<close>

theorem layout_partition:
  "unat ` {b. sect_sb sb b} = {0} \<and>
   unat ` {b. sect_ibp sb b} = {1..<1 + unat (nr_ibp sb)} \<and>
   unat ` {b. sect_dbp sb b} = {1 + unat (nr_ibp sb)..<1 + unat (nr_ibp sb) + unat (nr_dbp sb)} \<and>
   unat ` {b. sect_i sb b} = {1 + unat (nr_ibp sb) + unat (nr_dbp sb)..<
     1 + unat (nr_ibp sb) + unat (nr_dbp sb) + unat (nr_i sb)} \<and>
   unat ` {b. sect_d sb b} = {1 + unat (nr_ibp sb) + unat (nr_dbp sb) + unat (nr_i sb)..<
     1 + unat (nr_ibp sb) + unat (nr_dbp sb) + unat (nr_i sb) + unat (nr_d sb)} \<and>
   Suc (unat (BID_D_MAX sb)) = 1 + unat (nr_ibp sb) + unat (nr_dbp sb) + unat (nr_i sb) + unat (nr_d sb)"
proof -
  note small = unat_u32_le [of "nr_ibp sb"] unat_u32_le [of "nr_dbp sb"] unat_u32_le [of "nr_i sb"] unat_u32_le [of "nr_d sb"]
  have "{b. sect_sb sb b} = {0}" by (auto simp: sect_nat unat_eq_0)
  moreover have "Suc (unat (BID_D_MAX sb)) = 1 + unat (nr_ibp sb) + unat (nr_dbp sb) + unat (nr_i sb) + unat (nr_d sb)"
    by (simp add: yaf_layout)
  ultimately show ?thesis
    unfolding sect_nat using small by (simp add: unat_interval)
qed

lemma bitmap_index_inj:
  "unat (i :: u32) div 32768 = unat j div 32768 \<Longrightarrow>
   (unat i mod 32768) div 8 = (unat j mod 32768) div 8 \<Longrightarrow>
   unat i mod 8 = unat j mod 8 \<Longrightarrow> i = j"
proof -
  assume a: "unat i div 32768 = unat j div 32768"
    "(unat i mod 32768) div 8 = (unat j mod 32768) div 8" "unat i mod 8 = unat j mod 8"
  have split: "n = 32768 * (n div 32768) + 8 * ((n mod 32768) div 8) + n mod 8" for n :: nat
  proof -
    have "n mod 32768 = 8 * ((n mod 32768) div 8) + n mod 32768 mod 8" by simp
    moreover have "n mod 32768 mod 8 = n mod 8" by (simp add: mod_mod_cancel)
    ultimately show ?thesis by (metis add.assoc mult_div_mod_eq)
  qed
  have "unat i = 32768 * (unat j div 32768) + 8 * ((unat j mod 32768) div 8) + unat j mod 8"
    by (subst split) (simp only: a)
  also have "\<dots> = unat j"
    by (rule split [symmetric])
  finally have "unat i = unat j" .
  then show "i = j" by (rule unsigned_word_eqI)
qed

text \<open>
  C24. Every index conversion stays inside of its section, and no two indices share a place:
  bitmap indices map injectively to a block and a bit in it, inode numbers to a block and a
  byte offset at which a whole on-disk inode fits, data block numbers to distinct blocks.
\<close>

theorem index_conversions:
  assumes "unat i < unat (nr_ibp sb) * BITS_PER_BLOCK" and "unat d < unat (nr_dbp sb) * BITS_PER_BLOCK"
    and "unat ino < unat (nr_i sb) * INODES_PER_BLOCK" and "dno < nr_d sb"
  shows "sect_ibp sb (IDXI2BID sb i) \<and> sect_dbp sb (IDXD2BID sb d) \<and>
    sect_i sb (INO2BID sb ino) \<and> sect_d sb (DNO2BID sb dno) \<and>
    INO2BOFF ino + SIZEOF_YAF_INODE \<le> YAF_BLOCK_SIZE \<and>
    IDX2BKOFF i < YAF_BLOCK_SIZE \<and> IDX2BEOFF i < BITS_PER_BYTE \<and>
    (IDXI2BID sb i = IDXI2BID sb i' \<and> IDX2BKOFF i = IDX2BKOFF i' \<and>
       IDX2BEOFF i = IDX2BEOFF i' \<longrightarrow> i = i') \<and>
    (IDXD2BID sb d = IDXD2BID sb d' \<and> IDX2BKOFF d = IDX2BKOFF d' \<and>
       IDX2BEOFF d = IDX2BEOFF d' \<longrightarrow> d = d') \<and>
    (INO2BID sb ino = INO2BID sb ino' \<and> INO2BOFF ino = INO2BOFF ino' \<longrightarrow> ino = ino') \<and>
    (DNO2BID sb dno = DNO2BID sb dno' \<longrightarrow> dno = dno')"
proof -
  have blk: "unat (IDXI2BID sb i) = unat (IDXI2BID sb i') \<longleftrightarrow> unat i div 32768 = unat i' div 32768"
    "unat (IDXD2BID sb d) = unat (IDXD2BID sb d') \<longleftrightarrow> unat d div 32768 = unat d' div 32768"
    "unat (INO2BID sb ino) = unat (INO2BID sb ino') \<longleftrightarrow> unat ino div 64 = unat ino' div 64"
    by (simp_all add: yaf_layout)
  have off: "unat ino mod 64 < 64" "(unat i mod 32768) div 8 < 4096"
    by (simp_all add: less_mult_imp_div_less)
  have inj1: "IDXI2BID sb i = IDXI2BID sb i' \<and> IDX2BKOFF i = IDX2BKOFF i' \<and>
       IDX2BEOFF i = IDX2BEOFF i' \<longrightarrow> i = i'"
    using blk(1) bitmap_index_inj by (auto simp: IDX2BKOFF_def IDX2BEOFF_def)
  have inj2: "IDXD2BID sb d = IDXD2BID sb d' \<and> IDX2BKOFF d = IDX2BKOFF d' \<and>
       IDX2BEOFF d = IDX2BEOFF d' \<longrightarrow> d = d'"
    using blk(2) bitmap_index_inj by (auto simp: IDX2BKOFF_def IDX2BEOFF_def)
  have inj3: "INO2BID sb ino = INO2BID sb ino' \<and> INO2BOFF ino = INO2BOFF ino' \<longrightarrow> ino = ino'"
  proof
    assume "INO2BID sb ino = INO2BID sb ino' \<and> INO2BOFF ino = INO2BOFF ino'"
    then have "unat ino div 64 = unat ino' div 64" "unat ino mod 64 = unat ino' mod 64"
      using blk(3) by (auto simp: INO2BOFF_def)
    then have "unat ino = unat ino'" by (metis mult_div_mod_eq)
    then show "ino = ino'" by (rule unsigned_word_eqI)
  qed
  have "unat i div 32768 < unat (nr_ibp sb)" "unat d div 32768 < unat (nr_dbp sb)"
    "unat ino div 64 < unat (nr_i sb)" "unat dno < unat (nr_d sb)"
    using assms by (simp_all add: less_mult_imp_div_less word_less_nat_alt)
  then show ?thesis
    using inj1 inj2 inj3 off by (simp add: yaf_layout INO2BOFF_def IDX2BKOFF_def IDX2BEOFF_def)
qed

theorem index_conversions_witness:
  "sect_d \<lparr>nr_ibp = 1, nr_dbp = 1, nr_i = 4, nr_d = 249\<rparr>
     (DNO2BID \<lparr>nr_ibp = 1, nr_dbp = 1, nr_i = 4, nr_d = 249\<rparr> 7)"
  using index_conversions [of 200 "\<lparr>nr_ibp = 1, nr_dbp = 1, nr_i = 4, nr_d = 249\<rparr>" 100 255 7]
  by simp

end
