(* ===== verification/Yaf_Kernel.thy ===== *)
theory Yaf_Kernel
  imports Yaf_Layout
begin

text \<open>
  The kernel around the driver. \<open>env\<close> holds what the driver does not decide: whether a
  block read succeeds, whether an in-memory inode can be allocated, the clock, the owner a
  new inode gets and what the memory of a fresh inode holds. \<open>kst\<close> is the state the driver and the kernel
  share: the buffer cache, the references taken on buffers, the inode cache and the dentry
  cache. The operations below are the field updates, reference counts and cache lookups
  that the driver's calls amount to; failures come from \<open>env\<close>. The theory models no line
  of the repository but the in-memory inode of \<open>include/inode.h\<close>.
\<close>

section \<open>In-memory inodes\<close>

datatype fops = No_Ops | Dir_Ops | File_Ops

text \<open>
  \<open>Yaf_Inode_Info\<close>: the block list with the embedded \<open>struct inode\<close>, reduced to the
  fields the driver reads or writes. Sizes are the non-negative values of \<open>loff_t\<close>, times
  the seconds of \<open>struct timespec64\<close>; \<open>i_op\<close> and \<open>a_ops\<close> tell whether the pointers to
  \<open>yaf_inode_ops\<close> and \<open>yaf_as_ops\<close> are set.
\<close>

record Yaf_Inode_Info =
  i_mode :: u16
  i_uid :: u32
  i_gid :: u32
  i_nlink :: u32
  i_size :: nat
  i_atime :: u64
  i_mtime :: u64
  i_ctime :: u64
  i_op :: bool
  i_fop :: fops
  a_ops :: bool
  i_block :: "u32 list"

definition S_IFMT :: u16 where "S_IFMT = 0xF000"
definition S_IFDIR :: u16 where "S_IFDIR = 0x4000"
definition S_IFREG :: u16 where "S_IFREG = 0x8000"

definition S_ISDIR :: "u16 \<Rightarrow> bool" where "S_ISDIR m \<longleftrightarrow> m AND S_IFMT = S_IFDIR"
definition S_ISREG :: "u16 \<Rightarrow> bool" where "S_ISREG m \<longleftrightarrow> m AND S_IFMT = S_IFREG"

section \<open>Environment and state\<close>

record env =
  bread_ok :: "nat \<Rightarrow> u64 \<Rightarrow> bool"
  iget_ok :: "nat \<Rightarrow> u64 \<Rightarrow> bool"
  now :: "nat \<Rightarrow> u64"
  init_owner :: "Yaf_Inode_Info \<Rightarrow> u16 \<Rightarrow> u16 \<times> u32 \<times> u32"
  slab_inode :: "nat \<Rightarrow> Yaf_Inode_Info"

record kst =
  disk :: "u64 \<Rightarrow> block"
  refs :: "u64 \<Rightarrow> nat"
  bdirty :: "u64 set"
  loose :: "u64 set"
  icache :: "u64 \<Rightarrow> Yaf_Inode_Info option"
  inew :: "u64 set"
  idirty :: "u64 set"
  dcache :: "u64 \<times> name \<Rightarrow> u64 option option"
  tick :: nat

text \<open>
  \<open>disk\<close> is the content of the buffer cache over the device, by block number and byte
  offset; \<open>bdirty\<close> the buffers marked dirty; \<open>loose\<close> those marked dirty by a caller that
  held no reference any more; \<open>inew\<close> the inodes still locked by \<open>iget_locked\<close>; \<open>dcache\<close>
  the inode bound to a name of a directory (\<open>Some None\<close> is a negative dentry). A mark on a buffer the
  caller has released counts like any other, as the buffer is still in the cache in the runs
  modelled; \<open>loose\<close> keeps the record of it. \<open>tick\<close>
  counts the calls whose outcome the environment decides, so that a later call on the same
  block may fare otherwise.
\<close>

type_synonym 'a kc = "kst \<Rightarrow> ('a, kst) outcome"

section \<open>Buffers\<close>

definition sb_bread :: "env \<Rightarrow> u64 \<Rightarrow> u64 option kc" where
  "sb_bread E b s =
     (if bread_ok E (tick s) b
      then Run (Some b) (s\<lparr>tick := tick s + 1, refs := (refs s)(b := refs s b + 1)\<rparr>)
      else Run None (s\<lparr>tick := tick s + 1\<rparr>))"

definition brelse :: "u64 \<Rightarrow> unit kc" where
  "brelse b s = Run () (s\<lparr>refs := (refs s)(b := refs s b - 1)\<rparr>)"

definition mark_buffer_dirty :: "u64 \<Rightarrow> unit kc" where
  "mark_buffer_dirty b s =
     Run () (s\<lparr>bdirty := insert b (bdirty s),
               loose := (if refs s b = 0 then insert b (loose s) else loose s)\<rparr>)"

definition b_data :: "u64 \<Rightarrow> block kc" where
  "b_data b s = Run (disk s b) s"

definition set_b_data :: "u64 \<Rightarrow> block \<Rightarrow> unit kc" where
  "set_b_data b blk s = Run () (s\<lparr>disk := (disk s)(b := blk)\<rparr>)"

section \<open>Inodes\<close>

text \<open>
  \<open>iget_locked\<close> returns the cached inode of the number, waiting until it is unlocked, or a
  fresh one, locked and with the content its memory happens to have, or NULL.
\<close>

definition iget_locked :: "env \<Rightarrow> u64 \<Rightarrow> u64 option kc" where
  "iget_locked E ino s =
     (if ino \<in> inew s then Stop Hang
      else if icache s ino \<noteq> None then Run (Some ino) s
      else if iget_ok E (tick s) ino
      then Run (Some ino) (s\<lparr>icache := (icache s)(ino := Some (slab_inode E (tick s))),
                             inew := insert ino (inew s), tick := tick s + 1\<rparr>)
      else Run None (s\<lparr>tick := tick s + 1\<rparr>))"

definition unlock_new_inode :: "u64 \<Rightarrow> unit kc" where
  "unlock_new_inode ino s = Run () (s\<lparr>inew := inew s - {ino}\<rparr>)"

definition get_inode :: "u64 \<Rightarrow> Yaf_Inode_Info kc" where
  "get_inode ino s = (case icache s ino of None \<Rightarrow> Stop BadAccess | Some v \<Rightarrow> Run v s)"

definition upd_inode :: "u64 \<Rightarrow> (Yaf_Inode_Info \<Rightarrow> Yaf_Inode_Info) \<Rightarrow> unit kc" where
  "upd_inode ino f s =
     (case icache s ino of None \<Rightarrow> Stop BadAccess
      | Some v \<Rightarrow> Run () (s\<lparr>icache := (icache s)(ino := Some (f v))\<rparr>))"

definition mark_inode_dirty :: "u64 \<Rightarrow> unit kc" where
  "mark_inode_dirty ino s = Run () (s\<lparr>idirty := insert ino (idirty s)\<rparr>)"

definition set_nlink :: "u32 \<Rightarrow> Yaf_Inode_Info \<Rightarrow> Yaf_Inode_Info" where
  "set_nlink n v = v\<lparr>i_nlink := n\<rparr>"

definition inc_nlink :: "Yaf_Inode_Info \<Rightarrow> Yaf_Inode_Info" where
  "inc_nlink v = v\<lparr>i_nlink := i_nlink v + 1\<rparr>"

definition drop_nlink :: "Yaf_Inode_Info \<Rightarrow> Yaf_Inode_Info" where
  "drop_nlink v = v\<lparr>i_nlink := i_nlink v - 1\<rparr>"

definition current_time :: "env \<Rightarrow> u64 kc" where
  "current_time E s = Run (now E (tick s)) s"

text \<open>The three calls that set access, modification and change time to one instant.\<close>

definition set_times :: "u64 \<Rightarrow> Yaf_Inode_Info \<Rightarrow> Yaf_Inode_Info" where
  "set_times t v = v\<lparr>i_atime := t, i_mtime := t, i_ctime := t\<rparr>"

section \<open>Dentries\<close>

text \<open>A \<open>struct dentry\<close> is named by its parent directory and its name.\<close>

definition d_bind :: "u64 \<Rightarrow> name \<Rightarrow> u64 option \<Rightarrow> unit kc" where
  "d_bind dir nm i s = Run () (s\<lparr>dcache := (dcache s)((dir, nm) := Some i)\<rparr>)"

definition d_inode :: "u64 \<Rightarrow> name \<Rightarrow> u64 kc" where
  "d_inode dir nm s =
     (case dcache s (dir, nm) of Some (Some i) \<Rightarrow> Run i s | _ \<Rightarrow> Stop BadAccess)"

lemmas kernel_defs = sb_bread_def brelse_def mark_buffer_dirty_def b_data_def set_b_data_def
  unlock_new_inode_def mark_inode_dirty_def current_time_def d_bind_def

text \<open>
  Symbolic execution: every one of the operations above that returns unconditionally is
  run by rewriting, the others once their condition is known.
\<close>

lemma kernel_run [yaf_exec]:
  "brelse b s = Run () (s\<lparr>refs := (refs s)(b := refs s b - 1)\<rparr>)"
  "b_data b s = Run (disk s b) s"
  "set_b_data b blk s = Run () (s\<lparr>disk := (disk s)(b := blk)\<rparr>)"
  "unlock_new_inode ino s = Run () (s\<lparr>inew := inew s - {ino}\<rparr>)"
  "mark_inode_dirty ino s = Run () (s\<lparr>idirty := insert ino (idirty s)\<rparr>)"
  "current_time E s = Run (now E (tick s)) s"
  "d_bind dir nm i s = Run () (s\<lparr>dcache := (dcache s)((dir, nm) := Some i)\<rparr>)"
  by (simp_all add: kernel_defs)

lemma sb_bread_run [yaf_exec]:
  "bread_ok E (tick s) b \<Longrightarrow>
     sb_bread E b s = Run (Some b) (s\<lparr>tick := tick s + 1, refs := (refs s)(b := refs s b + 1)\<rparr>)"
  "\<not> bread_ok E (tick s) b \<Longrightarrow> sb_bread E b s = Run None (s\<lparr>tick := tick s + 1\<rparr>)"
  by (simp_all add: sb_bread_def)

lemma mark_buffer_dirty_run [yaf_exec]:
  "0 < refs s b \<Longrightarrow> mark_buffer_dirty b s = Run () (s\<lparr>bdirty := insert b (bdirty s)\<rparr>)"
  "refs s b = 0 \<Longrightarrow> mark_buffer_dirty b s =
     Run () (s\<lparr>bdirty := insert b (bdirty s), loose := insert b (loose s)\<rparr>)"
  by (simp_all add: mark_buffer_dirty_def)

lemma inode_run [yaf_exec]:
  "icache s ino = Some v \<Longrightarrow> get_inode ino s = Run v s"
  "icache s ino = Some v \<Longrightarrow>
     upd_inode ino f s = Run () (s\<lparr>icache := (icache s)(ino := Some (f v))\<rparr>)"
  "icache s ino = None \<Longrightarrow> get_inode ino s = Stop BadAccess"
  "icache s ino = None \<Longrightarrow> upd_inode ino f s = Stop BadAccess"
  "dcache s (dir, nm) = Some (Some i) \<Longrightarrow> d_inode dir nm s = Run i s"
  by (simp_all add: get_inode_def upd_inode_def d_inode_def)

lemma bnd_run [yaf_exec]: "bnd m f s = (case m s of Run x s' \<Rightarrow> f x s' | Stop e \<Rightarrow> Stop e)"
  by (simp add: bnd_def)

lemma i_block_updates [simp]:
  "i_block (set_nlink n v) = i_block v" "i_block (inc_nlink v) = i_block v"
  "i_block (drop_nlink v) = i_block v" "i_block (set_times t v) = i_block v"
  "i_size (set_nlink n v) = i_size v" "i_size (inc_nlink v) = i_size v"
  "i_size (drop_nlink v) = i_size v" "i_size (set_times t v) = i_size v"
  "i_mode (set_times t v) = i_mode v" "i_nlink (set_times t v) = i_nlink v"
  "i_nlink (inc_nlink v) = i_nlink v + 1" "i_nlink (drop_nlink v) = i_nlink v - 1"
  "i_mode (inc_nlink v) = i_mode v" "i_mode (drop_nlink v) = i_mode v"
  by (simp_all add: set_nlink_def inc_nlink_def drop_nlink_def set_times_def)

section \<open>Buffer discipline\<close>

text \<open>
  What every operation owes the buffer cache: it gives back each reference it took, it
  marks every buffer it changed, and it touches no buffer after giving it back.
\<close>

definition buffers_balanced :: "kst \<Rightarrow> kst \<Rightarrow> bool" where
  "buffers_balanced s s' \<longleftrightarrow> refs s' = refs s"

definition changes_marked :: "kst \<Rightarrow> kst \<Rightarrow> bool" where
  "changes_marked s s' \<longleftrightarrow>
     bdirty s \<subseteq> bdirty s' \<and> (\<forall>b. disk s' b \<noteq> disk s b \<longrightarrow> b \<in> bdirty s')"

definition no_loose_use :: "kst \<Rightarrow> kst \<Rightarrow> bool" where
  "no_loose_use s s' \<longleftrightarrow> loose s' = loose s"

definition buffer_discipline :: "kst \<Rightarrow> kst \<Rightarrow> bool" where
  "buffer_discipline s s' \<longleftrightarrow> buffers_balanced s s' \<and> changes_marked s s' \<and> no_loose_use s s'"

lemmas discipline_defs = buffer_discipline_def buffers_balanced_def changes_marked_def
  no_loose_use_def

lemma changes_marked_trans:
  assumes st: "changes_marked s t" and tu: "changes_marked t u"
  shows "changes_marked s u"
proof -
  have "b \<in> bdirty u" if "disk u b \<noteq> disk s b" for b
  proof (cases "disk u b = disk t b")
    case True
    with that have "b \<in> bdirty t" using st by (simp add: changes_marked_def)
    then show ?thesis using tu by (auto simp: changes_marked_def)
  next
    case False
    then show ?thesis using tu by (simp add: changes_marked_def)
  qed
  moreover have "bdirty s \<subseteq> bdirty u"
    using st tu by (auto simp: changes_marked_def)
  ultimately show ?thesis by (simp add: changes_marked_def)
qed

lemma discipline_refl [simp, intro]: "reflp buffer_discipline"
  by (simp add: reflp_def discipline_defs)

lemma discipline_trans [simp, intro]: "transp buffer_discipline"
proof (rule transpI)
  fix s t u assume "buffer_discipline s t" "buffer_discipline t u"
  then show "buffer_discipline s u"
    unfolding buffer_discipline_def buffers_balanced_def no_loose_use_def
    by (auto intro: changes_marked_trans)
qed

text \<open>The operations that touch no buffer keep the discipline for free.\<close>

lemma keeps_discipline_kernel [intro]:
  "keeps buffer_discipline (get_inode ino)" "keeps buffer_discipline (upd_inode ino f)"
  "keeps buffer_discipline (mark_inode_dirty ino)" "keeps buffer_discipline (unlock_new_inode ino)"
  "keeps buffer_discipline (iget_locked E ino)" "keeps buffer_discipline (current_time E)"
  "keeps buffer_discipline (d_bind dir nm i)" "keeps buffer_discipline (d_inode dir nm)"
  by (auto simp: keeps_def discipline_defs get_inode_def upd_inode_def mark_inode_dirty_def
      unlock_new_inode_def iget_locked_def current_time_def d_bind_def d_inode_def
      split: option.splits if_splits)

section \<open>A sample environment and state\<close>

text \<open>
  Concrete values for the instances that accompany the theorems: an environment in which
  nothing fails, the superblock of a device of 256 blocks, and the state of a kernel that
  holds no buffer and no inode over a given device content.
\<close>

definition inode0 :: Yaf_Inode_Info where
  "inode0 = \<lparr>i_mode = 0, i_uid = 0, i_gid = 0, i_nlink = 1, i_size = 0, i_atime = 0,
     i_mtime = 0, i_ctime = 0, i_op = False, i_fop = No_Ops, a_ops = False, i_block = replicate 8 0\<rparr>"

definition env0 :: env where
  "env0 = \<lparr>bread_ok = \<lambda>_ _. True, iget_ok = \<lambda>_ _. True, now = \<lambda>_. 1,
     init_owner = \<lambda>_ m. (m, 0, 0), slab_inode = \<lambda>_. inode0\<rparr>"

definition sb0 :: Yaf_Sb_Info where
  "sb0 = \<lparr>nr_ibp = 1, nr_dbp = 1, nr_i = 4, nr_d = 249\<rparr>"

definition kst_of :: "(u64 \<Rightarrow> block) \<Rightarrow> kst" where
  "kst_of d = \<lparr>disk = d, refs = \<lambda>_. 0, bdirty = {}, loose = {}, icache = \<lambda>_. None,
     inew = {}, idirty = {}, dcache = \<lambda>_. None, tick = 0\<rparr>"

definition zeros :: "u64 \<Rightarrow> block" where
  "zeros b off = 0"

text \<open>The bitmaps of a freshly formatted device, and its root directory in memory.\<close>

definition disk0 :: "u64 \<Rightarrow> block" where
  "disk0 b off = (if b = 1 \<and> off = 0 then 3 else 0)"

definition root0 :: Yaf_Inode_Info where
  "root0 = \<lparr>i_mode = 0x41FF, i_uid = 0, i_gid = 0, i_nlink = 1, i_size = 0, i_atime = 0,
     i_mtime = 0, i_ctime = 0, i_op = True, i_fop = Dir_Ops, a_ops = False, i_block = replicate 8 RESERVED_DNO\<rparr>"

definition kst0 :: kst where
  "kst0 = (kst_of disk0)\<lparr>icache := \<lambda>i. if i = 1 then Some root0 else None\<rparr>"

lemma kst0_simps [simp]:
  "disk kst0 = disk0" "refs kst0 = (\<lambda>_. 0)" "bdirty kst0 = {}" "loose kst0 = {}" "inew kst0 = {}"
  "idirty kst0 = {}" "dcache kst0 = (\<lambda>_. None)" "tick kst0 = 0"
  "icache kst0 i = (if i = 1 then Some root0 else None)"
  by (simp_all add: kst0_def kst_of_def)

lemma root0_simps [simp]:
  "i_mode root0 = 0x41FF" "i_nlink root0 = 1" "i_size root0 = 0"
  "i_block root0 = replicate 8 RESERVED_DNO"
  by (simp_all add: root0_def)

lemma sample_simps [simp]:
  "bread_ok env0 n b" "iget_ok env0 n b" "now env0 n = 1" "init_owner env0 v m = (m, 0, 0)"
  "slab_inode env0 n = inode0" "disk (kst_of d) = d" "refs (kst_of d) = (\<lambda>_. 0)"
  "bdirty (kst_of d) = {}" "loose (kst_of d) = {}" "icache (kst_of d) = (\<lambda>_. None)"
  "inew (kst_of d) = {}" "idirty (kst_of d) = {}" "dcache (kst_of d) = (\<lambda>_. None)"
  "tick (kst_of d) = 0"
  by (simp_all add: env0_def kst_of_def)

end
