(* ===== verification/Yaf_Bitmap.thy ===== *)
theory Yaf_Bitmap
  imports Yaf_Kernel
begin

text \<open>
  The inode and data bitmaps: \<open>driver/bitmap.c\<close> and the user-space \<open>yaf_set_bit\<close> of
  \<open>include/bitmap.h\<close>. Bit \<open>nr\<close> of a bitmap is bit \<open>nr mod 8\<close>, counted from the least
  significant, of byte \<open>nr div 8\<close>, as drawn in \<open>include/bitmap.h\<close>. The first part relates
  one bitmap block to the set of its used indices and states the allocator contract as a
  locale; the second runs the two allocators and the two releases of the driver.
\<close>

section \<open>One bitmap block\<close>

definition test_bit_at :: "block \<Rightarrow> nat \<Rightarrow> bool" where
  "test_bit_at addr nr = bit (addr (nr div 8)) (nr mod 8)"

definition mark_bit :: "nat \<Rightarrow> block \<Rightarrow> block" where
  "mark_bit nr addr = addr(nr div 8 := set_bit (nr mod 8) (addr (nr div 8)))"

definition clear_bit :: "nat \<Rightarrow> block \<Rightarrow> block" where
  "clear_bit nr addr = addr(nr div 8 := unset_bit (nr mod 8) (addr (nr div 8)))"

definition test_and_set_bit :: "nat \<Rightarrow> block \<Rightarrow> bool \<times> block" where
  "test_and_set_bit nr addr = (test_bit_at addr nr, mark_bit nr addr)"

definition test_and_clear_bit :: "nat \<Rightarrow> block \<Rightarrow> bool \<times> block" where
  "test_and_clear_bit nr addr = (test_bit_at addr nr, clear_bit nr addr)"

text \<open>The loop of \<open>yaf_get_free_bit\<close>, entered with the loop variable at \<open>nr\<close>.\<close>

function get_free_bit_from :: "block \<Rightarrow> nat \<Rightarrow> nat \<Rightarrow> int \<times> block" where
  "get_free_bit_from addr nr bits =
     (if nr < bits then
        (case test_and_set_bit nr addr of (old, addr') \<Rightarrow>
           if \<not> old then (int nr, addr') else get_free_bit_from addr' (Suc nr) bits)
      else (- ENOENT, addr))"
  by pat_completeness auto
termination
  by (relation "measure (\<lambda>(addr, nr, bits). bits - nr)") auto

declare get_free_bit_from.simps [simp del]

definition yaf_get_free_bit :: "block \<Rightarrow> nat \<Rightarrow> int \<times> block" where
  "yaf_get_free_bit addr bits = get_free_bit_from addr 0 bits"

text \<open>\<open>None\<close> is the failed assertion.\<close>

definition yaf_put_bit :: "block \<Rightarrow> nat \<Rightarrow> block option" where
  "yaf_put_bit addr nr =
     (case test_and_clear_bit nr addr of (old, addr') \<Rightarrow> if old then Some addr' else None)"

text \<open>The mask and the bit setter of the formatting tool; \<open>None\<close> is a failed assertion.\<close>

definition BEOFF2MASK :: "byte \<Rightarrow> byte option" where
  "BEOFF2MASK beoff = (if beoff \<le> 7 then Some (push_bit (unat beoff) 1) else None)"

definition yaf_set_bit :: "byte \<Rightarrow> byte \<Rightarrow> byte option" where
  "yaf_set_bit byt byte_off =
     Option.bind (BEOFF2MASK byte_off)
       (\<lambda>m. if byt AND m = 0 then Some (byt OR m) else None)"

definition used_bits :: "block \<Rightarrow> nat set" where
  "used_bits addr = {k. k < BITS_PER_BLOCK \<and> test_bit_at addr k}"

lemma div_mod_8_eq: "k div 8 = j div 8 \<and> k mod 8 = j mod 8 \<longleftrightarrow> k = (j :: nat)"
  by (metis mult_div_mod_eq)

lemma test_mark_bit [simp]: "test_bit_at (mark_bit j addr) k \<longleftrightarrow> k = j \<or> test_bit_at addr k"
  using div_mod_8_eq [of k j]
  by (auto simp: test_bit_at_def mark_bit_def bit_set_bit_iff)

lemma test_clear_bit [simp]: "test_bit_at (clear_bit j addr) k \<longleftrightarrow> k \<noteq> j \<and> test_bit_at addr k"
  using div_mod_8_eq [of k j]
  by (auto simp: test_bit_at_def clear_bit_def bit_unset_bit_iff)

lemma block_eq_bits: "(\<And>k. test_bit_at a k = test_bit_at b k) \<Longrightarrow> a = b"
proof (rule ext, rule bit_word_eqI)
  fix off n assume eq: "\<And>k. test_bit_at a k = test_bit_at b k" and n: "n < LENGTH(8)"
  then have "(8 * off + n) div 8 = off" "(8 * off + n) mod 8 = n" by auto
  with eq [of "8 * off + n"] show "bit (a off) n = bit (b off) n"
    by (simp only: test_bit_at_def)
qed

lemma mark_used [simp]: "test_bit_at addr k \<Longrightarrow> mark_bit k addr = addr"
  by (rule block_eq_bits) auto

lemma clear_mark [simp]: "\<not> test_bit_at addr k \<Longrightarrow> clear_bit k (mark_bit k addr) = addr"
  by (rule block_eq_bits) auto

lemma get_free_bit_from_eq:
  "\<forall>k<nr. test_bit_at addr k \<Longrightarrow> get_free_bit_from addr nr bits =
     (case first_idx (\<lambda>k. \<not> test_bit_at addr k) bits of
        Some k \<Rightarrow> (int k, mark_bit k addr) | None \<Rightarrow> (- ENOENT, addr))"
proof (induction addr nr bits rule: get_free_bit_from.induct)
  case (1 addr nr bits)
  note unfold = get_free_bit_from.simps [of addr nr] test_and_set_bit_def
  consider "bits \<le> nr" | "nr < bits" "test_bit_at addr nr" | "nr < bits" "\<not> test_bit_at addr nr"
    by fastforce
  then show ?case
  proof cases
    case 1
    with "1.prems" have "first_idx (\<lambda>k. \<not> test_bit_at addr k) bits = None"
      by (auto simp: first_idx_None)
    with 1 show ?thesis by (simp add: unfold)
  next
    case 2
    then have "\<forall>k<Suc nr. test_bit_at addr k"
      using "1.prems" by (auto simp: less_Suc_eq)
    with "1.IH" [of "test_bit_at addr nr" addr] 2 show ?thesis
      by (simp add: unfold)
  next
    case 3
    with "1.prems" have "first_idx (\<lambda>k. \<not> test_bit_at addr k) bits = Some nr"
      by (simp add: first_idx_Some)
    with 3 show ?thesis by (simp add: unfold)
  qed
qed

lemma yaf_get_free_bit_eq:
  "yaf_get_free_bit addr bits =
     (case first_idx (\<lambda>k. \<not> test_bit_at addr k) bits of
        Some k \<Rightarrow> (int k, mark_bit k addr) | None \<Rightarrow> (- ENOENT, addr))"
  by (simp add: yaf_get_free_bit_def get_free_bit_from_eq)

text \<open>
  The allocator contract over one bitmap block: an allocation takes the least unused index
  and changes nothing else, it fails only when every index is used, a release makes exactly
  its index unused and is refused for an unused one.
\<close>

locale index_allocator =
  fixes alloc :: "'m \<Rightarrow> (nat \<times> 'm) option"
    and release :: "nat \<Rightarrow> 'm \<Rightarrow> 'm option"
    and used :: "'m \<Rightarrow> nat set"
    and cap :: nat
  assumes used_cap: "used m \<subseteq> {..<cap}"
    and alloc_Some: "alloc m = Some (k, m') \<Longrightarrow>
          k < cap \<and> k \<notin> used m \<and> {..<k} \<subseteq> used m \<and> used m' = insert k (used m)"
    and alloc_None: "alloc m = None \<Longrightarrow> used m = {..<cap}"
    and release_Some: "release k m = Some m' \<Longrightarrow> k \<in> used m \<and> used m' = used m - {k}"
    and release_used: "k \<in> used m \<Longrightarrow> \<exists>m'. release k m = Some m'"
begin

lemma finite_used: "finite (used m)"
  using used_cap by (rule finite_subset) simp

lemma alloc_card: "alloc m = Some (k, m') \<Longrightarrow> card (used m') = Suc (card (used m))"
  using alloc_Some [of m k m'] finite_used by auto

lemma card_le_cap: "card (used m) \<le> cap"
  using card_mono [OF finite_lessThan used_cap] by simp

lemma alloc_iff: "alloc m = None \<longleftrightarrow> card (used m) = cap"
proof
  assume "alloc m = None"
  then show "card (used m) = cap" by (simp add: alloc_None)
next
  assume full: "card (used m) = cap"
  show "alloc m = None"
  proof (cases "alloc m")
    case (Some p)
    then have "card (used (snd p)) = Suc cap"
      using alloc_card [of m "fst p" "snd p"] full by simp
    then show ?thesis using card_le_cap [of "snd p"] by simp
  qed simp
qed

text \<open>Release undoes an allocation.\<close>

lemma alloc_release: "alloc m = Some (k, m') \<Longrightarrow> \<exists>m''. release k m' = Some m'' \<and> used m'' = used m"
proof -
  assume a: "alloc m = Some (k, m')"
  then have "k \<in> used m'" "used m' - {k} = used m" using alloc_Some [OF a] by auto
  then show ?thesis using release_used release_Some by metis
qed

text \<open>Two allocations in a row never hand out the same index.\<close>

lemma alloc_distinct: "alloc m = Some (k, m') \<Longrightarrow> alloc m' = Some (j, m'') \<Longrightarrow> k < j"
proof -
  assume a: "alloc m = Some (k, m')" and b: "alloc m' = Some (j, m'')"
  then have "k \<noteq> j" "{..<k} \<subseteq> used m'" "j \<notin> used m'"
    using alloc_Some [OF a] alloc_Some [OF b] by auto
  then show "k < j" by (metis lessThan_iff linorder_less_linear subsetD)
qed

end

text \<open>The contract holds of \<open>yaf_get_free_bit\<close> and \<open>yaf_put_bit\<close> on a block.\<close>

definition block_alloc :: "block \<Rightarrow> (nat \<times> block) option" where
  "block_alloc addr =
     (case yaf_get_free_bit addr BITS_PER_BLOCK of (r, addr') \<Rightarrow>
        if 0 \<le> r then Some (nat r, addr') else None)"

definition block_release :: "nat \<Rightarrow> block \<Rightarrow> block option" where
  "block_release k addr = (if k < BITS_PER_BLOCK then yaf_put_bit addr k else None)"

lemma block_alloc_eq:
  "block_alloc addr = map_option (\<lambda>k. (k, mark_bit k addr))
     (first_idx (\<lambda>k. \<not> test_bit_at addr k) BITS_PER_BLOCK)"
  by (simp add: block_alloc_def yaf_get_free_bit_eq ENOENT_def split: option.splits)

interpretation bitmap: index_allocator block_alloc block_release used_bits BITS_PER_BLOCK
proof unfold_locales
  fix m m' k
  show "used_bits m \<subseteq> {..<BITS_PER_BLOCK}" by (auto simp: used_bits_def)
  show "block_alloc m = Some (k, m') \<Longrightarrow> k < BITS_PER_BLOCK \<and> k \<notin> used_bits m \<and>
      {..<k} \<subseteq> used_bits m \<and> used_bits m' = insert k (used_bits m)"
    by (auto simp: block_alloc_eq first_idx_Some used_bits_def)
  show "block_alloc m = None \<Longrightarrow> used_bits m = {..<BITS_PER_BLOCK}"
    by (auto simp: block_alloc_eq first_idx_None used_bits_def)
  show "block_release k m = Some m' \<Longrightarrow> k \<in> used_bits m \<and> used_bits m' = used_bits m - {k}"
    by (auto simp: block_release_def yaf_put_bit_def test_and_clear_bit_def used_bits_def
        split: if_splits)
  show "k \<in> used_bits m \<Longrightarrow> \<exists>m'. block_release k m = Some m'"
    by (auto simp: block_release_def yaf_put_bit_def test_and_clear_bit_def used_bits_def)
qed

section \<open>The allocators of the driver\<close>

text \<open>
  The values the loop variable \<open>bid\<close> of type \<open>uint32_t\<close> takes from \<open>lo\<close> to \<open>hi\<close>. Both are below
  \<open>2 ^ 32\<close> on every device whose counts fit (\<open>sb_ok\<close>, below); a section that begins behind block
  \<open>2 ^ 32\<close>, where the variable of the code would wrap around, is not followed.
\<close>

definition bid_range :: "u64 \<Rightarrow> u64 \<Rightarrow> u32 list" where
  "bid_range lo hi = map of_nat [unat lo ..< Suc (unat hi)]"

fun get_free_inode_loop :: "env \<Rightarrow> Yaf_Sb_Info \<Rightarrow> u32 list \<Rightarrow> u32 kc" where
  "get_free_inode_loop E sb [] = ret RESERVED_INO"
| "get_free_inode_loop E sb (bid # bids) =
     bnd (sb_bread E (ucast bid)) (\<lambda>bh.
       case bh of
         None \<Rightarrow> ret RESERVED_INO
       | Some bh \<Rightarrow>
           bnd (b_data bh) (\<lambda>addr.
           case yaf_get_free_bit addr BITS_PER_BLOCK of (r, addr') \<Rightarrow>
           bnd (set_b_data bh addr') (\<lambda>_.
           let res = of_int r :: u32 in
           if 0 \<le> res then
             bnd (mark_buffer_dirty bh) (\<lambda>_.
             bnd (brelse bh) (\<lambda>_.
             ret (ucast (ucast res + (ucast bid - BID_IBP_MIN sb) * of_nat BITS_PER_BLOCK))))
           else
             bnd (brelse bh) (\<lambda>_. get_free_inode_loop E sb bids))))"

definition yaf_get_free_inode :: "env \<Rightarrow> Yaf_Sb_Info \<Rightarrow> u32 kc" where
  "yaf_get_free_inode E sb = get_free_inode_loop E sb (bid_range (BID_IBP_MIN sb) (BID_IBP_MAX sb))"

definition yaf_put_inode :: "env \<Rightarrow> Yaf_Sb_Info \<Rightarrow> u32 \<Rightarrow> unit kc" where
  "yaf_put_inode E sb ino =
     bnd (sb_bread E (IDXI2BID sb ino)) (\<lambda>bh.
       case bh of
         None \<Rightarrow> halt Panic
       | Some bh \<Rightarrow>
           bnd (b_data bh) (\<lambda>addr.
           case yaf_put_bit addr (unat ino mod BITS_PER_BLOCK) of
             None \<Rightarrow> halt Panic
           | Some addr' \<Rightarrow>
               bnd (set_b_data bh addr') (\<lambda>_.
               bnd (mark_buffer_dirty bh) (\<lambda>_.
               brelse bh))))"

text \<open>
  The data block allocator releases the buffer before it marks it dirty, and answers a
  failed read with \<open>RESERVED_INO\<close>.
\<close>

fun get_free_dblock_loop :: "env \<Rightarrow> Yaf_Sb_Info \<Rightarrow> u32 list \<Rightarrow> u32 kc" where
  "get_free_dblock_loop E sb [] = ret RESERVED_DNO"
| "get_free_dblock_loop E sb (bid # bids) =
     bnd (sb_bread E (ucast bid)) (\<lambda>bh.
       case bh of
         None \<Rightarrow> ret RESERVED_INO
       | Some bh \<Rightarrow>
           bnd (b_data bh) (\<lambda>addr.
           case yaf_get_free_bit addr BITS_PER_BLOCK of (r, addr') \<Rightarrow>
           bnd (set_b_data bh addr') (\<lambda>_.
           let res = of_int r :: u32 in
           if 0 \<le> res then
             bnd (brelse bh) (\<lambda>_.
             bnd (mark_buffer_dirty bh) (\<lambda>_.
             ret (ucast (ucast res + (ucast bid - BID_DBP_MIN sb) * of_nat BITS_PER_BLOCK))))
           else
             bnd (brelse bh) (\<lambda>_. get_free_dblock_loop E sb bids))))"

definition yaf_get_free_dblock :: "env \<Rightarrow> Yaf_Sb_Info \<Rightarrow> u32 kc" where
  "yaf_get_free_dblock E sb =
     get_free_dblock_loop E sb (bid_range (BID_DBP_MIN sb) (BID_DBP_MAX sb))"

definition yaf_put_dblock :: "env \<Rightarrow> Yaf_Sb_Info \<Rightarrow> u32 \<Rightarrow> unit kc" where
  "yaf_put_dblock E sb dno =
     bnd (sb_bread E (IDXD2BID sb dno)) (\<lambda>bh.
       case bh of
         None \<Rightarrow> halt Panic
       | Some bh \<Rightarrow>
           bnd (b_data bh) (\<lambda>addr.
           case yaf_put_bit addr (unat dno mod BITS_PER_BLOCK) of
             None \<Rightarrow> halt Panic
           | Some addr' \<Rightarrow>
               bnd (set_b_data bh addr') (\<lambda>_.
               bnd (mark_buffer_dirty bh) (\<lambda>_.
               brelse bh))))"

text \<open>
  A superblock whose bitmap sections are not empty and whose block numbers fit in the 32 bits
  of the loop variable, as the formatting tool writes it for every device of at least 64 and
  less than \<open>2 ^ 32\<close> blocks.
\<close>

definition sb_ok :: "Yaf_Sb_Info \<Rightarrow> bool" where
  "sb_ok sb \<longleftrightarrow> 0 < nr_ibp sb \<and> 0 < nr_dbp sb \<and>
     1 + unat (nr_ibp sb) + unat (nr_dbp sb) + unat (nr_i sb) + unat (nr_d sb) < 2 ^ 32"


lemma bid_range_Cons:
  "lo \<le> hi \<Longrightarrow> bid_range lo hi = of_nat (unat lo) # map of_nat [Suc (unat lo)..<Suc (unat hi)]"
  by (simp add: bid_range_def upt_conv_Cons word_le_nat_alt del: upt_Suc)

lemma ucast_bid: "unat lo < 2 ^ 32 \<Longrightarrow> ucast (of_nat (unat lo) :: u32) = (lo :: u64)"
  by (rule word_unatI) (simp add: unat_of_nat_u32 del: of_nat_unat)

lemma ibp_range:
  "sb_ok sb \<Longrightarrow> \<exists>b bs. bid_range (BID_IBP_MIN sb) (BID_IBP_MAX sb) = b # bs \<and> ucast b = BID_IBP_MIN sb"
  using bid_range_Cons [of "BID_IBP_MIN sb" "BID_IBP_MAX sb"] ucast_bid [of "BID_IBP_MIN sb"]
  by (auto simp: sb_ok_def yaf_layout word_le_nat_alt word_less_nat_alt)

lemma dbp_range:
  "sb_ok sb \<Longrightarrow> \<exists>b bs. bid_range (BID_DBP_MIN sb) (BID_DBP_MAX sb) = b # bs \<and> ucast b = BID_DBP_MIN sb"
  using bid_range_Cons [of "BID_DBP_MIN sb" "BID_DBP_MAX sb"] ucast_bid [of "BID_DBP_MIN sb"]
  by (auto simp: sb_ok_def yaf_layout word_le_nat_alt word_less_nat_alt)

text \<open>
  What an allocation from a bitmap block returns and leaves behind. A full block answers
  \<open>-ENOENT\<close>, which the caller holds in a \<open>uint32_t\<close>, so that its test \<open>res >= 0\<close> passes.
\<close>

definition alloc_result :: "block \<Rightarrow> u32" where
  "alloc_result addr = (case block_alloc addr of Some (k, _) \<Rightarrow> of_nat k | None \<Rightarrow> 0xFFFFFFFE)"

definition alloc_block :: "block \<Rightarrow> block" where
  "alloc_block addr = (case block_alloc addr of Some (_, addr') \<Rightarrow> addr' | None \<Rightarrow> addr)"

lemma get_free_bit_alloc:
  "yaf_get_free_bit addr BITS_PER_BLOCK =
     ((case block_alloc addr of Some (k, _) \<Rightarrow> int k | None \<Rightarrow> -2), alloc_block addr)"
  by (simp add: yaf_get_free_bit_eq block_alloc_eq alloc_block_def ENOENT_def split: option.splits)

lemma alloc_res:
  "(of_int (case block_alloc addr of Some (k, _) \<Rightarrow> int k | None \<Rightarrow> -2) :: u32) = alloc_result addr"
  by (simp add: alloc_result_def split: option.splits)

lemma alloc_run_cases:
  "used_bits addr \<noteq> {..<BITS_PER_BLOCK} \<Longrightarrow>
     \<exists>k. alloc_result addr = of_nat k \<and> unat (alloc_result addr) = k \<and>
         alloc_block addr = mark_bit k addr \<and>
         k < BITS_PER_BLOCK \<and> k \<notin> used_bits addr \<and> {..<k} \<subseteq> used_bits addr"
  "used_bits addr = {..<BITS_PER_BLOCK} \<Longrightarrow>
     alloc_result addr = 0xFFFFFFFE \<and> alloc_block addr = addr"
proof -
  assume "used_bits addr \<noteq> {..<BITS_PER_BLOCK}"
  then obtain k addr' where a: "block_alloc addr = Some (k, addr')"
    using bitmap.alloc_None [of addr] by (cases "block_alloc addr") auto
  then have "addr' = mark_bit k addr" by (auto simp: block_alloc_eq)
  with a bitmap.alloc_Some [OF a] show "\<exists>k. alloc_result addr = of_nat k \<and>
      unat (alloc_result addr) = k \<and> alloc_block addr = mark_bit k addr \<and>
      k < BITS_PER_BLOCK \<and> k \<notin> used_bits addr \<and> {..<k} \<subseteq> used_bits addr"
    by (intro exI [of _ k]) (simp add: alloc_result_def alloc_block_def unat_of_nat_u32)
next
  assume "used_bits addr = {..<BITS_PER_BLOCK}"
  then have "block_alloc addr = None"
    using bitmap.alloc_Some [of addr] by (cases "block_alloc addr") force+
  then show "alloc_result addr = 0xFFFFFFFE \<and> alloc_block addr = addr"
    by (simp add: alloc_result_def alloc_block_def)
qed

lemma least_result:
  assumes "k < BITS_PER_BLOCK" and "k \<notin> used_bits addr" and "{..<k} \<subseteq> used_bits addr"
  shows "used_bits addr \<noteq> {..<BITS_PER_BLOCK}" and "unat (alloc_result addr) = k"
proof -
  show free: "used_bits addr \<noteq> {..<BITS_PER_BLOCK}" using assms by auto
  obtain j where "unat (alloc_result addr) = j" "j \<notin> used_bits addr" "{..<j} \<subseteq> used_bits addr"
    using alloc_run_cases(1) [OF free] by blast
  with assms show "unat (alloc_result addr) = k"
    by (metis lessThan_iff linorder_neqE_nat subsetD)
qed

section \<open>Running the allocators\<close>

lemma get_free_inode_run:
  assumes "sb_ok sb" and ok: "bread_ok E (tick s) (BID_IBP_MIN sb)"
  shows "yaf_get_free_inode E sb s = Run (alloc_result (disk s (BID_IBP_MIN sb)))
    (s\<lparr>disk := (disk s)(BID_IBP_MIN sb := alloc_block (disk s (BID_IBP_MIN sb))),
       bdirty := insert (BID_IBP_MIN sb) (bdirty s), tick := tick s + 1\<rparr>)"
proof -
  obtain b bs where "bid_range (BID_IBP_MIN sb) (BID_IBP_MAX sb) = b # bs" "ucast b = BID_IBP_MIN sb"
    using ibp_range assms by blast
  then show ?thesis
    using ok by (simp add: yaf_get_free_inode_def yaf_exec get_free_bit_alloc alloc_res Let_def
        del: layout_consts)
qed

lemma get_free_inode_ioerr:
  assumes "sb_ok sb" and "\<not> bread_ok E (tick s) (BID_IBP_MIN sb)"
  shows "yaf_get_free_inode E sb s = Run RESERVED_INO (s\<lparr>tick := tick s + 1\<rparr>)"
  using ibp_range [OF assms(1)] assms(2) by (auto simp: yaf_get_free_inode_def yaf_exec)

lemma get_free_dblock_run:
  assumes "sb_ok sb" and ok: "bread_ok E (tick s) (BID_DBP_MIN sb)"
  shows "yaf_get_free_dblock E sb s = Run (alloc_result (disk s (BID_DBP_MIN sb)))
    (s\<lparr>disk := (disk s)(BID_DBP_MIN sb := alloc_block (disk s (BID_DBP_MIN sb))),
       bdirty := insert (BID_DBP_MIN sb) (bdirty s),
       loose := (if refs s (BID_DBP_MIN sb) = 0 then insert (BID_DBP_MIN sb) (loose s) else loose s),
       tick := tick s + 1\<rparr>)"
proof -
  obtain b bs where "bid_range (BID_DBP_MIN sb) (BID_DBP_MAX sb) = b # bs" "ucast b = BID_DBP_MIN sb"
    using dbp_range assms by blast
  then show ?thesis
    using ok by (simp add: yaf_get_free_dblock_def yaf_exec mark_buffer_dirty_def
        get_free_bit_alloc alloc_res Let_def del: layout_consts)
qed

lemma get_free_dblock_ioerr:
  assumes "sb_ok sb" and "\<not> bread_ok E (tick s) (BID_DBP_MIN sb)"
  shows "yaf_get_free_dblock E sb s = Run RESERVED_INO (s\<lparr>tick := tick s + 1\<rparr>)"
  using dbp_range [OF assms(1)] assms(2) by (auto simp: yaf_get_free_dblock_def yaf_exec)

lemma put_inode_run:
  assumes "bread_ok E (tick s) (IDXI2BID sb ino)"
    and "test_bit_at (disk s (IDXI2BID sb ino)) (unat ino mod BITS_PER_BLOCK)"
  shows "yaf_put_inode E sb ino s = Run ()
    (s\<lparr>disk := (disk s)(IDXI2BID sb ino :=
                 clear_bit (unat ino mod BITS_PER_BLOCK) (disk s (IDXI2BID sb ino))),
       bdirty := insert (IDXI2BID sb ino) (bdirty s), tick := tick s + 1\<rparr>)"
  using assms by (simp add: yaf_put_inode_def yaf_exec yaf_put_bit_def test_and_clear_bit_def)

lemma put_inode_panic:
  assumes "\<not> bread_ok E (tick s) (IDXI2BID sb ino) \<or>
    \<not> test_bit_at (disk s (IDXI2BID sb ino)) (unat ino mod BITS_PER_BLOCK)"
  shows "yaf_put_inode E sb ino s = Stop Panic"
  using assms by (cases "bread_ok E (tick s) (IDXI2BID sb ino)")
    (simp_all add: yaf_put_inode_def yaf_exec yaf_put_bit_def test_and_clear_bit_def)

lemma put_dblock_run:
  assumes "bread_ok E (tick s) (IDXD2BID sb dno)"
    and "test_bit_at (disk s (IDXD2BID sb dno)) (unat dno mod BITS_PER_BLOCK)"
  shows "yaf_put_dblock E sb dno s = Run ()
    (s\<lparr>disk := (disk s)(IDXD2BID sb dno :=
                 clear_bit (unat dno mod BITS_PER_BLOCK) (disk s (IDXD2BID sb dno))),
       bdirty := insert (IDXD2BID sb dno) (bdirty s), tick := tick s + 1\<rparr>)"
  using assms by (simp add: yaf_put_dblock_def yaf_exec yaf_put_bit_def test_and_clear_bit_def)

lemma put_dblock_panic:
  assumes "\<not> bread_ok E (tick s) (IDXD2BID sb dno) \<or>
    \<not> test_bit_at (disk s (IDXD2BID sb dno)) (unat dno mod BITS_PER_BLOCK)"
  shows "yaf_put_dblock E sb dno s = Stop Panic"
  using assms by (cases "bread_ok E (tick s) (IDXD2BID sb dno)")
    (simp_all add: yaf_put_dblock_def yaf_exec yaf_put_bit_def test_and_clear_bit_def)

lemma keeps_get_free_inode_loop: "keeps buffer_discipline (get_free_inode_loop E sb bids)"
proof (cases bids)
  case (Cons bid rest)
  then show ?thesis
    by (auto simp: keeps_def bnd_def kernel_defs discipline_defs Let_def
        split: outcome.splits option.splits if_splits prod.splits)
qed (simp add: keeps_ret)

lemma keeps_get_free_inode: "keeps buffer_discipline (yaf_get_free_inode E sb)"
  unfolding yaf_get_free_inode_def by (rule keeps_get_free_inode_loop)

lemma keeps_put_inode: "keeps buffer_discipline (yaf_put_inode E sb ino)"
  by (auto simp: keeps_def yaf_put_inode_def bnd_def kernel_defs discipline_defs
      split: outcome.splits option.splits if_splits)

lemma keeps_put_dblock: "keeps buffer_discipline (yaf_put_dblock E sb ino)"
  by (auto simp: keeps_def yaf_put_dblock_def bnd_def kernel_defs discipline_defs
      split: outcome.splits option.splits if_splits)

lemma sb_ok_sb0 [simp]: "sb_ok sb0"
  by (simp add: sb_ok_def sb0_def)

lemma used_bits_zeros [simp]: "used_bits (zeros b) = {}"
  by (simp add: used_bits_def test_bit_at_def zeros_def)

lemma used_bits_ones [simp]: "used_bits (\<lambda>off. - 1) = {..<BITS_PER_BLOCK}"
  by (auto simp: used_bits_def test_bit_at_def)

lemma block_alloc_disk0: "block_alloc (disk0 1) = Some (2, mark_bit 2 (disk0 1))"
proof -
  have "\<not> bit (3 :: byte) 2" "bit (3 :: byte) 0" "bit (3 :: byte) 1" by simp_all
  then have "first_idx (\<lambda>k. \<not> test_bit_at (disk0 1) k) BITS_PER_BLOCK = Some 2"
    by (auto simp: first_idx_Some test_bit_at_def disk0_def less_2_cases_iff)
  then show ?thesis by (simp add: block_alloc_eq)
qed

lemma alloc_disk0 [simp]: "alloc_result (disk0 1) = 2" "alloc_block (disk0 1) = mark_bit 2 (disk0 1)"
  by (simp_all add: alloc_result_def alloc_block_def block_alloc_disk0)

lemma disk0_not_full: "used_bits (disk0 1) \<noteq> {..<BITS_PER_BLOCK}"
  using bitmap.alloc_Some [OF block_alloc_disk0] by blast

lemma zeros_not_full: "used_bits (zeros b) \<noteq> {..<BITS_PER_BLOCK}"
  unfolding used_bits_zeros layout_consts by (metis empty_iff lessThan_iff zero_less_numeral)

section \<open>Properties\<close>

text \<open>
  C20. Inode allocation. With a readable bitmap block that has an unused index,
  \<open>yaf_get_free_inode\<close> returns the least unused index, marks exactly this index used,
  changes no other block, and keeps the buffer discipline (each reference given back, each
  changed buffer marked dirty while it is held).
\<close>

theorem get_free_inode_correct:
  assumes "sb_ok sb" and "bread_ok E (tick s) (BID_IBP_MIN sb)"
    and "used_bits (disk s (BID_IBP_MIN sb)) \<noteq> {..<BITS_PER_BLOCK}"
  shows "\<exists>ino s'. yaf_get_free_inode E sb s = Run ino s' \<and>
    unat ino < BITS_PER_BLOCK \<and>
    unat ino \<notin> used_bits (disk s (BID_IBP_MIN sb)) \<and>
    {..<unat ino} \<subseteq> used_bits (disk s (BID_IBP_MIN sb)) \<and>
    used_bits (disk s' (BID_IBP_MIN sb)) = insert (unat ino) (used_bits (disk s (BID_IBP_MIN sb))) \<and>
    (\<forall>b. b \<noteq> BID_IBP_MIN sb \<longrightarrow> disk s' b = disk s b) \<and>
    icache s' = icache s \<and> buffer_discipline s s'"
proof -
  obtain k where k: "unat (alloc_result (disk s (BID_IBP_MIN sb))) = k"
      "alloc_block (disk s (BID_IBP_MIN sb)) = mark_bit k (disk s (BID_IBP_MIN sb))"
      "k < BITS_PER_BLOCK" "k \<notin> used_bits (disk s (BID_IBP_MIN sb))"
      "{..<k} \<subseteq> used_bits (disk s (BID_IBP_MIN sb))"
    using alloc_run_cases(1) [OF assms(3)] by blast
  then have "used_bits (mark_bit k (disk s (BID_IBP_MIN sb))) =
      insert k (used_bits (disk s (BID_IBP_MIN sb)))"
    by (auto simp: used_bits_def)
  with k get_free_inode_run [OF assms(1,2)] keepsD [OF keeps_get_free_inode get_free_inode_run [OF assms(1,2)]]
  show ?thesis by simp
qed

theorem get_free_inode_correct_witness:
  "\<exists>ino s'. yaf_get_free_inode env0 sb0 (kst_of zeros) = Run ino s' \<and> unat ino < BITS_PER_BLOCK"
  using get_free_inode_correct [of sb0 env0 "kst_of zeros"] zeros_not_full by fastforce

text \<open>
  Exhaustion of the first inode bitmap block. When its 32768 indices are used, the
  allocator does not go on to the next bitmap block and does not return \<open>RESERVED_INO\<close>: it
  returns the inode number \<open>0xFFFFFFFE\<close>, whatever the other bitmap blocks hold, because the
  error code of \<open>yaf_get_free_bit\<close> is stored in an unsigned variable.
\<close>

theorem get_free_inode_exhausted:
  assumes "sb_ok sb" and "bread_ok E (tick s) (BID_IBP_MIN sb)"
    and "used_bits (disk s (BID_IBP_MIN sb)) = {..<BITS_PER_BLOCK}"
  shows "\<exists>s'. yaf_get_free_inode E sb s = Run 0xFFFFFFFE s' \<and>
    (0xFFFFFFFE :: u32) \<noteq> RESERVED_INO \<and> disk s' = disk s"
  using get_free_inode_run [OF assms(1,2)] alloc_run_cases(2) [OF assms(3)]
  by (simp add: RESERVED_INO_def)

theorem get_free_inode_exhausted_witness:
  "\<exists>s'. yaf_get_free_inode env0 sb0 (kst_of (\<lambda>b off. - 1)) = Run 0xFFFFFFFE s'"
  using get_free_inode_exhausted [of sb0 env0 "kst_of (\<lambda>b off. - 1)"] by auto

text \<open>
  Data block allocation. With a readable bitmap block that has an unused index,
  \<open>yaf_get_free_dblock\<close> returns the least unused one and marks exactly it; the references
  balance and the changed buffer is marked dirty, but the marking comes after the release:
  if no one else held the buffer, it is marked dirty without a reference.
\<close>

theorem get_free_dblock_correct:
  assumes "sb_ok sb" and "bread_ok E (tick s) (BID_DBP_MIN sb)"
    and "used_bits (disk s (BID_DBP_MIN sb)) \<noteq> {..<BITS_PER_BLOCK}"
  shows "\<exists>dno s'. yaf_get_free_dblock E sb s = Run dno s' \<and>
    unat dno < BITS_PER_BLOCK \<and> dno \<noteq> RESERVED_DNO \<and>
    unat dno \<notin> used_bits (disk s (BID_DBP_MIN sb)) \<and>
    {..<unat dno} \<subseteq> used_bits (disk s (BID_DBP_MIN sb)) \<and>
    used_bits (disk s' (BID_DBP_MIN sb)) = insert (unat dno) (used_bits (disk s (BID_DBP_MIN sb))) \<and>
    (\<forall>b. b \<noteq> BID_DBP_MIN sb \<longrightarrow> disk s' b = disk s b) \<and> icache s' = icache s \<and>
    buffers_balanced s s' \<and> changes_marked s s' \<and>
    (BID_DBP_MIN sb \<in> loose s' \<longleftrightarrow> BID_DBP_MIN sb \<in> loose s \<or> refs s (BID_DBP_MIN sb) = 0)"
proof -
  obtain k where k: "unat (alloc_result (disk s (BID_DBP_MIN sb))) = k"
      "alloc_block (disk s (BID_DBP_MIN sb)) = mark_bit k (disk s (BID_DBP_MIN sb))"
      "k < BITS_PER_BLOCK" "k \<notin> used_bits (disk s (BID_DBP_MIN sb))"
      "{..<k} \<subseteq> used_bits (disk s (BID_DBP_MIN sb))"
    using alloc_run_cases(1) [OF assms(3)] by blast
  then have "used_bits (mark_bit k (disk s (BID_DBP_MIN sb))) =
      insert k (used_bits (disk s (BID_DBP_MIN sb)))"
    and "alloc_result (disk s (BID_DBP_MIN sb)) \<noteq> RESERVED_DNO"
    by (auto simp: used_bits_def)
  with k get_free_dblock_run [OF assms(1,2)] show ?thesis
    by (simp add: buffers_balanced_def changes_marked_def subset_insertI)
qed

theorem get_free_dblock_correct_witness:
  "\<exists>dno s'. yaf_get_free_dblock env0 sb0 (kst_of zeros) = Run dno s' \<and> BID_DBP_MIN sb0 \<in> loose s'"
  using get_free_dblock_correct [of sb0 env0 "kst_of zeros"] zeros_not_full by fastforce

text \<open>
  A failed read of the data bitmap is answered with \<open>RESERVED_INO\<close>, that is 0, which is
  not \<open>RESERVED_DNO\<close> and is the number of the first data block: every caller takes the
  failure for a successful allocation of that block, used or not.
\<close>

theorem get_free_dblock_read_error:
  assumes "sb_ok sb" and "\<not> bread_ok E (tick s) (BID_DBP_MIN sb)"
  shows "\<exists>s'. yaf_get_free_dblock E sb s = Run 0 s' \<and> (0 :: u32) \<noteq> RESERVED_DNO \<and>
    DNO2BID sb 0 = BID_D_MIN sb \<and> disk s' = disk s"
  using get_free_dblock_ioerr [OF assms] by (simp add: RESERVED_INO_def RESERVED_DNO_def DNO2BID_def)

theorem get_free_dblock_read_error_witness:
  "\<exists>s'. yaf_get_free_dblock (env0\<lparr>bread_ok := \<lambda>n b. b \<noteq> 2\<rparr>) sb0 (kst_of zeros) = Run 0 s'"
proof -
  have "\<not> bread_ok (env0\<lparr>bread_ok := \<lambda>n b. b \<noteq> 2\<rparr>) (tick (kst_of zeros)) (BID_DBP_MIN sb0)"
    by (simp add: BID_min_eqs sb0_def)
  with get_free_dblock_read_error [of sb0] show ?thesis by fastforce
qed

text \<open>
  Allocation and release are inverse: an inode number just allocated can be put back,
  which restores the content of every block, and putting it back a second time fails the
  assertion and panics.
\<close>

theorem inode_alloc_put_roundtrip:
  assumes "sb_ok sb" and "\<forall>n b. bread_ok E n b"
    and "used_bits (disk s (BID_IBP_MIN sb)) \<noteq> {..<BITS_PER_BLOCK}"
    and "yaf_get_free_inode E sb s = Run ino s'"
  shows "\<exists>s''. yaf_put_inode E sb ino s' = Run () s'' \<and> disk s'' = disk s \<and>
    yaf_put_inode E sb ino s'' = Stop Panic"
proof -
  let ?b = "BID_IBP_MIN sb"
  obtain k where k: "unat (alloc_result (disk s ?b)) = k"
      "alloc_block (disk s ?b) = mark_bit k (disk s ?b)" "k < BITS_PER_BLOCK" "k \<notin> used_bits (disk s ?b)"
    using alloc_run_cases(1) [OF assms(3)] by blast
  have s': "ino = alloc_result (disk s ?b)" "disk s' = (disk s)(?b := mark_bit k (disk s ?b))"
    using assms(4) get_free_inode_run [of sb E s] assms(1,2) k by auto
  have "IDXI2BID sb ino = ?b"
    using k s'(1) by (intro word_unatI) (simp add: yaf_layout)
  moreover have "\<not> test_bit_at (disk s ?b) k"
    using k(3,4) by (simp add: used_bits_def)
  ultimately show ?thesis
    using put_inode_run [of E s' sb ino] put_inode_panic [of E _ sb ino] s' k assms(2) by simp
qed

theorem inode_alloc_put_roundtrip_witness:
  "\<exists>ino s' s''. yaf_get_free_inode env0 sb0 (kst_of zeros) = Run ino s' \<and>
     yaf_put_inode env0 sb0 ino s' = Run () s'' \<and> disk s'' = zeros"
proof -
  obtain ino s' where a: "yaf_get_free_inode env0 sb0 (kst_of zeros) = Run ino s'"
    using get_free_inode_run [of sb0 env0 "kst_of zeros"] by simp
  show ?thesis
    using a inode_alloc_put_roundtrip [OF _ _ _ a] zeros_not_full by fastforce
qed

end
