(* ===== verification/Yaf_Disk.thy ===== *)
theory Yaf_Disk
  imports Yaf_Kernel
begin

text \<open>
  The on-disk records: \<open>Yaf_Inode\<close> and \<open>Yaf_Dentry\<close> of \<open>include/inode.h\<close>, read from and
  written into a buffer at a byte offset. The contract of such a record type is a locale;
  its lemmas give the behaviour of an array of records in a block (the inode table, a
  dentry block), once for all of them.
\<close>

section \<open>Records of a fixed width in a block\<close>

locale slot_store =
  fixes load :: "block \<Rightarrow> nat \<Rightarrow> 'a"
    and store :: "nat \<Rightarrow> 'a \<Rightarrow> block \<Rightarrow> block"
    and width :: nat
    and valid :: "'a \<Rightarrow> bool"
  assumes load_store: "valid x \<Longrightarrow> load (store off x blk) off = x"
    and store_outside: "valid x \<Longrightarrow> j < off \<or> off + width \<le> j \<Longrightarrow> store off x blk j = blk j"
    and load_cong: "(\<And>j. off \<le> j \<Longrightarrow> j < off + width \<Longrightarrow> blk j = blk' j) \<Longrightarrow>
          load blk off = load blk' off"
begin

lemma load_store_apart:
  "valid x \<Longrightarrow> off + width \<le> off' \<or> off' + width \<le> off \<Longrightarrow> load (store off' x blk) off = load blk off"
  by (rule load_cong) (auto intro: store_outside)

text \<open>A block as an array of records: writing one slot changes exactly this slot.\<close>

lemma slot_apart: "i \<noteq> j \<Longrightarrow> width * i + width \<le> width * j \<or> width * j + width \<le> width * i"
  for i j :: nat
proof -
  assume "i \<noteq> j"
  then have "Suc i \<le> j \<or> Suc j \<le> i" by linarith
  then have "width * Suc i \<le> width * j \<or> width * Suc j \<le> width * i"
    using mult_le_mono2 by blast
  then show ?thesis by (simp add: add.commute)
qed

lemma load_slot:
  "valid x \<Longrightarrow> load (store (width * i) x blk) (width * j) = (if i = j then x else load blk (width * j))"
  using load_store load_store_apart slot_apart [of j i] by auto

lemma store_in_block:
  "valid x \<Longrightarrow> i < n \<Longrightarrow> width * n \<le> j \<Longrightarrow> store (width * i) x blk j = blk j"
proof -
  assume x: "valid x" and i: "i < n" and j: "width * n \<le> j"
  have "width * Suc i \<le> width * n" by (rule mult_le_mono2) (use i in simp)
  then have "width * i + width \<le> j" using j by (simp only: mult_Suc_right)
  then show ?thesis using x by (simp add: store_outside)
qed

end

interpretation le32: slot_store le32_load le32_store 4 "\<lambda>_. True"
  by unfold_locales (auto intro: le32_store_outside le32_load_cong)

section \<open>On-disk inodes\<close>

text \<open>
  \<open>Yaf_Inode\<close>, in the order of the declaration: mode, uid, gid and link count, then the
  size, the three times and the eight data block numbers.
\<close>

record Yaf_Inode =
  di_mode :: u32
  di_uid :: u32
  di_gid :: u32
  di_nlink :: u32
  di_size :: u32
  di_atime :: u32
  di_mtime :: u32
  di_ctime :: u32
  di_block :: "u32 list"

definition load_blocks :: "block \<Rightarrow> nat \<Rightarrow> u32 list" where
  "load_blocks blk off = map (\<lambda>i. le32_load blk (off + 4 * i)) [0..<YAF_IBLOCKS]"

fun store_blocks :: "nat \<Rightarrow> u32 list \<Rightarrow> block \<Rightarrow> block" where
  "store_blocks off [] blk = blk"
| "store_blocks off (b # bs) blk = store_blocks (off + 4) bs (le32_store off b blk)"

definition inode_load :: "block \<Rightarrow> nat \<Rightarrow> Yaf_Inode" where
  "inode_load blk off =
     \<lparr>di_mode = le32_load blk off, di_uid = le32_load blk (off + 4),
      di_gid = le32_load blk (off + 8), di_nlink = le32_load blk (off + 12),
      di_size = le32_load blk (off + 16), di_atime = le32_load blk (off + 20),
      di_mtime = le32_load blk (off + 24), di_ctime = le32_load blk (off + 28),
      di_block = load_blocks blk (off + 32)\<rparr>"

text \<open>The stores in the order of \<open>yaf_write_inode\<close>: the size comes after the times.\<close>

definition inode_store :: "nat \<Rightarrow> Yaf_Inode \<Rightarrow> block \<Rightarrow> block" where
  "inode_store off di blk =
     store_blocks (off + 32) (di_block di)
      (le32_store (off + 16) (di_size di)
      (le32_store (off + 28) (di_ctime di)
      (le32_store (off + 24) (di_mtime di)
      (le32_store (off + 20) (di_atime di)
      (le32_store (off + 12) (di_nlink di)
      (le32_store (off + 8) (di_gid di)
      (le32_store (off + 4) (di_uid di)
      (le32_store off (di_mode di) blk))))))))"

definition inode_valid :: "Yaf_Inode \<Rightarrow> bool" where
  "inode_valid di \<longleftrightarrow> length (di_block di) = YAF_IBLOCKS"

lemma store_blocks_outside:
  "j < off \<or> off + 4 * length bs \<le> j \<Longrightarrow> store_blocks off bs blk j = blk j"
  by (induction off bs blk rule: store_blocks.induct) (auto simp: le32_store_outside)

lemma load_store_blocks:
  "i < length bs \<Longrightarrow> le32_load (store_blocks off bs blk) (off + 4 * i) = bs ! i"
proof (induction off bs blk arbitrary: i rule: store_blocks.induct)
  case (2 off b bs blk)
  show ?case
  proof (cases i)
    case 0
    have "le32_load (store_blocks (off + 4) bs (le32_store off b blk)) off = b"
      using le32_load_cong [of off "store_blocks (off + 4) bs (le32_store off b blk)"
          "le32_store off b blk"] by (simp add: store_blocks_outside)
    with 0 show ?thesis by simp
  next
    case (Suc k)
    with "2.IH" [of k] "2.prems" show ?thesis by (simp add: add.assoc)
  qed
qed simp

lemma load_store_blocks_apart:
  "off' + 4 \<le> off \<or> off + 4 * length bs \<le> off' \<Longrightarrow>
     le32_load (store_blocks off bs blk) off' = le32_load blk off'"
  by (rule le32_load_cong) (auto simp: store_blocks_outside)

lemma load_blocks_store [simp]:
  "length bs = YAF_IBLOCKS \<Longrightarrow> load_blocks (store_blocks off bs blk) off = bs"
  unfolding load_blocks_def by (rule nth_equalityI) (simp_all add: load_store_blocks)

interpretation dinode: slot_store inode_load inode_store SIZEOF_YAF_INODE inode_valid
proof unfold_locales
  fix x off j and blk blk' :: block
  show "inode_valid x \<Longrightarrow> inode_load (inode_store off x blk) off = x"
    by (simp add: inode_load_def inode_store_def inode_valid_def load_store_blocks_apart
        del: layout_consts)
  show "inode_valid x \<Longrightarrow> j < off \<or> off + SIZEOF_YAF_INODE \<le> j \<Longrightarrow>
      inode_store off x blk j = blk j"
    by (auto simp: inode_store_def inode_valid_def store_blocks_outside le32_store_outside)
  show "inode_load blk off = inode_load blk' off"
    if "\<And>j. off \<le> j \<Longrightarrow> j < off + SIZEOF_YAF_INODE \<Longrightarrow> blk j = blk' j"
    using that by (simp add: inode_load_def load_blocks_def le32_load_def)
qed

section \<open>Directory entries\<close>

text \<open>
  \<open>Yaf_Dentry\<close>: inode number, length of the name, and the name in a field of 24 bytes,
  NUL-terminated only when it is shorter. The record holds the name as a string. The store
  is the sequence of assignments of \<open>_yaf_create\<close>.
\<close>

record Yaf_Dentry =
  d_ino :: u32
  d_name_len :: u32
  d_name :: name

definition dentry_load :: "block \<Rightarrow> nat \<Rightarrow> Yaf_Dentry" where
  "dentry_load blk off =
     \<lparr>d_ino = le32_load blk off, d_name_len = le32_load blk (off + 4),
      d_name = cname YAF_DENTRY_NAME_LEN (\<lambda>i. blk (off + 8 + i))\<rparr>"

definition dentry_store :: "nat \<Rightarrow> Yaf_Dentry \<Rightarrow> block \<Rightarrow> block" where
  "dentry_store off d blk =
     strncpy_to YAF_DENTRY_NAME_LEN (off + 8) (cstr (d_name d))
      (le32_store (off + 4) (d_name_len d)
      (le32_store off (d_ino d) blk))"

definition valid_name :: "name \<Rightarrow> bool" where
  "valid_name nm \<longleftrightarrow> 0 \<notin> set nm \<and> length nm \<le> YAF_DENTRY_NAME_LEN"

definition dentry_valid :: "Yaf_Dentry \<Rightarrow> bool" where
  "dentry_valid d \<longleftrightarrow> valid_name (d_name d)"

lemma le32_load_strncpy_apart:
  "off' + 4 \<le> off \<or> off + n \<le> off' \<Longrightarrow>
     le32_load (strncpy_to n off src blk) off' = le32_load blk off'"
  by (rule le32_load_cong) (auto simp: strncpy_outside)

interpretation dentry: slot_store dentry_load dentry_store YAF_DENTRY_SIZE dentry_valid
proof unfold_locales
  fix x :: Yaf_Dentry and off j and blk blk' :: block
  show "dentry_valid x \<Longrightarrow> dentry_load (dentry_store off x blk) off = x"
    using cname_strncpy [of "d_name x" 24 "off + 8"]
    by (simp add: dentry_load_def dentry_store_def dentry_valid_def valid_name_def
        le32_load_strncpy_apart)
  show "dentry_valid x \<Longrightarrow> j < off \<or> off + YAF_DENTRY_SIZE \<le> j \<Longrightarrow>
      dentry_store off x blk j = blk j"
    by (auto simp: dentry_store_def strncpy_outside le32_store_outside)
  show "dentry_load blk off = dentry_load blk' off"
    if "\<And>j. off \<le> j \<Longrightarrow> j < off + YAF_DENTRY_SIZE \<Longrightarrow> blk j = blk' j"
  proof -
    have "cname 24 (\<lambda>i. blk (off + 8 + i)) = cname 24 (\<lambda>i. blk' (off + 8 + i))"
      by (rule cname_cong) (simp add: that)
    with that show ?thesis by (simp add: dentry_load_def le32_load_def)
  qed
qed

text \<open>Freeing a slot writes the inode number only.\<close>

lemma dentry_load_clear:
  "dentry_load (le32_store off v blk) off = (dentry_load blk off)\<lparr>d_ino := v\<rparr>"
proof -
  have "cname 24 (\<lambda>i. le32_store off v blk (off + 8 + i)) = cname 24 (\<lambda>i. blk (off + 8 + i))"
    by (rule cname_cong) (simp add: le32_store_outside)
  then show ?thesis by (simp add: dentry_load_def)
qed

lemma dentry_load_clear_apart:
  "off + 32 \<le> off' \<or> off' + 4 \<le> off \<Longrightarrow> dentry_load (le32_store off' v blk) off = dentry_load blk off"
  by (rule dentry.load_cong) (auto simp: le32_store_outside)

section \<open>Properties\<close>

text \<open>
  C25. The inode table and the directory blocks behave as arrays of records. Writing the
  on-disk inode of slot \<open>i\<close> and reading slot \<open>j\<close> of the same block gives the written inode
  for \<open>j = i\<close> and the old content otherwise; the write stays inside of the block; and the
  same holds of directory entries.
\<close>

theorem disk_records_are_arrays:
  assumes "inode_valid di" and "dentry_valid d" and "i < INODES_PER_BLOCK" and "k < DENTRYS_PER_BLOCK"
  shows "inode_load (inode_store (SIZEOF_YAF_INODE * i) di blk) (SIZEOF_YAF_INODE * j) =
      (if i = j then di else inode_load blk (SIZEOF_YAF_INODE * j)) \<and>
    dentry_load (dentry_store (YAF_DENTRY_SIZE * k) d blk) (YAF_DENTRY_SIZE * l) =
      (if k = l then d else dentry_load blk (YAF_DENTRY_SIZE * l)) \<and>
    (\<forall>n\<ge>YAF_BLOCK_SIZE. inode_store (SIZEOF_YAF_INODE * i) di blk n = blk n \<and>
      dentry_store (YAF_DENTRY_SIZE * k) d blk n = blk n)"
proof (intro conjI allI impI)
  fix n assume n: "YAF_BLOCK_SIZE \<le> n"
  show "inode_store (SIZEOF_YAF_INODE * i) di blk n = blk n"
    by (rule dinode.store_in_block [OF assms(1,3)]) (use n in simp)
  show "dentry_store (YAF_DENTRY_SIZE * k) d blk n = blk n"
    by (rule dentry.store_in_block [OF assms(2,4)]) (use n in simp)
qed (rule dinode.load_slot dentry.load_slot, rule assms)+

theorem disk_records_are_arrays_witness:
  "dentry_load (dentry_store 96 \<lparr>d_ino = 7, d_name_len = 1, d_name = [97]\<rparr> (\<lambda>_. 0)) 96 =
     \<lparr>d_ino = 7, d_name_len = 1, d_name = [97]\<rparr>"
  using disk_records_are_arrays [of "\<lparr>di_mode = 0, di_uid = 0, di_gid = 0, di_nlink = 0, di_size = 0,
       di_atime = 0, di_mtime = 0, di_ctime = 0, di_block = replicate 8 0\<rparr>"
     "\<lparr>d_ino = 7, d_name_len = 1, d_name = [97]\<rparr>" 0 3 "\<lambda>_. 0" 0 3]
  by (simp add: inode_valid_def dentry_valid_def valid_name_def)

text \<open>
  Byte offsets of the on-disk inode. The size is stored at byte 16 and the access,
  modification and change times at bytes 20, 24 and 28, as the declaration of \<open>Yaf_Inode\<close>
  orders them and not as the drawings above it (and in the README) show, which put the
  times first and the size at byte 28.
\<close>

theorem inode_field_offsets:
  assumes "inode_valid di"
  shows "le32_load (inode_store off di blk) (off + 16) = di_size di \<and>
    le32_load (inode_store off di blk) (off + 20) = di_atime di \<and>
    le32_load (inode_store off di blk) (off + 24) = di_mtime di \<and>
    le32_load (inode_store off di blk) (off + 28) = di_ctime di \<and>
    (\<forall>i<YAF_IBLOCKS. le32_load (inode_store off di blk) (off + 32 + 4 * i) = di_block di ! i)"
  using assms by (simp add: inode_store_def inode_valid_def load_store_blocks
      load_store_blocks_apart)

theorem inode_field_offsets_witness:
  "le32_load (inode_store 0 \<lparr>di_mode = 0, di_uid = 0, di_gid = 0, di_nlink = 0, di_size = 5,
       di_atime = 0, di_mtime = 0, di_ctime = 0, di_block = replicate 8 0\<rparr> (\<lambda>_. 0)) 16 = 5"
  using inode_field_offsets [of "\<lparr>di_mode = 0, di_uid = 0, di_gid = 0, di_nlink = 0, di_size = 5,
       di_atime = 0, di_mtime = 0, di_ctime = 0, di_block = replicate 8 0\<rparr>" 0 "\<lambda>_. 0"]
  by (simp add: inode_valid_def)

end
