(* ===== verification/Yaf_Inode.thy ===== *)
theory Yaf_Inode
  imports Yaf_Bitmap Yaf_Disk
begin

text \<open>
  In-memory inodes: \<open>yaf_iget\<close> and \<open>yaf_new_inode\<close> of \<open>driver/inode.c\<close>, and
  \<open>yaf_write_inode\<close> of \<open>driver/super.c\<close>, which loads, creates and writes back an inode. A
  pointer result that may be \<open>ERR_PTR(e)\<close> is a sum, \<open>Inl e\<close> for the error.
\<close>

section \<open>Operations\<close>

definition set_fops :: "Yaf_Inode_Info \<Rightarrow> Yaf_Inode_Info" where
  "set_fops v =
     (if S_ISDIR (i_mode v) then v\<lparr>i_fop := Dir_Ops\<rparr>
      else if S_ISREG (i_mode v) then v\<lparr>i_fop := File_Ops, a_ops := True\<rparr>
      else v)"

definition fill_inode :: "Yaf_Inode \<Rightarrow> Yaf_Inode_Info \<Rightarrow> Yaf_Inode_Info" where
  "fill_inode yi v = set_fops
     (v\<lparr>i_op := True, i_mode := ucast (di_mode yi), i_uid := di_uid yi, i_gid := di_gid yi,
        i_nlink := di_nlink yi, i_size := unat (di_size yi), i_atime := ucast (di_atime yi),
        i_mtime := ucast (di_mtime yi), i_ctime := ucast (di_ctime yi),
        i_block := di_block yi\<rparr>)"

definition yaf_iget :: "env \<Rightarrow> Yaf_Sb_Info \<Rightarrow> u64 \<Rightarrow> (int + u64) kc" where
  "yaf_iget E sb ino =
     (if ucast (nr_i sb) * of_nat INODES_PER_BLOCK \<le> ino then ret (Inl (- EINVAL))
      else
        bnd (iget_locked E ino) (\<lambda>inode.
        case inode of
          None \<Rightarrow> ret (Inl (- ENOMEM))
        | Some inode \<Rightarrow>
            bnd (sb_bread E (INO2BID sb ino)) (\<lambda>bh.
            case bh of
              None \<Rightarrow> ret (Inl (- EIO))
            | Some bh \<Rightarrow>
                bnd (b_data bh) (\<lambda>blk.
                bnd (upd_inode inode
                       (fill_inode (inode_load blk (unat ino mod INODES_PER_BLOCK * SIZEOF_YAF_INODE))))
                  (\<lambda>_.
                bnd (unlock_new_inode inode) (\<lambda>_.
                bnd (brelse bh) (\<lambda>_.
                ret (Inr inode))))))))"

definition to_disk :: "Yaf_Inode_Info \<Rightarrow> Yaf_Inode" where
  "to_disk v =
     \<lparr>di_mode = ucast (i_mode v), di_uid = i_uid v, di_gid = i_gid v, di_nlink = i_nlink v,
      di_size = of_nat (i_size v), di_atime = ucast (i_atime v), di_mtime = ucast (i_mtime v),
      di_ctime = ucast (i_ctime v), di_block = i_block v\<rparr>"

definition yaf_write_inode :: "env \<Rightarrow> Yaf_Sb_Info \<Rightarrow> u64 \<Rightarrow> int kc" where
  "yaf_write_inode E sb ino =
     bnd (sb_bread E (INO2BID sb ino)) (\<lambda>bh.
     case bh of
       None \<Rightarrow> ret (- EIO)
     | Some bh \<Rightarrow>
         bnd (get_inode ino) (\<lambda>v.
         bnd (b_data bh) (\<lambda>blk.
         bnd (set_b_data bh (inode_store (INO2BOFF ino) (to_disk v) blk)) (\<lambda>_.
         bnd (mark_buffer_dirty bh) (\<lambda>_.
         bnd (brelse bh) (\<lambda>_.
         ret 0))))))"

definition init_new_inode ::
  "env \<Rightarrow> Yaf_Inode_Info \<Rightarrow> u16 \<Rightarrow> u64 \<Rightarrow> Yaf_Inode_Info \<Rightarrow> Yaf_Inode_Info" where
  "init_new_inode E dir mode cur v = set_fops
     (case init_owner E dir mode of (m, uid, gid) \<Rightarrow>
        set_times cur (set_nlink 1 (v\<lparr>i_mode := m, i_uid := uid, i_gid := gid\<rparr>))
        \<lparr>i_size := 0, i_block := replicate YAF_IBLOCKS RESERVED_DNO\<rparr>)"

definition yaf_new_inode :: "env \<Rightarrow> Yaf_Sb_Info \<Rightarrow> u64 \<Rightarrow> u16 \<Rightarrow> (int + u64) kc" where
  "yaf_new_inode E sb dir mode =
     bnd (yaf_get_free_inode E sb) (\<lambda>ino.
     if ino = RESERVED_INO then ret (Inl (- ENOSPC))
     else
       bnd (yaf_iget E sb (ucast ino)) (\<lambda>r.
       case r of
         Inl e \<Rightarrow> bnd (yaf_put_inode E sb ino) (\<lambda>_. ret (Inl e))
       | Inr inode \<Rightarrow>
           bnd (get_inode dir) (\<lambda>d.
           bnd (current_time E) (\<lambda>cur.
           bnd (upd_inode inode (init_new_inode E d mode cur)) (\<lambda>_.
           bnd (mark_inode_dirty inode) (\<lambda>_.
           ret (Inr inode)))))))"

section \<open>Running the operations\<close>

lemma set_fops_simps [simp]:
  "i_mode (set_fops v) = i_mode v" "i_uid (set_fops v) = i_uid v" "i_gid (set_fops v) = i_gid v"
  "i_nlink (set_fops v) = i_nlink v" "i_size (set_fops v) = i_size v"
  "i_atime (set_fops v) = i_atime v" "i_mtime (set_fops v) = i_mtime v"
  "i_ctime (set_fops v) = i_ctime v" "i_block (set_fops v) = i_block v"
  by (simp_all add: set_fops_def)

lemma fill_inode_simps [simp]:
  "i_mode (fill_inode yi v) = ucast (di_mode yi)" "i_nlink (fill_inode yi v) = di_nlink yi"
  "i_size (fill_inode yi v) = unat (di_size yi)" "i_block (fill_inode yi v) = di_block yi"
  by (simp_all add: fill_inode_def)

lemma init_new_inode_simps [simp]:
  "i_size (init_new_inode E d m cur v) = 0"
  "i_block (init_new_inode E d m cur v) = replicate YAF_IBLOCKS RESERVED_DNO"
  "i_nlink (init_new_inode E d m cur v) = 1"
  "i_mode (init_new_inode E d m cur v) = fst (init_owner E d m)"
  by (simp_all add: init_new_inode_def set_times_def set_nlink_def split: prod.splits)

text \<open>The on-disk inode of a number.\<close>

definition dinode_at :: "Yaf_Sb_Info \<Rightarrow> kst \<Rightarrow> u64 \<Rightarrow> Yaf_Inode" where
  "dinode_at sb s ino = inode_load (disk s (INO2BID sb ino)) (INO2BOFF ino)"

definition ino_ok :: "Yaf_Sb_Info \<Rightarrow> u64 \<Rightarrow> bool" where
  "ino_ok sb ino \<longleftrightarrow> unat ino < unat (nr_i sb) * INODES_PER_BLOCK"

lemma inode_bound:
  "ucast (nr_i sb) * of_nat INODES_PER_BLOCK \<le> (ino :: u64) \<longleftrightarrow> \<not> ino_ok sb ino"
proof -
  have "unat (ucast (nr_i sb) * 64 :: u64) = unat (nr_i sb) * 64"
    using unat_u32_le [of "nr_i sb"] by (simp add: unat_word_ariths)
  then show ?thesis by (simp add: ino_ok_def word_le_nat_alt not_less)
qed

lemma iget_run:
  assumes "ino_ok sb ino" and "ino \<notin> inew s" and "bread_ok E (tick s) (INO2BID sb ino)"
    and "icache s ino = Some v"
  shows "yaf_iget E sb ino s = Run (Inr ino)
    (s\<lparr>icache := (icache s)(ino := Some (fill_inode (dinode_at sb s ino) v)), tick := tick s + 1\<rparr>)"
  using assms by (simp add: yaf_iget_def inode_bound yaf_exec iget_locked_def dinode_at_def
      INO2BOFF_def del: layout_consts)

lemma iget_fresh_run:
  assumes "ino_ok sb ino" and "ino \<notin> inew s" and "icache s ino = None"
    and "iget_ok E (tick s) ino" and "bread_ok E (tick s + 1) (INO2BID sb ino)"
  shows "yaf_iget E sb ino s = Run (Inr ino)
    (s\<lparr>icache := (icache s)(ino := Some (fill_inode (dinode_at sb s ino) (slab_inode E (tick s)))),
       tick := tick s + 2\<rparr>)"
  using assms by (simp add: yaf_iget_def inode_bound yaf_exec iget_locked_def dinode_at_def
      INO2BOFF_def del: layout_consts)

lemma iget_range: "\<not> ino_ok sb ino \<Longrightarrow> yaf_iget E sb ino s = Run (Inl (- EINVAL)) s"
  by (simp add: yaf_iget_def inode_bound del: layout_consts)

lemma write_inode_run:
  assumes "bread_ok E (tick s) (INO2BID sb ino)" and "icache s ino = Some v"
  shows "yaf_write_inode E sb ino s = Run 0
    (s\<lparr>disk := (disk s)(INO2BID sb ino :=
                 inode_store (INO2BOFF ino) (to_disk v) (disk s (INO2BID sb ino))),
       bdirty := insert (INO2BID sb ino) (bdirty s), tick := tick s + 1\<rparr>)"
  using assms by (simp add: yaf_write_inode_def yaf_exec)

lemma keeps_iget: "keeps buffer_discipline (yaf_iget E sb ino)"
  by (auto simp: keeps_def yaf_iget_def bnd_def kernel_defs iget_locked_def upd_inode_def
      discipline_defs split: outcome.splits option.splits if_splits)

lemma keeps_write_inode: "keeps buffer_discipline (yaf_write_inode E sb ino)"
  by (auto simp: keeps_def yaf_write_inode_def bnd_def kernel_defs get_inode_def
      discipline_defs split: outcome.splits option.splits if_splits)

lemma keeps_new_inode: "keeps buffer_discipline (yaf_new_inode E sb dir mode)"
  unfolding yaf_new_inode_def
  by (intro keeps_bnd discipline_trans keeps_get_free_inode)
    (auto intro!: keeps_bnd keeps_ret keeps_iget keeps_put_inode split: sum.split)

lemma ucast_u16_u32 [simp]: "ucast (ucast (x :: u16) :: u32) = x"
  by (rule bit_word_eqI) (auto simp: bit_simps)

lemma to_disk_simps [simp]:
  "di_mode (to_disk v) = ucast (i_mode v)" "di_uid (to_disk v) = i_uid v"
  "di_gid (to_disk v) = i_gid v" "di_nlink (to_disk v) = i_nlink v"
  "di_size (to_disk v) = of_nat (i_size v)" "di_atime (to_disk v) = ucast (i_atime v)"
  "di_mtime (to_disk v) = ucast (i_mtime v)" "di_ctime (to_disk v) = ucast (i_ctime v)"
  "di_block (to_disk v) = i_block v" "inode_valid (to_disk v) \<longleftrightarrow> length (i_block v) = YAF_IBLOCKS"
  by (simp_all add: to_disk_def inode_valid_def)

lemma INO2BOFF_slot: "INO2BOFF ino = SIZEOF_YAF_INODE * (unat ino mod INODES_PER_BLOCK)"
  by (simp add: INO2BOFF_def)

lemma INO2_inj:
  "INO2BID sb ino = INO2BID sb ino' \<Longrightarrow> unat ino mod 64 = unat ino' mod 64 \<Longrightarrow> ino = ino'"
proof (rule word_unatI)
  assume "INO2BID sb ino = INO2BID sb ino'" and m: "unat ino mod 64 = unat ino' mod 64"
  then have "unat ino div 64 = unat ino' div 64"
    using unat_INO2BID [of sb ino] unat_INO2BID [of sb ino'] by simp
  with m show "unat ino = unat ino'" by (metis mult_div_mod_eq)
qed

text \<open>Writing one inode back changes no other on-disk inode.\<close>

lemma dinode_at_write:
  assumes "length (i_block v) = YAF_IBLOCKS"
    and "disk s' = (disk s)(INO2BID sb ino :=
           inode_store (INO2BOFF ino) (to_disk v) (disk s (INO2BID sb ino)))"
  shows "dinode_at sb s' ino' = (if ino' = ino then to_disk v else dinode_at sb s ino')"
proof (cases "INO2BID sb ino' = INO2BID sb ino")
  case True
  have "ino' = ino \<longleftrightarrow> unat ino mod 64 = unat ino' mod 64"
    using INO2_inj [OF True] by auto
  then show ?thesis
    using dinode.load_slot [of "to_disk v"] assms True by (simp add: dinode_at_def INO2BOFF_slot)
next
  case False
  then show ?thesis using assms by (auto simp: dinode_at_def)
qed

lemma ucast_time: "unat (t :: u64) < 2 ^ 32 \<Longrightarrow> ucast (ucast t :: u32) = t"
  by (rule word_unatI) (simp add: unsigned_ucast_eq unsigned_take_bit_eq take_bit_nat_eq_self)

text \<open>An inode whose size and times fit in the 32-bit fields of the disk.\<close>

definition inode_fits :: "Yaf_Inode_Info \<Rightarrow> bool" where
  "inode_fits v \<longleftrightarrow> i_size v < 2 ^ 32 \<and> unat (i_atime v) < 2 ^ 32 \<and> unat (i_mtime v) < 2 ^ 32 \<and>
     unat (i_ctime v) < 2 ^ 32 \<and> length (i_block v) = YAF_IBLOCKS"

text \<open>The attributes that survive on disk, and the operations the mode calls for.\<close>

definition same_persistent :: "Yaf_Inode_Info \<Rightarrow> Yaf_Inode_Info \<Rightarrow> bool" where
  "same_persistent v w \<longleftrightarrow> i_mode w = i_mode v \<and> i_uid w = i_uid v \<and> i_gid w = i_gid v \<and>
     i_nlink w = i_nlink v \<and> i_size w = i_size v \<and> i_atime w = i_atime v \<and>
     i_mtime w = i_mtime v \<and> i_ctime w = i_ctime v \<and> i_block w = i_block v \<and>
     i_op w \<and> (S_ISDIR (i_mode v) \<longrightarrow> i_fop w = Dir_Ops) \<and> (S_ISREG (i_mode v) \<longrightarrow> i_fop w = File_Ops \<and> a_ops w)"

lemma ISREG_not_ISDIR: "S_ISREG m \<Longrightarrow> \<not> S_ISDIR m"
  by (simp add: S_ISREG_def S_ISDIR_def S_IFREG_def S_IFDIR_def)

lemma fill_to_disk:
  assumes "inode_fits v"
  shows "same_persistent v (fill_inode (to_disk v) w)"
  using assms unfolding same_persistent_def inode_fits_def
  by (simp add: fill_inode_def ucast_time unat_of_nat_u32) (simp add: set_fops_def ISREG_not_ISDIR)

lemma new_inode_run:
  assumes sb: "sb_ok sb" and ok: "\<forall>n. bread_ok E n (BID_IBP_MIN sb)"
      "\<forall>n. bread_ok E n (INO2BID sb (of_nat k))" "\<forall>n. iget_ok E n (of_nat k)"
    and free: "used_bits (disk s (BID_IBP_MIN sb)) \<noteq> {..<BITS_PER_BLOCK}"
    and k: "unat (alloc_result (disk s (BID_IBP_MIN sb))) = k" "0 < k" "ino_ok sb (of_nat k)"
    and idle: "of_nat k \<notin> inew s" "icache s (of_nat k) = None" and d: "icache s dir = Some d"
  shows "\<exists>t w. yaf_new_inode E sb dir mode s = Run (Inr (of_nat k))
    (s\<lparr>disk := (disk s)(BID_IBP_MIN sb := mark_bit k (disk s (BID_IBP_MIN sb))),
       bdirty := insert (BID_IBP_MIN sb) (bdirty s),
       icache := (icache s)(of_nat k := Some (init_new_inode E d mode (now E t) w)),
       idirty := insert (of_nat k) (idirty s), tick := t\<rparr>)"
proof -
  obtain k' where a: "alloc_result (disk s (BID_IBP_MIN sb)) = of_nat k'" "k' = k"
      "alloc_block (disk s (BID_IBP_MIN sb)) = mark_bit k (disk s (BID_IBP_MIN sb))" "k < BITS_PER_BLOCK"
    using alloc_run_cases(1) [OF free] k(1) by auto
  have u: "ucast (of_nat k :: u32) = (of_nat k :: u64)"
    using a(4) by (intro word_unatI) (simp add: unat_of_nat unat_of_nat_u32)
  let ?s1 = "s\<lparr>disk := (disk s)(BID_IBP_MIN sb := mark_bit k (disk s (BID_IBP_MIN sb))),
       bdirty := insert (BID_IBP_MIN sb) (bdirty s), tick := tick s + 1\<rparr>"
  have "(of_nat k :: u32) \<noteq> RESERVED_INO"
    using k(1,2) a(1,2) by (auto simp: RESERVED_INO_def)
  moreover have "dir \<noteq> of_nat k" using idle(2) d by auto
  ultimately show ?thesis
    using a k(3) idle d sb ok u
    by (intro exI [of _ "Suc (Suc (Suc (tick s)))"]
          exI [of _ "fill_inode (dinode_at sb ?s1 (of_nat k)) (slab_inode E (tick s + 1))"])
      (simp add: yaf_new_inode_def bnd_run get_free_inode_run iget_fresh_run inode_run kernel_run
        del: layout_consts)
qed

section \<open>Properties\<close>

text \<open>
  C19. Write-back and load are inverse. When an inode whose size and times fit in 32 bits is
  written back, dropped from memory and loaded again, the loaded inode has the same mode,
  owner, link count, size, times and block list, with the operations its mode calls for.
\<close>

theorem write_inode_iget_roundtrip:
  assumes "ino_ok sb ino" and "\<forall>n b. bread_ok E n b" and "\<forall>n i. iget_ok E n i"
    and "icache s ino = Some v" and "ino \<notin> inew s" and "inode_fits v"
  shows "\<exists>s' s'' w. yaf_write_inode E sb ino s = Run 0 s' \<and>
    yaf_iget E sb ino (s'\<lparr>icache := (icache s')(ino := None)\<rparr>) = Run (Inr ino) s'' \<and>
    icache s'' ino = Some w \<and> same_persistent v w"
proof -
  obtain s' where s': "yaf_write_inode E sb ino s = Run 0 s'" "inew s' = inew s"
      "disk s' = (disk s)(INO2BID sb ino :=
         inode_store (INO2BOFF ino) (to_disk v) (disk s (INO2BID sb ino)))"
    using write_inode_run [of E s sb ino v] assms(2,4) by simp
  let ?e = "s'\<lparr>icache := (icache s')(ino := None)\<rparr>"
  have "dinode_at sb ?e ino = to_disk v"
    using dinode_at_write [of v ?e s sb ino ino] assms(6) s'(3) by (simp add: inode_fits_def)
  then show ?thesis
    using s' iget_fresh_run [of sb ino ?e E] assms fill_to_disk [OF assms(6)] by simp
qed

theorem write_inode_iget_roundtrip_witness:
  "\<exists>s' s'' w. yaf_write_inode env0 sb0 1 kst0 = Run 0 s' \<and>
     yaf_iget env0 sb0 1 (s'\<lparr>icache := (icache s')(1 := None)\<rparr>) = Run (Inr 1) s'' \<and>
     icache s'' 1 = Some w \<and> same_persistent root0 w"
  by (rule write_inode_iget_roundtrip)
    (simp_all add: ino_ok_def sb0_def inode_fits_def root0_def)

text \<open>
  Isolation of write-back. Writing an inode back stores it on disk and leaves every other
  on-disk inode, every block outside of the inode section and every in-memory inode as it
  was, and keeps the buffer discipline.
\<close>

theorem write_inode_isolated:
  assumes "ino_ok sb ino" and "bread_ok E (tick s) (INO2BID sb ino)"
    and "icache s ino = Some v" and "length (i_block v) = YAF_IBLOCKS"
  shows "\<exists>s'. yaf_write_inode E sb ino s = Run 0 s' \<and> dinode_at sb s' ino = to_disk v \<and>
    (\<forall>ino'. ino' \<noteq> ino \<longrightarrow> dinode_at sb s' ino' = dinode_at sb s ino') \<and>
    (\<forall>b. \<not> sect_i sb b \<longrightarrow> disk s' b = disk s b) \<and> icache s' = icache s \<and> buffer_discipline s s'"
proof -
  obtain s' where s': "yaf_write_inode E sb ino s = Run 0 s'" "icache s' = icache s"
      "disk s' = (disk s)(INO2BID sb ino :=
         inode_store (INO2BOFF ino) (to_disk v) (disk s (INO2BID sb ino)))"
    using write_inode_run [OF assms(2,3)] by simp
  have "unat ino div 64 < unat (nr_i sb)"
    using assms(1) by (simp add: ino_ok_def less_mult_imp_div_less)
  then have "sect_i sb (INO2BID sb ino)"
    by (simp add: yaf_layout)
  then show ?thesis
    using s' dinode_at_write [OF assms(4) s'(3)] keepsD [OF keeps_write_inode s'(1)] by auto
qed

theorem write_inode_isolated_witness:
  "\<exists>s'. yaf_write_inode env0 sb0 1 kst0 = Run 0 s' \<and> dinode_at sb0 s' 1 = to_disk root0 \<and>
     dinode_at sb0 s' 2 = dinode_at sb0 kst0 2"
proof -
  have "ino_ok sb0 1" by (simp add: ino_ok_def sb0_def)
  from write_inode_isolated [OF this, of env0 kst0 root0] show ?thesis by auto
qed

text \<open>
  C18. Creating an inode. When \<open>k\<close> is the least inode number the first block of the inode bitmap has
  not marked as used, and is neither the reserved one nor beyond the inode table nor in
  memory, \<open>yaf_new_inode\<close> returns \<open>k\<close> and marks it used,
  and leaves in memory a dirty inode of the requested mode with one link, size 0 and no data
  block; no block but the inode bitmap changes.
\<close>

theorem new_inode_correct:
  assumes "sb_ok sb" and "\<forall>n b. bread_ok E n b" and "\<forall>n i. iget_ok E n i"
    and "k < BITS_PER_BLOCK" and "k \<notin> used_bits (disk s (BID_IBP_MIN sb))"
    and "{..<k} \<subseteq> used_bits (disk s (BID_IBP_MIN sb))" and "0 < k" and "ino_ok sb (of_nat k)"
    and "of_nat k \<notin> inew s" and "icache s (of_nat k) = None" and "icache s dir = Some d"
    and "fst (init_owner E d mode) = mode"
  shows "\<exists>s' v. yaf_new_inode E sb dir mode s = Run (Inr (of_nat k)) s' \<and>
    used_bits (disk s' (BID_IBP_MIN sb)) = insert k (used_bits (disk s (BID_IBP_MIN sb))) \<and>
    (\<forall>b. b \<noteq> BID_IBP_MIN sb \<longrightarrow> disk s' b = disk s b) \<and>
    icache s' = (icache s)(of_nat k := Some v) \<and> of_nat k \<in> idirty s' \<and>
    i_mode v = mode \<and> i_nlink v = 1 \<and> i_size v = 0 \<and>
    i_block v = replicate YAF_IBLOCKS RESERVED_DNO \<and> buffer_discipline s s'"
proof -
  note least = least_result [OF assms(4-6)]
  obtain t w s' where s': "yaf_new_inode E sb dir mode s = Run (Inr (of_nat k)) s'"
    and eq: "s' = s\<lparr>disk := (disk s)(BID_IBP_MIN sb := mark_bit k (disk s (BID_IBP_MIN sb))),
       bdirty := insert (BID_IBP_MIN sb) (bdirty s),
       icache := (icache s)(of_nat k := Some (init_new_inode E d mode (now E t) w)),
       idirty := insert (of_nat k) (idirty s), tick := t\<rparr>"
    using new_inode_run [of sb E k s dir d mode] least assms by blast
  show ?thesis
    using s' eq keepsD [OF keeps_new_inode s'] assms(4,12)
    by (auto simp: used_bits_def simp del: layout_consts)
qed

theorem new_inode_correct_witness:
  "\<exists>s' v. yaf_new_inode env0 sb0 1 S_IFREG kst0 = Run (Inr (of_nat 2)) s' \<and>
     icache s' 2 = Some v \<and> i_nlink v = 1"
proof -
  have "ino_ok sb0 (of_nat 2)" "BID_IBP_MIN sb0 = 1"
    by (simp_all add: ino_ok_def sb0_def BID_min_eqs)
  moreover have "2 \<notin> used_bits (disk0 1)" "{..<2} \<subseteq> used_bits (disk0 1)"
    by (auto simp: used_bits_def test_bit_at_def disk0_def less_2_cases_iff)
  ultimately show ?thesis
    using new_inode_correct [of sb0 env0 2 kst0 1 root0 S_IFREG] by fastforce
qed

text \<open>
  C22. Running out of inode bitmap. When the first inode bitmap block is full and the inode
  table does not reach inode \<open>0xFFFFFFFE\<close>, creating an inode does not report \<open>-ENOSPC\<close>: it
  releases "inode" \<open>0xFFFFFFFE\<close> at bit 32766 of block 131072 and returns \<open>-EINVAL\<close>, or
  panics when that bit is clear or the block unreadable. For a device whose inode bitmap has
  fewer than 131072 blocks that block is not part of the inode bitmap.
\<close>

theorem new_inode_exhausted:
  assumes "sb_ok sb" and "bread_ok E (tick s) (BID_IBP_MIN sb)"
    and "used_bits (disk s (BID_IBP_MIN sb)) = {..<BITS_PER_BLOCK}"
    and "unat (nr_i sb) * INODES_PER_BLOCK \<le> 0xFFFFFFFE" and "nr_ibp sb < 131072"
  shows "\<not> sect_ibp sb 131072 \<and>
    (if bread_ok E (tick s + 1) 131072 \<and> test_bit_at (disk s 131072) 32766
     then \<exists>s'. yaf_new_inode E sb dir mode s = Run (Inl (- EINVAL)) s' \<and>
            disk s' = (disk s)(131072 := clear_bit 32766 (disk s 131072))
     else yaf_new_inode E sb dir mode s = Stop Panic)"
proof -
  have bid: "IDXI2BID sb 0xFFFFFFFE = 131072"
    by (rule word_unatI) (simp add: yaf_layout)
  have range: "\<not> ino_ok sb 0xFFFFFFFE"
    using assms(4) by (simp add: ino_ok_def)
  have full: "alloc_result (disk s (BID_IBP_MIN sb)) = 0xFFFFFFFE"
      "alloc_block (disk s (BID_IBP_MIN sb)) = disk s (BID_IBP_MIN sb)"
    using alloc_run_cases(2) [OF assms(3)] by auto
  note run = yaf_new_inode_def bnd_run get_free_inode_run [OF assms(1,2)] full iget_range [OF range]
    RESERVED_INO_def
  show ?thesis
  proof (cases "bread_ok E (tick s + 1) 131072 \<and> test_bit_at (disk s 131072) 32766")
    case True
    then show ?thesis
      using assms(5) put_inode_run [of E _ sb "0xFFFFFFFE"]
      by (simp add: run bid yaf_layout word_less_nat_alt)
  next
    case False
    then show ?thesis
      using assms(5) put_inode_panic [of E _ sb "0xFFFFFFFE"]
      by (auto simp: run bid yaf_layout word_less_nat_alt)
  qed
qed

theorem new_inode_exhausted_witness:
  "\<exists>s'. yaf_new_inode env0 sb0 1 S_IFREG (kst_of (\<lambda>b off. - 1)) = Run (Inl (- EINVAL)) s' \<and>
     disk s' = (\<lambda>b off. - 1)(131072 := clear_bit 32766 (\<lambda>off. - 1))"
  using new_inode_exhausted [of sb0 env0 "kst_of (\<lambda>b off. - 1)" 1 S_IFREG]
  by (simp add: sb0_def test_bit_at_def sb_ok_def)

text \<open>
  A failed read in \<open>yaf_iget\<close> leaves the new inode locked: it returns \<open>-EIO\<close> with the
  inode still in the state \<open>iget_locked\<close> gave it, and every later \<open>yaf_iget\<close> of the same
  number waits for it for ever.
\<close>

theorem iget_error_leaves_inode_locked:
  assumes "ino_ok sb ino" and "ino \<notin> inew s" and "icache s ino = None"
    and "iget_ok E (tick s) ino" and "\<not> bread_ok E (tick s + 1) (INO2BID sb ino)"
  shows "\<exists>s'. yaf_iget E sb ino s = Run (Inl (- EIO)) s' \<and> ino \<in> inew s' \<and>
    (\<forall>E' s''. ino \<in> inew s'' \<longrightarrow> yaf_iget E' sb ino s'' = Stop Hang)"
  using assms by (simp add: yaf_iget_def inode_bound yaf_exec iget_locked_def del: layout_consts)

theorem iget_error_leaves_inode_locked_witness:
  "\<exists>s'. yaf_iget (env0\<lparr>bread_ok := \<lambda>n b. b \<noteq> 3\<rparr>) sb0 5 kst0 = Run (Inl (- EIO)) s' \<and>
     yaf_iget env0 sb0 5 s' = Stop Hang"
proof -
  have "ino_ok sb0 5" "INO2BID sb0 5 = 3"
    by (simp_all add: ino_ok_def sb0_def word_unatI unat_INO2BID)
  with iget_error_leaves_inode_locked [of sb0 5 kst0 "env0\<lparr>bread_ok := \<lambda>n b. b \<noteq> 3\<rparr>"]
  show ?thesis by (auto simp: env0_def)
qed

text \<open>
  C26. \<open>yaf_iget\<close> of an inode that is in memory reads the disk over it: the persistent fields
  of the cached inode become those of the on-disk inode, also when the cached one is dirty,
  so that changes not yet written back (here to size, link count and block list) are lost.
\<close>

theorem iget_overwrites_cached:
  assumes "ino_ok sb ino" and "ino \<notin> inew s" and "icache s ino = Some v" and "ino \<in> idirty s"
    and "bread_ok E (tick s) (INO2BID sb ino)"
  shows "\<exists>s' v'. yaf_iget E sb ino s = Run (Inr ino) s' \<and> icache s' ino = Some v' \<and>
    ino \<in> idirty s' \<and> i_size v' = unat (di_size (dinode_at sb s ino)) \<and>
    i_nlink v' = di_nlink (dinode_at sb s ino) \<and> i_block v' = di_block (dinode_at sb s ino)"
  using iget_run [OF assms(1,2,5,3)] assms(4) by simp

theorem iget_overwrites_cached_witness:
  "\<exists>s' v'. yaf_iget env0 sb0 1 (kst0\<lparr>idirty := {1}\<rparr>) = Run (Inr 1) s' \<and>
     icache s' 1 = Some v' \<and> i_nlink v' = 0 \<and> i_nlink root0 = 1"
proof -
  have a: "ino_ok sb0 1" "INO2BID sb0 1 = 3"
    by (simp_all add: ino_ok_def sb0_def word_unatI unat_INO2BID)
  then have "di_nlink (dinode_at sb0 (kst0\<lparr>idirty := {1}\<rparr>) 1) = 0"
    by (simp add: dinode_at_def inode_load_def le32_load_def disk0_def)
  with iget_overwrites_cached [of sb0 1 "kst0\<lparr>idirty := {1}\<rparr>" root0 env0] a(1) show ?thesis by auto
qed

end
