(* ===== verification/Yaf_Dir.thy ===== *)
theory Yaf_Dir
  imports Yaf_Inode
begin

text \<open>
  Directories: the scans over directory blocks, \<open>yaf_get_free_dentry\<close>, \<open>_yaf_create\<close> with
  \<open>yaf_mkdir\<close> and \<open>yaf_create\<close>, \<open>_yaf_lookup\<close> and \<open>yaf_lookup\<close>, and \<open>yaf_delete\<close> with
  \<open>yaf_rmdir\<close> and \<open>yaf_unlink\<close>, all of \<open>driver/inode.c\<close>. The functions whose name starts with
  an underscore in the code start with \<open>do_\<close> here. A \<open>struct inode *\<close> is the number of an
  inode in memory, a \<open>struct dentry *\<close> the pair of its parent and its name.
\<close>

section \<open>Scans over the blocks of a directory\<close>

datatype search = Found nat | Missing nat | Failed int

text \<open>
  The inner loop over the entries of one block, from entry \<open>i\<close>, at directory offset
  \<open>doff\<close>: \<open>Inl\<close> the offset at which \<open>P\<close> holds, or \<open>Inr\<close> the offset where the loop ends.
\<close>

function dentry_scan :: "(block \<Rightarrow> nat \<Rightarrow> bool) \<Rightarrow> block \<Rightarrow> nat \<Rightarrow> nat \<Rightarrow> nat \<Rightarrow> nat + nat" where
  "dentry_scan P blk i doff sz =
     (if i < DENTRYS_PER_BLOCK \<and> doff < sz then
        if P blk (i * YAF_DENTRY_SIZE) then Inl doff
        else dentry_scan P blk (Suc i) (doff + YAF_DENTRY_SIZE) sz
      else Inr doff)"
  by pat_completeness auto
termination
  by (relation "measure (\<lambda>(P, blk, i, doff, sz). DENTRYS_PER_BLOCK - i)") auto

declare dentry_scan.simps [simp del]

lemma dentry_scan_progress:
  "i < DENTRYS_PER_BLOCK \<Longrightarrow> doff < sz \<Longrightarrow> dentry_scan P blk i doff sz = Inr doff' \<Longrightarrow> doff < doff'"
proof (induction P blk i doff sz rule: dentry_scan.induct)
  case (1 P blk i doff sz)
  show ?case
  proof (cases "Suc i < DENTRYS_PER_BLOCK \<and> doff + YAF_DENTRY_SIZE < sz")
    case True
    with 1 show ?thesis
      by (simp add: dentry_scan.simps [of P blk i] split: if_splits)
  next
    case False
    with 1 have "dentry_scan P blk (Suc i) (doff + YAF_DENTRY_SIZE) sz = Inr doff'"
      by (simp add: dentry_scan.simps [of P blk i] split: if_splits)
    with False have "doff' = doff + YAF_DENTRY_SIZE"
      by (subst (asm) dentry_scan.simps) (auto split: if_splits)
    then show ?thesis by simp
  qed
qed

text \<open>
  The outer loop over the blocks, from offset \<open>doff\<close>, over the block list \<open>ib\<close>. A block
  index beyond the list is an access outside of the array \<open>i_block\<close>.
\<close>

function dir_search ::
  "env \<Rightarrow> Yaf_Sb_Info \<Rightarrow> (block \<Rightarrow> nat \<Rightarrow> bool) \<Rightarrow> u32 list \<Rightarrow> nat \<Rightarrow> nat \<Rightarrow> search kc" where
  "dir_search E sb P ib sz doff =
     (if doff < sz then
        if doff div YAF_BLOCK_SIZE < length ib then
          bnd (sb_bread E (DNO2BID sb (ib ! (doff div YAF_BLOCK_SIZE)))) (\<lambda>bh.
          case bh of
            None \<Rightarrow> ret (Failed (- EIO))
          | Some bh \<Rightarrow>
              bnd (b_data bh) (\<lambda>blk.
              case dentry_scan P blk 0 doff sz of
                Inl found \<Rightarrow> bnd (brelse bh) (\<lambda>_. ret (Found found))
              | Inr doff' \<Rightarrow> bnd (brelse bh) (\<lambda>_. dir_search E sb P ib sz doff')))
        else halt BadAccess
      else ret (Missing doff))"
  by pat_completeness auto
termination
  by (relation "measure (\<lambda>(E, sb, P, ib, sz, doff). sz - doff)")
    (auto dest: dentry_scan_progress [rotated 2])

declare dir_search.simps [simp del]

definition free_entry :: "block \<Rightarrow> nat \<Rightarrow> bool" where
  "free_entry blk off \<longleftrightarrow> le32_load blk off = RESERVED_INO"

definition entry_matches :: "name \<Rightarrow> block \<Rightarrow> nat \<Rightarrow> bool" where
  "entry_matches nm blk off \<longleftrightarrow> le32_load blk off \<noteq> RESERVED_INO \<and>
     strncmp0 YAF_DENTRY_NAME_LEN (\<lambda>i. blk (off + 8 + i)) (cstr nm)"

section \<open>Creating an entry\<close>

text \<open>Entry \<open>n\<close> of the array \<open>i_block\<close>; beyond its end the access is invalid.\<close>

definition iblock :: "Yaf_Inode_Info \<Rightarrow> nat \<Rightarrow> u32 kc" where
  "iblock d n = (if n < length (i_block d) then ret (i_block d ! n) else halt BadAccess)"

text \<open>The last part of \<open>yaf_get_free_dentry\<close>: the new last entry is marked unused.\<close>

definition append_dentry :: "env \<Rightarrow> Yaf_Sb_Info \<Rightarrow> u64 \<Rightarrow> nat \<Rightarrow> int kc" where
  "append_dentry E sb dir doff =
     bnd (get_inode dir) (\<lambda>d.
     bnd (iblock d (doff div YAF_BLOCK_SIZE)) (\<lambda>dno.
     bnd (sb_bread E (DNO2BID sb dno)) (\<lambda>bh.
     case bh of
       None \<Rightarrow> halt Panic
     | Some bh \<Rightarrow>
         bnd (b_data bh) (\<lambda>blk.
         bnd (set_b_data bh (le32_store (doff mod YAF_BLOCK_SIZE) RESERVED_INO blk)) (\<lambda>_.
         bnd (mark_buffer_dirty bh) (\<lambda>_.
         bnd (brelse bh) (\<lambda>_.
         bnd (upd_inode dir (\<lambda>d. d\<lparr>i_size := doff + YAF_DENTRY_SIZE\<rparr>)) (\<lambda>_.
         bnd (current_time E) (\<lambda>cur.
         bnd (upd_inode dir (set_times cur)) (\<lambda>_.
         bnd (mark_inode_dirty dir) (\<lambda>_.
         ret (int doff))))))))))))"

definition yaf_get_free_dentry :: "env \<Rightarrow> Yaf_Sb_Info \<Rightarrow> u64 \<Rightarrow> int kc" where
  "yaf_get_free_dentry E sb dir =
     bnd (get_inode dir) (\<lambda>d.
     bnd (dir_search E sb free_entry (i_block d) (i_size d) 0) (\<lambda>r.
     case r of
       Failed e \<Rightarrow> ret e
     | Found doff \<Rightarrow> ret (int doff)
     | Missing doff \<Rightarrow>
         if i_size d div YAF_DENTRY_SIZE = MAX_DENTRYS then ret (- ENOSPC)
         else if i_size d mod YAF_BLOCK_SIZE = 0 then
           bnd (yaf_get_free_dblock E sb) (\<lambda>dno.
           if dno = RESERVED_DNO then ret (- ENOSPC)
           else
             bnd (iblock d (doff div YAF_BLOCK_SIZE)) (\<lambda>old.
             bnd (assert_k (old = RESERVED_DNO)) (\<lambda>_.
             bnd (upd_inode dir (\<lambda>d. d\<lparr>i_block := (i_block d)[doff div YAF_BLOCK_SIZE := dno]\<rparr>)) (\<lambda>_.
             append_dentry E sb dir doff))))
         else append_dentry E sb dir doff))"

text \<open>
  \<open>_yaf_create\<close> keeps the result of \<open>yaf_get_free_dentry\<close> in a \<open>uint64_t\<close>, so that its test
  for a negative value is a comparison of an unsigned word with 0.
\<close>

definition do_yaf_create :: "env \<Rightarrow> Yaf_Sb_Info \<Rightarrow> u64 \<Rightarrow> name \<Rightarrow> u16 \<Rightarrow> int kc" where
  "do_yaf_create E sb dir nm mode =
     (if YAF_DENTRY_NAME_LEN < length nm then ret (- ENAMETOOLONG)
      else
        bnd (yaf_get_free_dentry E sb dir) (\<lambda>r.
        let doff = of_int r :: u64 in
        if doff < 0 then ret (- EIO)
        else
          bnd (get_inode dir) (\<lambda>d.
          bnd (iblock d (unat doff div YAF_BLOCK_SIZE)) (\<lambda>dno.
          bnd (sb_bread E (DNO2BID sb dno)) (\<lambda>bh.
          case bh of
            None \<Rightarrow> ret (- EIO)
          | Some bh \<Rightarrow>
              bnd (yaf_new_inode E sb dir mode) (\<lambda>r.
              case r of
                Inl e \<Rightarrow> bnd (brelse bh) (\<lambda>_. ret e)
              | Inr inode \<Rightarrow>
                  bnd (b_data bh) (\<lambda>blk.
                  bnd (set_b_data bh (dentry_store (unat doff mod YAF_BLOCK_SIZE)
                         \<lparr>d_ino = ucast inode, d_name_len = of_nat (length nm), d_name = nm\<rparr> blk)) (\<lambda>_.
                  bnd (mark_buffer_dirty bh) (\<lambda>_.
                  bnd (brelse bh) (\<lambda>_.
                  bnd (current_time E) (\<lambda>cur.
                  bnd (upd_inode dir (set_times cur)) (\<lambda>_.
                  bnd (upd_inode dir inc_nlink) (\<lambda>_.
                  bnd (mark_inode_dirty dir) (\<lambda>_.
                  bnd (d_bind dir nm (Some inode)) (\<lambda>_.
                  ret 0)))))))))))))))"

definition yaf_mkdir :: "env \<Rightarrow> Yaf_Sb_Info \<Rightarrow> u64 \<Rightarrow> name \<Rightarrow> u16 \<Rightarrow> int kc" where
  "yaf_mkdir E sb dir nm mode = do_yaf_create E sb dir nm (mode OR S_IFDIR)"

definition yaf_create :: "env \<Rightarrow> Yaf_Sb_Info \<Rightarrow> u64 \<Rightarrow> name \<Rightarrow> u16 \<Rightarrow> int kc" where
  "yaf_create E sb dir nm mode = do_yaf_create E sb dir nm (mode OR S_IFREG)"

section \<open>Looking up a name\<close>

definition do_yaf_lookup :: "env \<Rightarrow> Yaf_Sb_Info \<Rightarrow> u64 \<Rightarrow> name \<Rightarrow> int kc" where
  "do_yaf_lookup E sb dir nm =
     (if YAF_DENTRY_NAME_LEN < length nm then ret (- ENAMETOOLONG)
      else
        bnd (get_inode dir) (\<lambda>d.
        bnd (dir_search E sb (entry_matches nm) (i_block d) (i_size d) 0) (\<lambda>r.
        case r of
          Failed e \<Rightarrow> ret e
        | Found doff \<Rightarrow> ret (int doff)
        | Missing _ \<Rightarrow> ret (- ENOENT))))"

text \<open>The tail of \<open>yaf_lookup\<close> at its label \<open>out\<close>. The result 0 stands for NULL.\<close>

definition lookup_out :: "env \<Rightarrow> u64 \<Rightarrow> name \<Rightarrow> u64 option \<Rightarrow> int kc" where
  "lookup_out E dir nm inode =
     bnd (current_time E) (\<lambda>cur.
     bnd (upd_inode dir (\<lambda>d. d\<lparr>i_atime := cur\<rparr>)) (\<lambda>_.
     bnd (mark_inode_dirty dir) (\<lambda>_.
     bnd (d_bind dir nm inode) (\<lambda>_.
     ret 0))))"

definition yaf_lookup :: "env \<Rightarrow> Yaf_Sb_Info \<Rightarrow> u64 \<Rightarrow> name \<Rightarrow> int kc" where
  "yaf_lookup E sb dir nm =
     bnd (do_yaf_lookup E sb dir nm) (\<lambda>doff.
     if doff < 0 then
       if doff = - ENOENT then lookup_out E dir nm None else ret doff
     else
       bnd (get_inode dir) (\<lambda>d.
       bnd (iblock d (nat doff div YAF_BLOCK_SIZE)) (\<lambda>dno.
       bnd (sb_bread E (DNO2BID sb dno)) (\<lambda>bh.
       case bh of
         None \<Rightarrow> ret (- EIO)
       | Some bh \<Rightarrow>
           bnd (b_data bh) (\<lambda>blk.
           bnd (yaf_iget E sb (ucast (le32_load blk (nat doff mod YAF_BLOCK_SIZE)))) (\<lambda>r.
           case r of
             Inl e \<Rightarrow> bnd (brelse bh) (\<lambda>_. ret e)
           | Inr inode \<Rightarrow> bnd (brelse bh) (\<lambda>_. lookup_out E dir nm (Some inode))))))))"

section \<open>Deleting an entry\<close>

text \<open>The loop that releases the data blocks of the deleted inode.\<close>

function put_dblocks :: "env \<Rightarrow> Yaf_Sb_Info \<Rightarrow> Yaf_Inode_Info \<Rightarrow> nat \<Rightarrow> unit kc" where
  "put_dblocks E sb v doff =
     (if doff < i_size v then
        bnd (iblock v (doff div YAF_BLOCK_SIZE)) (\<lambda>dno.
        bnd (yaf_put_dblock E sb dno) (\<lambda>_.
        put_dblocks E sb v (doff + YAF_BLOCK_SIZE)))
      else ret ())"
  by pat_completeness auto
termination
  by (relation "measure (\<lambda>(E, sb, v, doff). i_size v - doff)") auto

declare put_dblocks.simps [simp del]

definition yaf_delete :: "env \<Rightarrow> Yaf_Sb_Info \<Rightarrow> u64 \<Rightarrow> name \<Rightarrow> int kc" where
  "yaf_delete E sb dir nm =
     bnd (d_inode dir nm) (\<lambda>inode.
     bnd (do_yaf_lookup E sb dir nm) (\<lambda>doff.
     bnd (assert_k (0 \<le> doff)) (\<lambda>_.
     bnd (get_inode dir) (\<lambda>d.
     bnd (iblock d (nat doff div YAF_BLOCK_SIZE)) (\<lambda>dno.
     bnd (sb_bread E (DNO2BID sb dno)) (\<lambda>bh.
     case bh of
       None \<Rightarrow> ret (- EIO)
     | Some bh \<Rightarrow>
         bnd (b_data bh) (\<lambda>blk.
         bnd (set_b_data bh (le32_store (nat doff mod YAF_BLOCK_SIZE) RESERVED_INO blk)) (\<lambda>_.
         bnd (mark_buffer_dirty bh) (\<lambda>_.
         bnd (brelse bh) (\<lambda>_.
         bnd (current_time E) (\<lambda>cur.
         bnd (upd_inode dir (set_times cur)) (\<lambda>_.
         bnd (upd_inode dir drop_nlink) (\<lambda>_.
         bnd (mark_inode_dirty dir) (\<lambda>_.
         bnd (upd_inode inode drop_nlink) (\<lambda>_.
         bnd (get_inode inode) (\<lambda>v.
         if 1 < i_nlink v then bnd (mark_inode_dirty inode) (\<lambda>_. ret 0)
         else
           bnd (put_dblocks E sb v 0) (\<lambda>_.
           bnd (yaf_put_inode E sb (ucast inode)) (\<lambda>_.
           bnd (mark_inode_dirty inode) (\<lambda>_.
           ret 0)))))))))))))))))))"

definition yaf_rmdir :: "env \<Rightarrow> Yaf_Sb_Info \<Rightarrow> u64 \<Rightarrow> name \<Rightarrow> int kc" where
  "yaf_rmdir E sb dir nm =
     bnd (d_inode dir nm) (\<lambda>inode.
     bnd (get_inode inode) (\<lambda>v.
     if 1 < i_nlink v then ret (- ENOTEMPTY)
     else yaf_delete E sb dir nm))"

definition yaf_unlink :: "env \<Rightarrow> Yaf_Sb_Info \<Rightarrow> u64 \<Rightarrow> name \<Rightarrow> int kc" where
  "yaf_unlink E sb dir nm = yaf_delete E sb dir nm"

end
