(* ===== verification/Yaf_DirMap.thy ===== *)
theory Yaf_DirMap
  imports Yaf_Dir
begin

text \<open>
  What a directory stands for. Its entries are the slots \<open>0, 1, \<dots>\<close> of 32 bytes over its
  block list; the live ones make a map from names to inode numbers. This theory relates the
  two nested scan loops to a search over the slots, and proves that lookup, creation and
  deletion are lookup, update and removal of this map.
\<close>

section \<open>The scans as a search over the slots\<close>

lemma find_append: "find P (xs @ ys) = (case find P xs of None \<Rightarrow> find P ys | Some x \<Rightarrow> Some x)"
  by (induction xs) auto

lemma find_shift: "find P [a..<a + m] = map_option ((+) a) (find (\<lambda>k. P (a + k)) [0..<m])"
proof -
  have "[a..<a + m] = map ((+) a) [0..<m]" by (rule nth_equalityI) simp_all
  moreover have "find P (map ((+) a) xs) = map_option ((+) a) (find (\<lambda>k. P (a + k)) xs)" for xs
    by (induction xs) auto
  ultimately show ?thesis by simp
qed

lemma dentry_scan_run:
  "i \<le> min 128 (n - b) \<Longrightarrow> b \<le> n \<Longrightarrow>
   dentry_scan P blk i (32 * (b + i)) (32 * n) =
     (case find (\<lambda>k. P blk (32 * k)) [i..<min 128 (n - b)] of
        Some k \<Rightarrow> Inl (32 * (b + k)) | None \<Rightarrow> Inr (32 * (b + min 128 (n - b))))"
proof (induction "min 128 (n - b) - i" arbitrary: i)
  case 0
  then have i: "i = min 128 (n - b)" and stop: "(i < 128 \<and> 32 * (b + i) < 32 * n) = False" by auto
  have "dentry_scan P blk i (32 * (b + i)) (32 * n) = Inr (32 * (b + i))"
    by (subst dentry_scan.simps) (simp only: layout_consts stop if_False)
  with i show ?case by simp
next
  case (Suc x)
  then have i: "i < min 128 (n - b)" by linarith
  with Suc.hyps(1) [of "Suc i"] Suc.hyps(2) Suc.prems
  have "dentry_scan P blk (Suc i) (32 * (b + Suc i)) (32 * n) =
     (case find (\<lambda>k. P blk (32 * k)) [Suc i..<min 128 (n - b)] of
        Some k \<Rightarrow> Inl (32 * (b + k)) | None \<Rightarrow> Inr (32 * (b + min 128 (n - b))))"
    by simp
  moreover have "(i < 128 \<and> 32 * (b + i) < 32 * n) = True"
      "32 * (b + i) + 32 = 32 * (b + Suc i)" "i * 32 = 32 * i"
    using i by auto
  then have "dentry_scan P blk i (32 * (b + i)) (32 * n) =
      (if P blk (32 * i) then Inl (32 * (b + i))
       else dentry_scan P blk (Suc i) (32 * (b + Suc i)) (32 * n))"
    by (subst dentry_scan.simps) (simp only: layout_consts if_True)
  ultimately show ?case
    using i by (simp add: upt_conv_Cons)
qed

text \<open>The predicate \<open>P\<close> at slot \<open>k\<close> of the directory with block list \<open>ib\<close>.\<close>

definition slot_sat :: "Yaf_Sb_Info \<Rightarrow> kst \<Rightarrow> u32 list \<Rightarrow> (block \<Rightarrow> nat \<Rightarrow> bool) \<Rightarrow> nat \<Rightarrow> bool" where
  "slot_sat sb s ib P k \<longleftrightarrow> P (disk s (DNO2BID sb (ib ! (k div 128)))) (32 * (k mod 128))"

lemma dir_search_run:
  assumes "\<forall>t. \<forall>j. 128 * j < n \<longrightarrow> bread_ok E t (DNO2BID sb (ib ! j))"
    and "n \<le> 128 * length ib"
  shows "128 * j \<le> n \<or> b = n \<Longrightarrow> b = min (128 * j) n \<Longrightarrow>
    \<exists>t. dir_search E sb P ib (32 * n) (32 * b) s =
      Run (case find (slot_sat sb s ib P) [b..<n] of Some k \<Rightarrow> Found (32 * k) | None \<Rightarrow> Missing (32 * n))
          (s\<lparr>tick := t\<rparr>)"
proof (induction "n - b" arbitrary: j b s rule: less_induct)
  case less
  show ?case
  proof (cases "b < n")
    case False
    with less.prems have "b = n" by auto
    then show ?thesis
      by (intro exI [of _ "tick s"]) (simp add: dir_search.simps)
  next
    case True
    with less.prems have b: "b = 128 * j" and lt: "128 * j < n" by auto
    let ?m = "min 128 (n - b)"
    let ?blk = "disk s (DNO2BID sb (ib ! j))"
    let ?s1 = "s\<lparr>tick := tick s + 1\<rparr>"
    have same: "slot_sat sb ?s1 ib P = slot_sat sb s ib P"
      by (simp add: fun_eq_iff slot_sat_def)
    have j: "j < length ib" "(32 * b) div 4096 = j" using assms(2) b lt by auto
    have ok: "bread_ok E (tick s) (DNO2BID sb (ib ! j))" using assms(1) lt by blast
    have slots: "find (slot_sat sb s ib P) [b..<b + ?m] =
        map_option ((+) b) (find (\<lambda>k. P ?blk (32 * k)) [0..<?m])"
      unfolding find_shift by (rule arg_cong [where f = "map_option ((+) b)"], rule find_cong)
        (auto simp: slot_sat_def b)
    have split: "[b..<n] = [b..<b + ?m] @ [b + ?m..<n]"
      using upt_add_eq_append [of b "b + ?m" "n - (b + ?m)"] True by simp
    note scan = dentry_scan_run [of 0 n b P ?blk]
    show ?thesis
    proof (cases "find (\<lambda>k. P ?blk (32 * k)) [0..<?m]")
      case (Some k)
      then show ?thesis
        using scan True ok j slots split
        by (intro exI [of _ "tick s + 1"])
          (subst dir_search.simps, simp add: yaf_exec find_append)
    next
      case None
      have "\<exists>t. dir_search E sb P ib (32 * n) (32 * (b + ?m)) ?s1 =
          Run (case find (slot_sat sb ?s1 ib P) [b + ?m..<n] of
                 Some k \<Rightarrow> Found (32 * k) | None \<Rightarrow> Missing (32 * n)) (?s1\<lparr>tick := t\<rparr>)"
        using True by (intro less.hyps [where j = "Suc j"]) (auto simp: b)
      then obtain t where "dir_search E sb P ib (32 * n) (32 * (b + ?m)) ?s1 =
          Run (case find (slot_sat sb s ib P) [b + ?m..<n] of
                 Some k \<Rightarrow> Found (32 * k) | None \<Rightarrow> Missing (32 * n)) (s\<lparr>tick := t\<rparr>)"
        unfolding same by auto
      then show ?thesis
        using scan True ok j slots split None
        by (intro exI [of _ t])
          (subst dir_search.simps, simp add: yaf_exec find_append)
    qed
  qed
qed

section \<open>Slots and the map they stand for\<close>

definition nslots :: "Yaf_Inode_Info \<Rightarrow> nat" where
  "nslots d = i_size d div YAF_DENTRY_SIZE"

definition dslot :: "Yaf_Sb_Info \<Rightarrow> kst \<Rightarrow> Yaf_Inode_Info \<Rightarrow> nat \<Rightarrow> Yaf_Dentry" where
  "dslot sb s d k = dentry_load (disk s (DNO2BID sb (i_block d ! (k div 128)))) (32 * (k mod 128))"

definition live_as :: "name \<Rightarrow> Yaf_Dentry \<Rightarrow> bool" where
  "live_as nm e \<longleftrightarrow> d_ino e \<noteq> RESERVED_INO \<and> d_name e = nm"

definition entry_map :: "(nat \<Rightarrow> Yaf_Dentry) \<Rightarrow> nat \<Rightarrow> name \<Rightarrow> u32 option" where
  "entry_map f n nm = map_option (\<lambda>k. d_ino (f k)) (first_idx (\<lambda>k. live_as nm (f k)) n)"

definition dir_map :: "Yaf_Sb_Info \<Rightarrow> kst \<Rightarrow> Yaf_Inode_Info \<Rightarrow> name \<Rightarrow> u32 option" where
  "dir_map sb s d = entry_map (dslot sb s d) (nslots d)"

definition names_unique :: "(nat \<Rightarrow> Yaf_Dentry) \<Rightarrow> nat \<Rightarrow> bool" where
  "names_unique f n \<longleftrightarrow> (\<forall>j<n. \<forall>k<n. \<forall>nm. live_as nm (f j) \<and> live_as nm (f k) \<longrightarrow> j = k)"

lemma first_idx_ext: "(\<And>j. j < n' \<and> P' j \<longleftrightarrow> j < n \<and> P j) \<Longrightarrow> first_idx P' n' = first_idx P n"
proof (cases "first_idx P n")
  case None
  moreover assume "\<And>j. j < n' \<and> P' j \<longleftrightarrow> j < n \<and> P j"
  ultimately have "first_idx P' n' = None" by (auto simp: first_idx_None)
  with None show ?thesis by simp
next
  case (Some k)
  assume ext: "\<And>j. j < n' \<and> P' j \<longleftrightarrow> j < n \<and> P j"
  from Some have k: "k < n" "P k" "\<forall>j<k. \<not> P j" by (auto simp: first_idx_Some)
  then have "k < n'" "P' k" using ext [of k] by auto
  moreover have "\<not> P' j" if "j < k" for j
    using ext [of j] k that \<open>k < n'\<close> by auto
  ultimately have "first_idx P' n' = Some k" by (simp add: first_idx_Some)
  with Some show ?thesis by simp
qed

lemma entry_map_None: "entry_map f n nm = None \<longleftrightarrow> (\<forall>k<n. \<not> live_as nm (f k))"
  by (simp add: entry_map_def first_idx_None)

lemma entry_map_iff:
  assumes "names_unique f n"
  shows "entry_map f n nm = Some ino \<longleftrightarrow> (\<exists>k<n. live_as nm (f k) \<and> d_ino (f k) = ino)"
proof
  assume "\<exists>k<n. live_as nm (f k) \<and> d_ino (f k) = ino"
  then obtain k where k: "k < n" "live_as nm (f k)" "d_ino (f k) = ino" by blast
  moreover have "\<not> live_as nm (f j)" if "j < k" for j
  proof
    assume "live_as nm (f j)"
    moreover have "j < n" using that k(1) by simp
    ultimately have "j = k" using assms k(1,2) unfolding names_unique_def by blast
    with that show False by simp
  qed
  ultimately have "first_idx (\<lambda>k. live_as nm (f k)) n = Some k" by (simp add: first_idx_Some)
  with k(3) show "entry_map f n nm = Some ino" by (simp add: entry_map_def)
qed (auto simp: entry_map_def first_idx_Some)

text \<open>Filling an unused slot, old or new, under a name not in the map updates the map.\<close>

lemma entry_map_insert:
  assumes k: "k < n'" "n \<le> n'" and new: "f' k = \<lparr>d_ino = ino, d_name_len = l, d_name = nm\<rparr>"
    and ino: "ino \<noteq> RESERVED_INO" and dead: "k < n \<Longrightarrow> d_ino (f k) = RESERVED_INO"
    and old: "\<And>j. j < n \<Longrightarrow> j \<noteq> k \<Longrightarrow> f' j = f j"
    and rest: "\<And>j. n \<le> j \<Longrightarrow> j < n' \<Longrightarrow> j \<noteq> k \<Longrightarrow> d_ino (f' j) = RESERVED_INO"
    and absent: "entry_map f n nm = None"
  shows "entry_map f' n' = (entry_map f n)(nm \<mapsto> ino)"
proof (rule ext)
  fix x
  show "entry_map f' n' x = ((entry_map f n)(nm \<mapsto> ino)) x"
  proof (cases "x = nm")
    case True
    have "\<not> live_as nm (f' j)" if "j < n'" "j \<noteq> k" for j
      using that absent old [of j] rest [of j] by (cases "j < n") (auto simp: entry_map_None live_as_def)
    then have "first_idx (\<lambda>j. live_as nm (f' j)) n' = Some k"
      using k new ino by (auto simp: first_idx_Some live_as_def)
    with True new show ?thesis by (simp add: entry_map_def)
  next
    case False
    have "j < n' \<and> live_as x (f' j) \<longleftrightarrow> j < n \<and> live_as x (f j)" for j
    proof (cases "j = k")
      case True
      with new dead False show ?thesis by (auto simp: live_as_def)
    next
      case False
      with old [of j] rest [of j] k show ?thesis by (cases "j < n") (auto simp: live_as_def)
    qed
    then have eq: "first_idx (\<lambda>j. live_as x (f' j)) n' = first_idx (\<lambda>j. live_as x (f j)) n"
      by (rule first_idx_ext)
    have "d_ino (f' j) = d_ino (f j)" if "first_idx (\<lambda>j. live_as x (f j)) n = Some j" for j
    proof -
      from that have "j < n" "live_as x (f j)" by (auto simp: first_idx_Some)
      with old [of j] dead show ?thesis by (cases "j = k") (auto simp: live_as_def)
    qed
    with eq False show ?thesis
      by (cases "first_idx (\<lambda>j. live_as x (f j)) n") (auto simp: entry_map_def)
  qed
qed

text \<open>Filling a slot under a new name keeps the names unique.\<close>

lemma names_unique_insert:
  assumes "names_unique f n" and k: "k < n'" "n \<le> n'"
    and new: "f' k = \<lparr>d_ino = ino, d_name_len = l, d_name = nm\<rparr>"
    and old: "\<And>j. j < n \<Longrightarrow> j \<noteq> k \<Longrightarrow> f' j = f j"
    and rest: "\<And>j. n \<le> j \<Longrightarrow> j < n' \<Longrightarrow> j \<noteq> k \<Longrightarrow> d_ino (f' j) = RESERVED_INO"
    and absent: "entry_map f n nm = None"
  shows "names_unique f' n'"
  unfolding names_unique_def
proof (intro allI impI)
  have orig: "j < n \<and> live_as x (f j)" if "j < n'" "live_as x (f' j)" "j \<noteq> k" for j x
    using that old [of j] rest [of j] by (cases "j < n") (auto simp: live_as_def)
  have other: "x \<noteq> nm" if "j < n'" "live_as x (f' j)" "j \<noteq> k" for j x
    using orig [OF that] absent by (auto simp: entry_map_None)
  fix i j x assume ij: "i < n'" "j < n'" "live_as x (f' i) \<and> live_as x (f' j)"
  have nmk: "x = nm" if "live_as x (f' k)" using that new by (simp add: live_as_def)
  show "i = j"
    using ij orig [of i x] orig [of j x] other [of i x] other [of j x] nmk assms(1)
    unfolding names_unique_def by metis
qed

text \<open>Freeing the slot of a name removes the name from the map.\<close>

lemma entry_map_delete:
  assumes uniq: "names_unique f n" and k: "k < n" "live_as nm (f k)"
    and dead: "d_ino (f' k) = RESERVED_INO" and old: "\<And>j. j < n \<Longrightarrow> j \<noteq> k \<Longrightarrow> f' j = f j"
  shows "entry_map f' n = (entry_map f n)(nm := None)"
proof (rule ext)
  fix x
  have live': "live_as x (f' j) \<longleftrightarrow> j \<noteq> k \<and> live_as x (f j)" if "j < n" for j x
    using that dead old [of j] by (cases "j = k") (auto simp: live_as_def)
  show "entry_map f' n x = ((entry_map f n)(nm := None)) x"
  proof (cases "x = nm")
    case True
    have "\<not> live_as nm (f j)" if "j < n" "j \<noteq> k" for j
      using that uniq k unfolding names_unique_def by blast
    with True live' show ?thesis by (auto simp: entry_map_None)
  next
    case False
    have "\<not> live_as x (f k)" using k(2) False by (simp add: live_as_def)
    then have "j < n \<and> live_as x (f' j) \<longleftrightarrow> j < n \<and> live_as x (f j)" for j
      using live' by auto
    then have eq: "first_idx (\<lambda>j. live_as x (f' j)) n = first_idx (\<lambda>j. live_as x (f j)) n"
      by (rule first_idx_ext)
    have "f' j = f j" if "first_idx (\<lambda>j. live_as x (f j)) n = Some j" for j
      using that old [of j] \<open>\<not> live_as x (f k)\<close> by (cases "j = k") (auto simp: first_idx_Some)
    with eq False show ?thesis
      by (cases "first_idx (\<lambda>j. live_as x (f j)) n") (auto simp: entry_map_def)
  qed
qed

lemma names_unique_delete:
  assumes "names_unique f n" and "d_ino (f' k) = RESERVED_INO" and "\<And>j. j < n \<Longrightarrow> j \<noteq> k \<Longrightarrow> f' j = f j"
  shows "names_unique f' n"
proof -
  have "live_as x (f j)" if "j < n" "live_as x (f' j)" for j x
    using that assms(2) assms(3) [of j] by (cases "j = k") (auto simp: live_as_def)
  with assms(1) show ?thesis unfolding names_unique_def by blast
qed

section \<open>Counting the live entries\<close>

definition live_count :: "(nat \<Rightarrow> Yaf_Dentry) \<Rightarrow> nat \<Rightarrow> nat" where
  "live_count f n = card {k. k < n \<and> d_ino (f k) \<noteq> RESERVED_INO}"

lemma live_count_le: "live_count f n \<le> n"
  unfolding live_count_def using card_mono [of "{..<n}" "{k. k < n \<and> d_ino (f k) \<noteq> RESERVED_INO}"] by auto

lemma live_count_fill:
  assumes k: "k < n'" "n \<le> n'" and live: "d_ino (f' k) \<noteq> RESERVED_INO"
    and dead: "k < n \<Longrightarrow> d_ino (f k) = RESERVED_INO"
    and old: "\<And>j. j < n \<Longrightarrow> j \<noteq> k \<Longrightarrow> f' j = f j"
    and rest: "\<And>j. n \<le> j \<Longrightarrow> j < n' \<Longrightarrow> j \<noteq> k \<Longrightarrow> d_ino (f' j) = RESERVED_INO"
  shows "live_count f' n' = Suc (live_count f n)"
proof -
  have "j < n' \<and> d_ino (f' j) \<noteq> RESERVED_INO \<longleftrightarrow> j = k \<or> j < n \<and> d_ino (f j) \<noteq> RESERVED_INO" for j
    using k live dead old [of j] rest [of j] by (cases "j = k"; cases "j < n") auto
  then have "{j. j < n' \<and> d_ino (f' j) \<noteq> RESERVED_INO} = insert k {j. j < n \<and> d_ino (f j) \<noteq> RESERVED_INO}"
    by auto
  moreover have "k \<notin> {j. j < n \<and> d_ino (f j) \<noteq> RESERVED_INO}" using dead by auto
  ultimately show ?thesis by (simp add: live_count_def)
qed

lemma live_count_clear:
  assumes "k < n" and "d_ino (f k) \<noteq> RESERVED_INO" and "d_ino (f' k) = RESERVED_INO"
    and "\<And>j. j < n \<Longrightarrow> j \<noteq> k \<Longrightarrow> f' j = f j"
  shows "live_count f n = Suc (live_count f' n)"
  using assms by (intro live_count_fill [of k]) auto

lemma entry_map_empty: "entry_map f n = Map.empty \<longleftrightarrow> live_count f n = 0"
proof -
  have "entry_map f n = Map.empty \<longleftrightarrow> (\<forall>nm. entry_map f n nm = None)" by auto
  also have "\<dots> \<longleftrightarrow> (\<forall>k<n. d_ino (f k) = RESERVED_INO)"
    unfolding entry_map_None live_as_def by blast
  also have "\<dots> \<longleftrightarrow> live_count f n = 0" unfolding live_count_def by auto
  finally show ?thesis .
qed

section \<open>Stored lengths of names\<close>

definition lengths_ok :: "(nat \<Rightarrow> Yaf_Dentry) \<Rightarrow> nat \<Rightarrow> bool" where
  "lengths_ok f n \<longleftrightarrow>
     (\<forall>k<n. d_ino (f k) \<noteq> RESERVED_INO \<longrightarrow> unat (d_name_len (f k)) = length (d_name (f k)))"

lemma lengths_ok_change:
  assumes "lengths_ok f n"
    and "d_ino (f' k) = RESERVED_INO \<or> unat (d_name_len (f' k)) = length (d_name (f' k))"
    and "\<And>j. j < n \<Longrightarrow> j \<noteq> k \<Longrightarrow> f' j = f j"
    and "\<And>j. n \<le> j \<Longrightarrow> j < n' \<Longrightarrow> j \<noteq> k \<Longrightarrow> d_ino (f' j) = RESERVED_INO"
  shows "lengths_ok f' n'"
  unfolding lengths_ok_def
proof (intro allI impI)
  fix j assume "j < n'" "d_ino (f' j) \<noteq> RESERVED_INO"
  then show "unat (d_name_len (f' j)) = length (d_name (f' j))"
    using assms(1,2) assms(3,4) [of j] by (cases "j = k"; cases "j < n") (auto simp: lengths_ok_def)
qed

end
