(* ===== verification/Yaf_DirOps.thy ===== *)
theory Yaf_DirOps
  imports Yaf_DirMap
begin

text \<open>
  The directory operations on a device without I/O errors: what each returns and how it
  changes the map of names of the directory, on every branch of the code.
\<close>

section \<open>Well-formed directories on a working device\<close>

definition device_ok :: "env \<Rightarrow> Yaf_Sb_Info \<Rightarrow> bool" where
  "device_ok E sb \<longleftrightarrow> (\<forall>t b. b \<le> BID_D_MAX sb \<longrightarrow> bread_ok E t b) \<and> (\<forall>t i. iget_ok E t i)"

text \<open>
  The size is a whole number of entries, at most 1024; the blocks under the entries are
  distinct data blocks of the device, the rest of the block list is unused.
\<close>

definition dir_wf :: "Yaf_Sb_Info \<Rightarrow> Yaf_Inode_Info \<Rightarrow> bool" where
  "dir_wf sb d \<longleftrightarrow> i_size d = YAF_DENTRY_SIZE * nslots d \<and> nslots d \<le> MAX_DENTRYS \<and>
     length (i_block d) = YAF_IBLOCKS \<and>
     (\<forall>j<YAF_IBLOCKS. if DENTRYS_PER_BLOCK * j < nslots d then i_block d ! j < nr_d sb
                      else i_block d ! j = RESERVED_DNO) \<and>
     (\<forall>i<YAF_IBLOCKS. \<forall>j<YAF_IBLOCKS. DENTRYS_PER_BLOCK * i < nslots d \<longrightarrow>
        DENTRYS_PER_BLOCK * j < nslots d \<longrightarrow> i_block d ! i = i_block d ! j \<longrightarrow> i = j)"

lemma device_readable:
  assumes "device_ok E sb"
  shows "sb_ok sb \<Longrightarrow> bread_ok E t (BID_IBP_MIN sb)" "sb_ok sb \<Longrightarrow> bread_ok E t (BID_DBP_MIN sb)"
    "dno < nr_d sb \<Longrightarrow> bread_ok E t (DNO2BID sb dno)"
    "ino_ok sb ino \<Longrightarrow> bread_ok E t (INO2BID sb ino)"
    "iget_ok E t ino"
proof -
  have "unat ino div 64 < unat (nr_i sb)" if "ino_ok sb ino"
    using that by (simp add: ino_ok_def less_mult_imp_div_less)
  then show "sb_ok sb \<Longrightarrow> bread_ok E t (BID_IBP_MIN sb)" "sb_ok sb \<Longrightarrow> bread_ok E t (BID_DBP_MIN sb)"
    "dno < nr_d sb \<Longrightarrow> bread_ok E t (DNO2BID sb dno)"
    "ino_ok sb ino \<Longrightarrow> bread_ok E t (INO2BID sb ino)" "iget_ok E t ino"
    using assms by (auto simp: device_ok_def word_le_nat_alt word_less_nat_alt yaf_layout sb_ok_def)
qed

lemma dir_wfD:
  assumes "dir_wf sb d"
  shows "i_size d = 32 * nslots d" "nslots d \<le> 1024" "length (i_block d) = 8"
    "j < 8 \<Longrightarrow> 128 * j < nslots d \<Longrightarrow> i_block d ! j < nr_d sb"
    "j < 8 \<Longrightarrow> nslots d \<le> 128 * j \<Longrightarrow> i_block d ! j = RESERVED_DNO"
    "i < 8 \<Longrightarrow> j < 8 \<Longrightarrow> 128 * i < nslots d \<Longrightarrow> 128 * j < nslots d \<Longrightarrow>
       i_block d ! i = i_block d ! j \<Longrightarrow> i = j"
proof -
  show "j < 8 \<Longrightarrow> 128 * j < nslots d \<Longrightarrow> i_block d ! j < nr_d sb"
    using assms by (auto simp: dir_wf_def split: if_splits)
  show "j < 8 \<Longrightarrow> nslots d \<le> 128 * j \<Longrightarrow> i_block d ! j = RESERVED_DNO"
    using assms by (auto simp: dir_wf_def not_less split: if_splits)
qed (use assms in \<open>simp_all add: dir_wf_def\<close>)

lemma slot_block: "dir_wf sb d \<Longrightarrow> k < nslots d \<Longrightarrow> k div 128 < 8 \<and> i_block d ! (k div 128) < nr_d sb"
proof -
  assume wf: "dir_wf sb d" and k: "k < nslots d"
  then have "k div 128 < 8" "128 * (k div 128) < nslots d"
    using dir_wfD(2) [OF wf] by auto
  with dir_wfD(4) [OF wf] show ?thesis by blast
qed

lemma search_run:
  assumes "device_ok E sb" and wf: "dir_wf sb d"
  shows "\<exists>t. dir_search E sb P (i_block d) (i_size d) 0 s =
    Run (case first_idx (slot_sat sb s (i_block d) P) (nslots d) of
           Some k \<Rightarrow> Found (32 * k) | None \<Rightarrow> Missing (32 * nslots d)) (s\<lparr>tick := t\<rparr>)"
proof -
  have "bread_ok E t (DNO2BID sb (i_block d ! j))" if "128 * j < nslots d" for t j
    using that dir_wfD(2,4) [OF wf] device_readable(3) [OF assms(1)] by simp
  then have "\<exists>t. dir_search E sb P (i_block d) (32 * nslots d) (32 * 0) s =
      Run (case find (slot_sat sb s (i_block d) P) [0..<nslots d] of
             Some k \<Rightarrow> Found (32 * k) | None \<Rightarrow> Missing (32 * nslots d)) (s\<lparr>tick := t\<rparr>)"
    by (intro dir_search_run [where j = 0]) (use dir_wfD(2,3) [OF wf] in auto)
  then show ?thesis
    by (simp add: first_idx_def dir_wfD(1) [OF wf])
qed

section \<open>Lookup\<close>

lemma slot_matches:
  "valid_name nm \<Longrightarrow> slot_sat sb s (i_block d) (entry_matches nm) k = live_as nm (dslot sb s d k)"
  by (simp add: slot_sat_def entry_matches_def live_as_def dslot_def dentry_load_def
      strncmp0_iff valid_name_def cname_cstr)

lemma slot_free:
  "slot_sat sb s (i_block d) free_entry k \<longleftrightarrow> d_ino (dslot sb s d k) = RESERVED_INO"
  by (simp add: slot_sat_def free_entry_def dslot_def dentry_load_def)

lemma do_lookup_run:
  assumes "device_ok E sb" and "dir_wf sb d" and "icache s dir = Some d" and "valid_name nm"
  shows "\<exists>t. do_yaf_lookup E sb dir nm s =
    Run (case first_idx (\<lambda>k. live_as nm (dslot sb s d k)) (nslots d) of
           Some k \<Rightarrow> int (32 * k) | None \<Rightarrow> - ENOENT) (s\<lparr>tick := t\<rparr>)"
proof -
  have idx: "first_idx (slot_sat sb s (i_block d) (entry_matches nm)) (nslots d) =
      first_idx (\<lambda>k. live_as nm (dslot sb s d k)) (nslots d)"
    by (rule first_idx_cong) (simp add: slot_matches assms(4))
  obtain t where "dir_search E sb (entry_matches nm) (i_block d) (i_size d) 0 s =
    Run (case first_idx (\<lambda>k. live_as nm (dslot sb s d k)) (nslots d) of
           Some k \<Rightarrow> Found (32 * k) | None \<Rightarrow> Missing (32 * nslots d)) (s\<lparr>tick := t\<rparr>)"
    using search_run [OF assms(1,2)] unfolding idx [symmetric] by blast
  then show ?thesis
    using assms(3,4)
    by (intro exI [of _ t])
      (simp add: do_yaf_lookup_def valid_name_def yaf_exec split: option.splits)
qed

lemma slot_offset:
  "32 * k div 4096 = k div (128 :: nat)" "32 * k mod 4096 = 32 * (k mod (128 :: nat))"
  "nat (32 * int k) = 32 * k"
proof -
  have "32 * k div (32 * 128) = k div (128 :: nat)" by (rule div_mult_mult1) simp
  then show "32 * k div 4096 = k div (128 :: nat)" by simp
  have "32 * k mod (32 * 128) = 32 * (k mod (128 :: nat))" by (rule mult_mod_right [symmetric])
  then show "32 * k mod 4096 = 32 * (k mod (128 :: nat))" by simp
qed (simp add: nat_mult_distrib)

lemma dslot_ino: "le32_load (disk s (DNO2BID sb (i_block d ! (k div 128)))) (32 * (k mod 128)) =
    d_ino (dslot sb s d k)"
  by (simp add: dslot_def dentry_load_def)

lemma dir_map_Some:
  "dir_map sb s d nm = Some ino \<longleftrightarrow>
     (\<exists>k. first_idx (\<lambda>k. live_as nm (dslot sb s d k)) (nslots d) = Some k \<and> d_ino (dslot sb s d k) = ino)"
  by (auto simp: dir_map_def entry_map_def)

lemma dir_map_None:
  "dir_map sb s d nm = None \<longleftrightarrow> first_idx (\<lambda>k. live_as nm (dslot sb s d k)) (nslots d) = None"
  by (simp add: dir_map_def entry_map_def)

lemma iget_any_run:
  assumes "device_ok E sb" and "ino_ok sb ino" and "ino \<notin> inew s"
  shows "\<exists>t v. yaf_iget E sb ino s = Run (Inr ino)
    (s\<lparr>icache := (icache s)(ino := Some (fill_inode (dinode_at sb s ino) v)), tick := t\<rparr>)"
  using assms iget_run [of sb ino s E] iget_fresh_run [of sb ino s E] device_readable(4,5) [OF assms(1)]
  by (cases "icache s ino") blast+

lemma lookup_run:
  assumes "device_ok E sb" and "dir_wf sb d" and "icache s dir = Some d" and "valid_name nm"
    and "\<And>ino. dir_map sb s d nm = Some ino \<Longrightarrow> ino_ok sb (ucast ino) \<and> ucast ino \<notin> inew s"
  shows "\<exists>s' w t. yaf_lookup E sb dir nm s = Run 0 s' \<and>
    dcache s' = (dcache s)((dir, nm) := Some (map_option ucast (dir_map sb s d nm))) \<and>
    (\<forall>ino. dir_map sb s d nm = Some ino \<longrightarrow> icache s' (ucast ino) \<noteq> None) \<and>
    (dir_map sb s d nm = None \<longrightarrow> icache s' = (icache s)(dir := Some (d\<lparr>i_atime := t\<rparr>))) \<and>
    (\<forall>ino. dir_map sb s d nm = Some ino \<longrightarrow> ucast ino \<noteq> dir \<longrightarrow>
       icache s' = (icache s)(ucast ino := Some (fill_inode (dinode_at sb s (ucast ino)) w),
         dir := Some (d\<lparr>i_atime := t\<rparr>))) \<and>
    disk s' = disk s \<and> refs s' = refs s \<and> loose s' = loose s \<and> inew s' = inew s \<and>
    idirty s' = insert dir (idirty s)"
proof -
  obtain t where look: "do_yaf_lookup E sb dir nm s =
      Run (case first_idx (\<lambda>k. live_as nm (dslot sb s d k)) (nslots d) of
             Some k \<Rightarrow> int (32 * k) | None \<Rightarrow> - ENOENT) (s\<lparr>tick := t\<rparr>)"
    using do_lookup_run [OF assms(1-4)] by blast
  show ?thesis
  proof (cases "first_idx (\<lambda>k. live_as nm (dslot sb s d k)) (nslots d)")
    case None
    then have "dir_map sb s d nm = None" by (simp add: dir_map_None)
    with look None assms(3) show ?thesis
      by (simp add: yaf_lookup_def lookup_out_def yaf_exec ENOENT_def) blast
  next
    case (Some k)
    then have k: "k < nslots d" by (simp add: first_idx_Some)
    let ?ino = "d_ino (dslot sb s d k)"
    have map: "dir_map sb s d nm = Some ?ino" using Some by (simp add: dir_map_Some)
    note blk = slot_block [OF assms(2) k]
    let ?b = "DNO2BID sb (i_block d ! (k div 128))"
    have ok: "bread_ok E t ?b" using blk device_readable(3) [OF assms(1)] by blast
    let ?s1 = "s\<lparr>tick := t + 1, refs := (refs s)(?b := refs s ?b + 1)\<rparr>"
    obtain t' v where get: "yaf_iget E sb (ucast ?ino) ?s1 = Run (Inr (ucast ?ino))
        (?s1\<lparr>icache := (icache s)(ucast ?ino := Some (fill_inode (dinode_at sb ?s1 (ucast ?ino)) v)),
             tick := t'\<rparr>)"
      using iget_any_run [OF assms(1), of "ucast ?ino" ?s1] assms(5) [OF map] by auto
    have dino: "dinode_at sb ?s1 (ucast ?ino) = dinode_at sb s (ucast ?ino)" by (simp add: dinode_at_def)
    show ?thesis
      using look Some map blk ok get assms(2,3) unfolding dino
      by (cases "dir = ucast ?ino")
        (simp_all add: yaf_lookup_def lookup_out_def yaf_exec iblock_def slot_offset dslot_ino dir_wfD,
          blast)
  qed
qed

section \<open>Reserving an entry\<close>

text \<open>The data blocks of the directory are marked used in the data bitmap.\<close>

definition blocks_marked :: "Yaf_Sb_Info \<Rightarrow> kst \<Rightarrow> Yaf_Inode_Info \<Rightarrow> bool" where
  "blocks_marked sb s d \<longleftrightarrow> (\<forall>j<YAF_IBLOCKS. DENTRYS_PER_BLOCK * j < nslots d \<longrightarrow>
     unat (i_block d ! j) \<in> used_bits (disk s (BID_DBP_MIN sb)))"

text \<open>The next data block the allocator hands out is a block of the device.\<close>

definition dblock_available :: "Yaf_Sb_Info \<Rightarrow> kst \<Rightarrow> bool" where
  "dblock_available sb s \<longleftrightarrow> used_bits (disk s (BID_DBP_MIN sb)) \<noteq> {..<BITS_PER_BLOCK} \<and>
     alloc_result (disk s (BID_DBP_MIN sb)) < nr_d sb"

lemma grow_wf:
  assumes wf: "dir_wf sb d" and n: "nslots d < 1024" and dno: "dno < nr_d sb"
    and same: "nslots d mod 128 \<noteq> 0 \<Longrightarrow> dno = i_block d ! (nslots d div 128)"
    and new: "\<And>j. nslots d mod 128 = 0 \<Longrightarrow> j < 8 \<Longrightarrow> 128 * j < nslots d \<Longrightarrow> i_block d ! j \<noteq> dno"
    and d': "i_block d' = (i_block d)[nslots d div 128 := dno]" "i_size d' = 32 * nslots d + 32"
  shows "dir_wf sb d' \<and> nslots d' = Suc (nslots d)"
proof -
  let ?n = "nslots d"
  have n': "nslots d' = Suc ?n" using d'(2) by (simp add: nslots_def)
  have cur: "i_block d' ! j = (if j = ?n div 128 then dno else i_block d ! j)" if "j < 8" for j
    using that d'(1) dir_wfD(3) [OF wf] by simp
  have below: "128 * j < Suc ?n \<longleftrightarrow> 128 * j < ?n \<or> j = ?n div 128" for j
  proof -
    have "128 * j = ?n \<Longrightarrow> j = ?n div 128" by simp
    moreover have "128 * (?n div 128) \<le> ?n" by simp
    ultimately show ?thesis by (metis less_Suc_eq less_Suc_eq_le)
  qed
  have inside: "128 * (?n div 128) < ?n" if "?n mod 128 \<noteq> 0"
    using that mult_div_mod_eq [of 128 ?n] by linarith
  have fresh: "i_block d ! j \<noteq> dno" if "j < 8" "128 * j < ?n" "j \<noteq> ?n div 128" for j
  proof (cases "?n mod 128 = 0")
    case True
    from new [OF this that(1,2)] show ?thesis .
  next
    case False
    have "?n div 128 < 8" using n by simp
    with False that same inside dir_wfD(6) [OF wf, of j "?n div 128"] show ?thesis by auto
  qed
  have used: "i_block d' ! j < nr_d sb" if "j < 8" "128 * j < Suc ?n" for j
    using that dno cur [of j] dir_wfD(4) [OF wf, of j] below [of j] by auto
  have unused: "i_block d' ! j = RESERVED_DNO" if "j < 8" "\<not> 128 * j < Suc ?n" for j
    using that cur [of j] dir_wfD(5) [OF wf, of j] below [of j] by auto
  have inj: "i = j" if "i < 8" "j < 8" "128 * i < Suc ?n" "128 * j < Suc ?n"
      "i_block d' ! i = i_block d' ! j" for i j
    using that cur [of i] cur [of j] below [of i] below [of j] fresh [of i] fresh [of j]
      dir_wfD(6) [OF wf, of i j] by (auto split: if_splits)
  have "dir_wf sb d'"
    unfolding dir_wf_def n' layout_consts
  proof (intro conjI allI impI)
    show "i_size d' = 32 * Suc ?n" "Suc ?n \<le> 1024" using n d'(2) by simp_all
    show "length (i_block d') = 8" using d'(1) dir_wfD(3) [OF wf] by simp
  qed (use used unused inj in \<open>simp_all split: if_split\<close>)
  with n' show ?thesis by blast
qed

text \<open>
  How the block list of a directory may change: each entry is the old one or a block that was
  not marked used; what is marked used or dirty stays so, and at most one more block is marked used.
\<close>

definition grown :: "Yaf_Sb_Info \<Rightarrow> kst \<Rightarrow> Yaf_Inode_Info \<Rightarrow> kst \<Rightarrow> Yaf_Inode_Info \<Rightarrow> bool" where
  "grown sb s d s' d' \<longleftrightarrow>
     (\<forall>j<YAF_IBLOCKS. i_block d' ! j = i_block d ! j \<or>
        unat (i_block d' ! j) \<notin> used_bits (disk s (BID_DBP_MIN sb))) \<and>
     used_bits (disk s (BID_DBP_MIN sb)) \<subseteq> used_bits (disk s' (BID_DBP_MIN sb)) \<and>
     (\<exists>x. used_bits (disk s' (BID_DBP_MIN sb)) \<subseteq> insert x (used_bits (disk s (BID_DBP_MIN sb)))) \<and>
     idirty s \<subseteq> idirty s'"

text \<open>
  What a successful \<open>yaf_get_free_dentry\<close> at slot \<open>k\<close> leaves behind: the directory inode
  \<open>d'\<close>, whose slots are those of \<open>d\<close> and, if \<open>k\<close> is a new one, slot \<open>k\<close>, which is unused.
\<close>

definition reserved :: "Yaf_Sb_Info \<Rightarrow> u64 \<Rightarrow> kst \<Rightarrow> Yaf_Inode_Info \<Rightarrow> kst \<Rightarrow> Yaf_Inode_Info \<Rightarrow> nat \<Rightarrow> bool" where
  "reserved sb dir s d s' d' k \<longleftrightarrow>
     icache s' = (icache s)(dir := Some d') \<and> dir_wf sb d' \<and> blocks_marked sb s' d' \<and>
     k < nslots d' \<and> nslots d \<le> nslots d' \<and>
     (k < nslots d \<longrightarrow> d_ino (dslot sb s d k) = RESERVED_INO) \<and>
     d_ino (dslot sb s' d' k) = RESERVED_INO \<and>
     (\<forall>j<nslots d. dslot sb s' d' j = dslot sb s d j) \<and>
     (\<forall>j<nslots d'. nslots d \<le> j \<longrightarrow> j = k) \<and>
     i_nlink d' = i_nlink d \<and> i_mode d' = i_mode d \<and>
     (\<forall>b. b \<noteq> BID_DBP_MIN sb \<longrightarrow> b \<noteq> DNO2BID sb (i_block d' ! (k div 128)) \<longrightarrow> disk s' b = disk s b) \<and>
     refs s' = refs s \<and> inew s' = inew s \<and> dcache s' = dcache s \<and> changes_marked s s' \<and>
     grown sb s d s' d'"

lemma DNO2BID_sections [simp]:
  assumes "sb_ok sb"
  shows "DNO2BID sb dno \<noteq> BID_IBP_MIN sb" "DNO2BID sb dno \<noteq> BID_DBP_MIN sb"
    "BID_IBP_MIN sb \<noteq> DNO2BID sb dno" "BID_DBP_MIN sb \<noteq> DNO2BID sb dno"
    "BID_IBP_MIN sb \<noteq> BID_DBP_MIN sb" "BID_DBP_MIN sb \<noteq> BID_IBP_MIN sb"
proof -
  have pos: "0 < unat (nr_ibp sb)" "0 < unat (nr_dbp sb)"
    using assms by (simp_all add: sb_ok_def word_less_nat_alt)
  have "unat (DNO2BID sb dno) \<noteq> unat (BID_IBP_MIN sb)" "unat (DNO2BID sb dno) \<noteq> unat (BID_DBP_MIN sb)"
    "unat (BID_IBP_MIN sb) \<noteq> unat (BID_DBP_MIN sb)"
    unfolding unat_DNO2BID unat_BID(1,2) using pos by linarith+
  then show "DNO2BID sb dno \<noteq> BID_IBP_MIN sb" "DNO2BID sb dno \<noteq> BID_DBP_MIN sb"
    "BID_IBP_MIN sb \<noteq> DNO2BID sb dno" "BID_DBP_MIN sb \<noteq> DNO2BID sb dno"
    "BID_IBP_MIN sb \<noteq> BID_DBP_MIN sb" "BID_DBP_MIN sb \<noteq> BID_IBP_MIN sb"
    by metis+
qed

text \<open>A change of the block under slot \<open>k\<close> that leaves its other entries alone.\<close>

lemma dslot_change:
  assumes wf: "dir_wf sb d" and jk: "j < nslots d" "k < nslots d"
    and disk: "disk s' (DNO2BID sb (i_block d ! (j div 128))) =
      ((disk s)(DNO2BID sb (i_block d ! (k div 128)) := blk')) (DNO2BID sb (i_block d ! (j div 128)))"
    and others: "\<And>i. i < 128 \<Longrightarrow> i \<noteq> k mod 128 \<Longrightarrow>
      dentry_load blk' (32 * i) = dentry_load (disk s (DNO2BID sb (i_block d ! (k div 128)))) (32 * i)"
  shows "dslot sb s' d j = (if j = k then dentry_load blk' (32 * (k mod 128)) else dslot sb s d j)"
proof (cases "j div 128 = k div 128")
  case True
  have "j = k \<longleftrightarrow> j mod 128 = k mod 128" using True by (metis mult_div_mod_eq)
  with True disk others [of "j mod 128"] show ?thesis by (simp add: dslot_def)
next
  case False
  have "128 * (j div 128) < nslots d" "128 * (k div 128) < nslots d" using jk by auto
  with False dir_wfD(6) [OF wf, of "j div 128" "k div 128"] slot_block [OF wf jk(1)] slot_block [OF wf jk(2)]
  have "i_block d ! (j div 128) \<noteq> i_block d ! (k div 128)" by blast
  with disk False show ?thesis by (auto simp: dslot_def)
qed

lemma clear_others:
  "i \<noteq> m \<Longrightarrow> dentry_load (le32_store (32 * m) v blk) (32 * i) = dentry_load blk (32 * i)"
  by (rule dentry_load_clear_apart) (use dentry.slot_apart [of i m] in auto)

lemma append_run:
  assumes dev: "device_ok E sb" and d: "icache s dir = Some d" and k: "k < 1024"
    and len: "length (i_block d) = 8" and dno: "i_block d ! (k div 128) < nr_d sb"
  shows "append_dentry E sb dir (32 * k) s = Run (int (32 * k))
    (s\<lparr>disk := (disk s)(DNO2BID sb (i_block d ! (k div 128)) :=
         le32_store (32 * (k mod 128)) RESERVED_INO (disk s (DNO2BID sb (i_block d ! (k div 128))))),
       bdirty := insert (DNO2BID sb (i_block d ! (k div 128))) (bdirty s),
       icache := (icache s)(dir := Some (set_times (now E (tick s + 1)) (d\<lparr>i_size := 32 * k + 32\<rparr>))),
       idirty := insert dir (idirty s), tick := tick s + 1\<rparr>)"
proof -
  have "k div 128 < 8" using k by simp
  with assms device_readable(3) [OF dev dno] show ?thesis
    by (simp add: append_dentry_def iblock_def yaf_exec slot_offset)
qed


text \<open>
  The block list with the block of the new entry: nothing changes for the old entries, and the
  blocks under the entries are marked again.
\<close>

lemma append_same_block:
  assumes "j < n" and "length ib = 8" and "n div 128 < 8" and "n mod 128 \<noteq> 0 \<Longrightarrow> dno = ib ! (n div 128)"
  shows "ib[n div 128 := dno] ! (j div 128) = ib ! (j div 128)"
proof (cases "j div 128 = n div 128")
  case True
  have "n mod 128 \<noteq> 0"
  proof
    assume "n mod 128 = 0"
    then have "n = 128 * (n div 128)" by (metis mult_div_mod_eq add_0_right)
    with True \<open>j < n\<close> show False by (metis mult_div_mod_eq le_add1 not_less)
  qed
  with True assms show ?thesis by simp
qed simp

lemma append_marked:
  assumes "blocks_marked sb s d" and "nslots d' = Suc (nslots d)" and "length (i_block d) = 8"
    and "i_block d' = (i_block d)[nslots d div 128 := dno]"
    and "used_bits (disk s (BID_DBP_MIN sb)) \<subseteq> used_bits (disk s' (BID_DBP_MIN sb))"
    and "unat dno \<in> used_bits (disk s' (BID_DBP_MIN sb))"
  shows "blocks_marked sb s' d'"
  unfolding blocks_marked_def assms(2) layout_consts
proof (intro allI impI)
  fix j :: nat assume j: "j < 8" "128 * j < Suc (nslots d)"
  show "unat (i_block d' ! j) \<in> used_bits (disk s' (BID_DBP_MIN sb))"
  proof (cases "j = nslots d div 128")
    case True
    then show ?thesis using assms(3,4,6) j(1) by simp
  next
    case False
    then have "128 * j < nslots d" using j by (metis div_mult_self1_is_m less_SucE zero_less_numeral)
    then show ?thesis using False j(1) assms(1,4,5) by (auto simp: blocks_marked_def)
  qed
qed

lemma append_reserved:
  assumes sb: "sb_ok sb" and dev: "device_ok E sb" and wf: "dir_wf sb d" and n: "nslots d < 1024"
    and dno: "dno < nr_d sb" "unat dno \<in> used_bits (disk s1 (BID_DBP_MIN sb))"
    and same: "nslots d mod 128 \<noteq> 0 \<Longrightarrow> dno = i_block d ! (nslots d div 128)"
    and fresh: "nslots d mod 128 = 0 \<Longrightarrow> unat dno \<notin> used_bits (disk s (BID_DBP_MIN sb))"
    and marked: "blocks_marked sb s d"
      "used_bits (disk s (BID_DBP_MIN sb)) \<subseteq> used_bits (disk s1 (BID_DBP_MIN sb))"
      "used_bits (disk s1 (BID_DBP_MIN sb)) \<subseteq> insert x (used_bits (disk s (BID_DBP_MIN sb)))"
    and s1: "icache s1 = (icache s)(dir := Some d1)" "\<And>b. b \<noteq> BID_DBP_MIN sb \<Longrightarrow> disk s1 b = disk s b"
      "refs s1 = refs s" "inew s1 = inew s" "dcache s1 = dcache s" "changes_marked s s1" "idirty s \<subseteq> idirty s1"
    and d1: "i_size d1 = i_size d" "i_nlink d1 = i_nlink d" "i_mode d1 = i_mode d"
      "i_block d1 = (i_block d)[nslots d div 128 := dno]"
  shows "\<exists>s' d'. append_dentry E sb dir (32 * nslots d) s1 = Run (int (32 * nslots d)) s' \<and>
    reserved sb dir s d s' d' (nslots d)"
proof -
  let ?n = "nslots d"
  let ?b = "DNO2BID sb dno"
  let ?d' = "set_times (now E (tick s1 + 1)) (d1\<lparr>i_size := 32 * ?n + 32\<rparr>)"
  let ?s' = "s1\<lparr>disk := (disk s1)(?b := le32_store (32 * (?n mod 128)) RESERVED_INO (disk s1 ?b)),
       bdirty := insert ?b (bdirty s1), icache := (icache s1)(dir := Some ?d'),
       idirty := insert dir (idirty s1), tick := tick s1 + 1\<rparr>"
  have len: "length (i_block d) = 8" "?n div 128 < 8" using dir_wfD(3) [OF wf] n by simp_all
  have cur: "i_block d1 ! (?n div 128) = dno" using d1(4) len by simp
  have run: "append_dentry E sb dir (32 * ?n) s1 = Run (int (32 * ?n)) ?s'"
    using append_run [OF dev, of s1 dir d1 ?n] s1(1) n len d1(4) dno(1) cur by simp
  have new: "i_block d ! j \<noteq> dno" if "?n mod 128 = 0" "j < 8" "128 * j < ?n" for j
    using fresh [OF that(1)] marked(1) that(2,3) by (auto simp: blocks_marked_def)
  have wf': "dir_wf sb ?d'" and n': "nslots ?d' = Suc ?n"
    using grow_wf [OF wf n dno(1) same new, of ?d'] d1(4) by simp_all
  have bid: "?b \<noteq> BID_DBP_MIN sb" using sb by simp
  have slot: "dslot sb ?s' ?d' j = (if j = ?n then dentry_load
      (le32_store (32 * (?n mod 128)) RESERVED_INO (disk s1 ?b)) (32 * (?n mod 128)) else dslot sb s1 ?d' j)"
    if "j < Suc ?n" for j
    by (rule dslot_change [OF wf']) (use that n' cur clear_others in auto)
  have old: "dslot sb s1 ?d' j = dslot sb s d j" if "j < ?n" for j
    using append_same_block [OF that len same] d1(4) s1(2) sb by (simp add: dslot_def)
  have "blocks_marked sb ?s' ?d'"
    by (rule append_marked [OF marked(1) n' len(1), of dno]) (use d1(4) marked(2) dno(2) bid in simp_all)
  moreover have "changes_marked s ?s'"
    using s1(6) by (rule changes_marked_trans) (auto simp: changes_marked_def)
  moreover have "i_block ?d' ! j = i_block d ! j \<or> unat (i_block ?d' ! j) \<notin> used_bits (disk s (BID_DBP_MIN sb))"
    for j
    using same fresh d1(4) len by (cases "j = ?n div 128"; cases "?n mod 128 = 0") auto
  then have "grown sb s d ?s' ?d'"
    using marked(2,3) bid s1(7) by (auto simp: grown_def)
  ultimately have "reserved sb dir s d ?s' ?d' ?n"
    unfolding reserved_def n'
    using wf' slot old n n' cur s1 d1 by (auto simp: dentry_load_clear)
  with run show ?thesis by blast
qed


lemma free_search_run:
  assumes "device_ok E sb" and "dir_wf sb d"
  shows "\<exists>t. dir_search E sb free_entry (i_block d) (i_size d) 0 s =
    Run (case first_idx (\<lambda>k. d_ino (dslot sb s d k) = RESERVED_INO) (nslots d) of
           Some k \<Rightarrow> Found (32 * k) | None \<Rightarrow> Missing (32 * nslots d)) (s\<lparr>tick := t\<rparr>)"
  using search_run [OF assms, of free_entry s] unfolding slot_free by simp

lemma free_dentry_reuse:
  assumes "device_ok E sb" and "dir_wf sb d" and "blocks_marked sb s d" and "icache s dir = Some d"
    and dead: "first_idx (\<lambda>k. d_ino (dslot sb s d k) = RESERVED_INO) (nslots d) = Some k"
  shows "\<exists>s'. yaf_get_free_dentry E sb dir s = Run (int (32 * k)) s' \<and> reserved sb dir s d s' d k"
proof -
  obtain t where "dir_search E sb free_entry (i_block d) (i_size d) 0 s =
      Run (Found (32 * k)) (s\<lparr>tick := t\<rparr>)"
    using free_search_run [OF assms(1,2), of s] dead by auto
  moreover have "k < nslots d" "d_ino (dslot sb s d k) = RESERVED_INO"
    using dead by (auto simp: first_idx_Some)
  ultimately show ?thesis
    using assms by (intro exI [of _ "s\<lparr>tick := t\<rparr>"])
      (simp add: yaf_get_free_dentry_def yaf_exec reserved_def fun_upd_idem dslot_def blocks_marked_def
        changes_marked_def grown_def subset_insertI)
qed

lemma free_dentry_append:
  assumes dev: "sb_ok sb" "device_ok E sb" and wf: "dir_wf sb d" and m: "blocks_marked sb s d"
    and d: "icache s dir = Some d"
    and live: "first_idx (\<lambda>k. d_ino (dslot sb s d k) = RESERVED_INO) (nslots d) = None"
    and n: "nslots d < 1024" "nslots d mod 128 \<noteq> 0"
  shows "\<exists>s' d'. yaf_get_free_dentry E sb dir s = Run (int (32 * nslots d)) s' \<and>
    reserved sb dir s d s' d' (nslots d)"
proof -
  let ?n = "nslots d" and ?dno = "i_block d ! (nslots d div 128)"
  obtain t where "dir_search E sb free_entry (i_block d) (i_size d) 0 s =
      Run (Missing (32 * ?n)) (s\<lparr>tick := t\<rparr>)"
    using free_search_run [OF dev(2) wf, of s] live by auto
  then have eq: "yaf_get_free_dentry E sb dir s = append_dentry E sb dir (32 * ?n) (s\<lparr>tick := t\<rparr>)"
    using d n dir_wfD(1) [OF wf] by (simp add: yaf_get_free_dentry_def yaf_exec slot_offset)
  have "128 * (?n div 128) < ?n" using n(2) mult_div_mod_eq [of 128 ?n] by linarith
  moreover have "?n div 128 < 8" using n(1) by simp
  ultimately have "?dno < nr_d sb" "unat ?dno \<in> used_bits (disk s (BID_DBP_MIN sb))"
    using dir_wfD(4) [OF wf] m by (auto simp: blocks_marked_def)
  then show ?thesis
    unfolding eq using dev wf m d n
    by (intro append_reserved [of sb E d "?dno" "s\<lparr>tick := t\<rparr>" s 0 dir d])
      (simp_all add: fun_upd_idem changes_marked_def subset_insertI)
qed

lemma free_dentry_grow:
  assumes dev: "sb_ok sb" "device_ok E sb" and wf: "dir_wf sb d" and m: "blocks_marked sb s d"
    and d: "icache s dir = Some d"
    and live: "first_idx (\<lambda>k. d_ino (dslot sb s d k) = RESERVED_INO) (nslots d) = None"
    and n: "nslots d < 1024" "nslots d mod 128 = 0" and avail: "dblock_available sb s"
  shows "\<exists>s' d'. yaf_get_free_dentry E sb dir s = Run (int (32 * nslots d)) s' \<and>
    reserved sb dir s d s' d' (nslots d)"
proof -
  let ?n = "nslots d" and ?b = "BID_DBP_MIN sb"
  let ?dno = "alloc_result (disk s ?b)"
  obtain t where search: "dir_search E sb free_entry (i_block d) (i_size d) 0 s =
      Run (Missing (32 * ?n)) (s\<lparr>tick := t\<rparr>)"
    using free_search_run [OF dev(2) wf, of s] live by auto
  obtain k where k: "?dno = of_nat k" "unat ?dno = k" "alloc_block (disk s ?b) = mark_bit k (disk s ?b)"
      "k < BITS_PER_BLOCK" "k \<notin> used_bits (disk s ?b)"
    using alloc_run_cases(1) avail unfolding dblock_available_def by blast
  have dno: "?dno < nr_d sb" "?dno \<noteq> RESERVED_DNO"
    using avail k(2,4) by (auto simp: dblock_available_def)
  have len: "?n div 128 < 8" "length (i_block d) = 8" using n(1) dir_wfD(3) [OF wf] by simp_all
  have "\<not> 128 * (?n div 128) < ?n" using n(2) mult_div_mod_eq [of 128 ?n] by linarith
  then have old: "i_block d ! (?n div 128) = RESERVED_DNO" using dir_wfD(5) [OF wf] len by simp
  obtain s1 where s1: "yaf_get_free_dblock E sb (s\<lparr>tick := t\<rparr>) = Run ?dno s1"
      "icache s1 = icache s" "disk s1 = (disk s)(?b := mark_bit k (disk s ?b))" "refs s1 = refs s"
      "inew s1 = inew s" "dcache s1 = dcache s" "changes_marked s s1" "idirty s1 = idirty s"
  proof
    show "yaf_get_free_dblock E sb (s\<lparr>tick := t\<rparr>) = Run ?dno
      (s\<lparr>disk := (disk s)(?b := mark_bit k (disk s ?b)), bdirty := insert ?b (bdirty s),
         loose := (if refs s ?b = 0 then insert ?b (loose s) else loose s), tick := t + 1\<rparr>)"
      using get_free_dblock_run [of sb E "s\<lparr>tick := t\<rparr>"] dev device_readable(2) [OF dev(2)] k(3) by simp
  qed (auto simp: changes_marked_def)
  let ?d1 = "d\<lparr>i_block := (i_block d)[?n div 128 := ?dno]\<rparr>"
  let ?s2 = "s1\<lparr>icache := (icache s)(dir := Some ?d1)\<rparr>"
  have eq: "yaf_get_free_dentry E sb dir s = append_dentry E sb dir (32 * ?n) ?s2"
    using d n(1) search s1(1,2) dno old len dir_wfD(1) [OF wf] n(2)
    by (simp add: yaf_get_free_dentry_def yaf_exec slot_offset iblock_def)
  have marks: "used_bits (mark_bit k (disk s ?b)) = insert k (used_bits (disk s ?b))"
    using k(4) by (auto simp: used_bits_def)
  have "unat ?dno \<notin> used_bits (disk s ?b)" using k(2,5) by simp
  then show ?thesis
    unfolding eq using dev wf m n dno(1) s1 k(2) marks
    by (intro append_reserved [of sb E d ?dno ?s2 s k dir ?d1])
      (auto simp: changes_marked_def)
qed

text \<open>The three ways in which \<open>yaf_get_free_dentry\<close> finds room.\<close>

lemma free_dentry_run:
  assumes "sb_ok sb" and "device_ok E sb" and "dir_wf sb d" and "blocks_marked sb s d"
    and "icache s dir = Some d" and "dblock_available sb s"
    and room: "nslots d < 1024 \<or> (\<exists>k<nslots d. d_ino (dslot sb s d k) = RESERVED_INO)"
  shows "\<exists>s' d' k. yaf_get_free_dentry E sb dir s = Run (int (32 * k)) s' \<and> reserved sb dir s d s' d' k"
proof (cases "first_idx (\<lambda>k. d_ino (dslot sb s d k) = RESERVED_INO) (nslots d)")
  case None
  with room have "nslots d < 1024" by (auto simp: first_idx_None)
  with None show ?thesis
    using free_dentry_append [OF assms(1-5)] free_dentry_grow [OF assms(1-5) _ _ _ assms(6)] by blast
next
  case (Some k)
  then show ?thesis using free_dentry_reuse [OF assms(2-5)] by blast
qed

lemma free_dentry_full:
  assumes "device_ok E sb" and "dir_wf sb d" and "icache s dir = Some d" and "nslots d = 1024"
    and "\<forall>k<nslots d. d_ino (dslot sb s d k) \<noteq> RESERVED_INO"
  shows "\<exists>t. yaf_get_free_dentry E sb dir s = Run (- ENOSPC) (s\<lparr>tick := t\<rparr>)"
proof -
  have "first_idx (\<lambda>k. d_ino (dslot sb s d k) = RESERVED_INO) (nslots d) = None"
    using assms(5) by (simp add: first_idx_None)
  then obtain t where "dir_search E sb free_entry (i_block d) (i_size d) 0 s =
      Run (Missing (32 * nslots d)) (s\<lparr>tick := t\<rparr>)"
    using free_search_run [OF assms(1,2), of s] by auto
  then show ?thesis
    using assms(3,4) dir_wfD(1) [OF assms(2)]
    by (intro exI [of _ t]) (simp add: yaf_get_free_dentry_def yaf_exec)
qed

end
