(* ===== verification/Yaf_DirCreate.thy ===== *)
theory Yaf_DirCreate
  imports Yaf_DirOps
begin

text \<open>
  Creating files and directories: what \<open>_yaf_create\<close> does to the map of names of the parent,
  to the bitmaps and to the inode cache when it succeeds, and what it answers when it does
  not.
\<close>

section \<open>The entry written\<close>

text \<open>An inode number is there to be handed out: the least unused one is in the inode table.\<close>

definition inode_available :: "Yaf_Sb_Info \<Rightarrow> kst \<Rightarrow> nat \<Rightarrow> bool" where
  "inode_available sb s ino \<longleftrightarrow>
     used_bits (disk s (BID_IBP_MIN sb)) \<noteq> {..<BITS_PER_BLOCK} \<and>
     unat (alloc_result (disk s (BID_IBP_MIN sb))) = ino \<and> 0 < ino \<and> ino_ok sb (of_nat ino) \<and>
     of_nat ino \<notin> inew s \<and> icache s (of_nat ino) = None"

lemma dir_same_shape:
  assumes "i_block d' = i_block d" and "i_size d' = i_size d"
  shows "nslots d' = nslots d" "dslot sb s d' = dslot sb s d" "dir_wf sb d' = dir_wf sb d"
    "blocks_marked sb s d' = blocks_marked sb s d"
  using assms by (simp_all add: nslots_def dslot_def dir_wf_def blocks_marked_def fun_eq_iff)

definition new_entry :: "name \<Rightarrow> nat \<Rightarrow> Yaf_Dentry" where
  "new_entry nm ino = \<lparr>d_ino = of_nat ino, d_name_len = of_nat (length nm), d_name = nm\<rparr>"

lemma fill_slot:
  assumes wf: "dir_wf sb d" and jk: "j < nslots d" "k < nslots d" and e: "dentry_valid e"
    and disk: "disk s' (DNO2BID sb (i_block d ! (j div 128))) =
      ((disk s)(DNO2BID sb (i_block d ! (k div 128)) :=
         dentry_store (32 * (k mod 128)) e (disk s (DNO2BID sb (i_block d ! (k div 128))))))
      (DNO2BID sb (i_block d ! (j div 128)))"
  shows "dslot sb s' d j = (if j = k then e else dslot sb s d j)"
proof -
  let ?blk = "disk s (DNO2BID sb (i_block d ! (k div 128)))"
  have "dentry_load (dentry_store (32 * (k mod 128)) e ?blk) (32 * i) =
      (if i = k mod 128 then e else dentry_load ?blk (32 * i))" for i
    using dentry.load_slot [OF e, of "k mod 128" ?blk i] by auto
  then show ?thesis using dslot_change [OF wf jk disk] by simp
qed

lemma do_create_run:
  assumes sb: "sb_ok sb" and dev: "device_ok E sb" and wf: "dir_wf sb d1"
    and d1: "icache s1 dir = Some d1" and k: "k < nslots d1" and nm: "valid_name nm"
    and ino: "inode_available sb s1 ino"
    and free: "yaf_get_free_dentry E sb dir s = Run (int (32 * k)) s1"
  shows "\<exists>s' t t' w. do_yaf_create E sb dir nm mode s = Run 0 s' \<and>
    disk s' = (disk s1)(BID_IBP_MIN sb := mark_bit ino (disk s1 (BID_IBP_MIN sb)),
      DNO2BID sb (i_block d1 ! (k div 128)) := dentry_store (32 * (k mod 128)) (new_entry nm ino)
        (disk s1 (DNO2BID sb (i_block d1 ! (k div 128))))) \<and>
    icache s' = (icache s1)(of_nat ino := Some (init_new_inode E d1 mode (now E t) w),
      dir := Some (inc_nlink (set_times t' d1))) \<and>
    dcache s' = (dcache s1)((dir, nm) := Some (Some (of_nat ino))) \<and>
    refs s' = refs s1 \<and> inew s' = inew s1 \<and> changes_marked s1 s' \<and> {dir, of_nat ino} \<subseteq> idirty s' \<and>
    idirty s1 \<subseteq> idirty s'"
proof -
  let ?dno = "i_block d1 ! (k div 128)" and ?b = "DNO2BID sb (i_block d1 ! (k div 128))"
    and ?i = "BID_IBP_MIN sb"
  have k': "k < 1024" "k div 128 < 8" "?dno < nr_d sb" "length (i_block d1) = 8"
    using slot_block [OF wf k] dir_wfD(2,3) [OF wf] k by auto
  have doff: "unat (of_int (int (32 * k)) :: u64) = 32 * k"
    using k'(1) by (simp add: unat_of_nat del: of_nat_mult)
  have ok: "\<forall>n. bread_ok E n ?b" "\<forall>n. bread_ok E n ?i" "\<forall>n. bread_ok E n (INO2BID sb (of_nat ino))"
    "\<forall>n. iget_ok E n (of_nat ino)"
    using device_readable [OF dev] sb k'(3) ino by (auto simp: inode_available_def)
  let ?s2 = "s1\<lparr>tick := tick s1 + 1, refs := (refs s1)(?b := refs s1 ?b + 1)\<rparr>"
  obtain t w u where new: "yaf_new_inode E sb dir mode ?s2 = Run (Inr (of_nat ino))
    (?s2\<lparr>disk := (disk s1)(?i := mark_bit ino (disk s1 ?i)), bdirty := insert ?i (bdirty s1),
       icache := (icache s1)(of_nat ino := Some (init_new_inode E d1 mode (now E t) w)),
       idirty := insert (of_nat ino) (idirty s1), tick := u\<rparr>)"
    using new_inode_run [of sb E ino ?s2 dir d1 mode] sb ok ino d1 by (auto simp: inode_available_def)
  have apart: "dir \<noteq> of_nat ino" using ino d1 by (auto simp: inode_available_def)
  have "ino < BITS_PER_BLOCK" using ino alloc_run_cases(1) by (fastforce simp: inode_available_def)
  then have num: "ucast (of_nat ino :: u64) = (of_nat ino :: u32)"
    by (intro word_unatI) (simp add: unsigned_ucast_eq unat_of_nat unsigned_take_bit_eq take_bit_nat_eq_self)
  let ?s' = "s1\<lparr>disk := (disk s1)(?i := mark_bit ino (disk s1 ?i),
        ?b := dentry_store (32 * (k mod 128)) (new_entry nm ino) (disk s1 ?b)),
      bdirty := insert ?b (insert ?i (bdirty s1)),
      icache := (icache s1)(of_nat ino := Some (init_new_inode E d1 mode (now E t) w),
        dir := Some (inc_nlink (set_times (now E u) d1))),
      idirty := insert dir (insert (of_nat ino) (idirty s1)),
      dcache := (dcache s1)((dir, nm) := Some (Some (of_nat ino))), tick := u\<rparr>"
  have "do_yaf_create E sb dir nm mode s = Run 0 ?s'"
    using nm free k' ok d1 new apart sb doff num
    by (simp add: do_yaf_create_def valid_name_def yaf_exec Let_def iblock_def slot_offset new_entry_def)
  moreover have "changes_marked s1 ?s'" by (auto simp: changes_marked_def)
  ultimately show ?thesis
    by (intro exI [of _ ?s'] exI [of _ t] exI [of _ "now E u"] exI [of _ w])
      (simp add: subset_insertI subset_insertI2)
qed

section \<open>The directory as a map\<close>

text \<open>
  The invariant of a directory: it is well formed, its blocks are marked used in the data
  bitmap, no two live entries have the same name, the link count is one more than the number
  of live entries (the driver counts files too), and the length stored with a name is its
  length.
\<close>

definition dir_inv :: "Yaf_Sb_Info \<Rightarrow> kst \<Rightarrow> Yaf_Inode_Info \<Rightarrow> bool" where
  "dir_inv sb s d \<longleftrightarrow> dir_wf sb d \<and> blocks_marked sb s d \<and>
     names_unique (dslot sb s d) (nslots d) \<and> unat (i_nlink d) = Suc (live_count (dslot sb s d) (nslots d)) \<and>
     lengths_ok (dslot sb s d) (nslots d)"

lemma unat_count: "n \<le> 1024 \<Longrightarrow> unat (l :: u32) = Suc n \<Longrightarrow> unat (l + 1) = Suc (Suc n)"
  "unat l = Suc (Suc n) \<Longrightarrow> unat (l - 1) = Suc n"
proof -
  assume "n \<le> 1024" "unat l = Suc n"
  then show "unat (l + 1) = Suc (Suc n)" by (simp add: unat_word_ariths)
next
  assume "unat l = Suc (Suc n)"
  moreover from this have "l \<noteq> 0" by auto
  ultimately show "unat (l - 1) = Suc n" by (simp add: unat_minus_one)
qed

definition has_room :: "Yaf_Sb_Info \<Rightarrow> kst \<Rightarrow> Yaf_Inode_Info \<Rightarrow> bool" where
  "has_room sb s d \<longleftrightarrow>
     nslots d < MAX_DENTRYS \<or> (\<exists>k<nslots d. d_ino (dslot sb s d k) = RESERVED_INO)"

text \<open>
  The effect of a reservation followed by the store of the entry, on the slots, the map and
  the invariant of the directory.
\<close>

text \<open>The slots of a directory once the reserved entry is filled.\<close>

lemma filled_slots:
  assumes sb: "sb_ok sb" and res: "reserved sb dir s d s1 d1 k" and nm: "valid_name nm"
    and disk: "disk s2 = (disk s1)(BID_IBP_MIN sb := blk, DNO2BID sb (i_block d1 ! (k div 128)) :=
        dentry_store (32 * (k mod 128)) (new_entry nm ino) (disk s1 (DNO2BID sb (i_block d1 ! (k div 128)))))"
  shows "dslot sb s2 d1 k = \<lparr>d_ino = of_nat ino, d_name_len = of_nat (length nm), d_name = nm\<rparr>"
    and "j < nslots d \<Longrightarrow> j \<noteq> k \<Longrightarrow> dslot sb s2 d1 j = dslot sb s d j"
    and "nslots d \<le> j \<Longrightarrow> j < nslots d1 \<Longrightarrow> j \<noteq> k \<Longrightarrow> d_ino (dslot sb s2 d1 j) = RESERVED_INO"
proof -
  have r: "dir_wf sb d1" "k < nslots d1" "nslots d \<le> nslots d1"
      "\<And>j. j < nslots d \<Longrightarrow> dslot sb s1 d1 j = dslot sb s d j"
      "\<And>j. j < nslots d1 \<Longrightarrow> nslots d \<le> j \<Longrightarrow> j = k"
    using res unfolding reserved_def by blast+
  have valid: "dentry_valid (new_entry nm ino)"
    using nm by (simp add: dentry_valid_def new_entry_def)
  have slot: "dslot sb s2 d1 j = (if j = k then new_entry nm ino else dslot sb s1 d1 j)" if "j < nslots d1" for j
    by (rule fill_slot [OF r(1) that r(2) valid]) (use disk sb in auto)
  show "dslot sb s2 d1 k = \<lparr>d_ino = of_nat ino, d_name_len = of_nat (length nm), d_name = nm\<rparr>"
    using slot [OF r(2)] by (simp add: new_entry_def)
  show "dslot sb s2 d1 j = dslot sb s d j" if "j < nslots d" "j \<noteq> k"
    using slot [of j] r(3,4) that by simp
  show "d_ino (dslot sb s2 d1 j) = RESERVED_INO" if "nslots d \<le> j" "j < nslots d1" "j \<noteq> k"
    using r(5) that by blast
qed

lemma reserved_then_filled:
  assumes sb: "sb_ok sb" and inv: "dir_inv sb s d" and absent: "dir_map sb s d nm = None"
    and res: "reserved sb dir s d s1 d1 k" and nm: "valid_name nm" and ino: "0 < ino" "ino < BITS_PER_BLOCK"
    and d2: "i_block d2 = i_block d1" "i_size d2 = i_size d1" "i_nlink d2 = i_nlink d + 1"
    and disk: "disk s2 = (disk s1)(BID_IBP_MIN sb := blk, DNO2BID sb (i_block d1 ! (k div 128)) :=
        dentry_store (32 * (k mod 128)) (new_entry nm ino) (disk s1 (DNO2BID sb (i_block d1 ! (k div 128)))))"
  shows "dir_inv sb s2 d2 \<and> dir_map sb s2 d2 = (dir_map sb s d)(nm \<mapsto> of_nat ino)"
proof -
  have r: "dir_wf sb d1" "blocks_marked sb s1 d1" "k < nslots d1" "nslots d \<le> nslots d1"
      "k < nslots d \<Longrightarrow> d_ino (dslot sb s d k) = RESERVED_INO"
    using res unfolding reserved_def by blast+
  have nz: "(of_nat ino :: u32) \<noteq> RESERVED_INO"
  proof
    assume "(of_nat ino :: u32) = RESERVED_INO"
    then have "unat (of_nat ino :: u32) = 0" by (simp add: RESERVED_INO_def)
    with ino show False by (simp add: unat_of_nat_u32)
  qed
  let ?f = "dslot sb s d" and ?f' = "dslot sb s2 d1" and ?n = "nslots d" and ?n' = "nslots d1"
  note new = filled_slots(1) [OF sb res nm disk] and old = filled_slots(2) [OF sb res nm disk]
    and rest = filled_slots(3) [OF sb res nm disk]
  have none: "entry_map ?f ?n nm = None" using absent by (simp add: dir_map_def)
  have "entry_map ?f' ?n' = (entry_map ?f ?n)(nm \<mapsto> of_nat ino)"
    by (rule entry_map_insert [OF r(3,4) new nz r(5) old rest none])
  moreover have "names_unique ?f' ?n'"
    using inv by (intro names_unique_insert [OF _ r(3,4) new old rest none]) (simp_all add: dir_inv_def)
  moreover have "unat (i_nlink d2) = Suc (live_count ?f' ?n')"
  proof -
    have "d_ino (?f' k) \<noteq> RESERVED_INO" using new nz by simp
    then have "live_count ?f' ?n' = Suc (live_count ?f ?n)"
      by (intro live_count_fill [where k = k] r(3,4,5) old rest)
    moreover have "live_count ?f ?n \<le> 1024"
      using live_count_le [of ?f ?n] dir_wfD(2) [of sb d] inv by (simp add: dir_inv_def)
    ultimately show ?thesis using unat_count(1) d2(3) inv by (simp add: dir_inv_def)
  qed
  moreover have "lengths_ok ?f' ?n'"
  proof (rule lengths_ok_change [OF _ _ old rest])
    show "lengths_ok ?f ?n" using inv by (simp add: dir_inv_def)
    have "length nm < 2 ^ 32" using nm by (simp add: valid_name_def)
    then show "d_ino (?f' k) = RESERVED_INO \<or> unat (d_name_len (?f' k)) = length (d_name (?f' k))"
      using new by (simp add: unat_of_nat_u32)
  qed
  moreover have "disk s2 (BID_DBP_MIN sb) = disk s1 (BID_DBP_MIN sb)"
    using disk sb by simp
  then have "blocks_marked sb s2 d1" using r(2) by (simp add: blocks_marked_def)
  ultimately show ?thesis
    using dir_same_shape [OF d2(1,2)] r(1) by (simp add: dir_inv_def dir_map_def)
qed

lemma fresh_dir_inv:
  assumes "i_size v = 0" and "i_nlink v = 1" and "i_block v = replicate YAF_IBLOCKS RESERVED_DNO"
  shows "dir_inv sb s v" "dir_map sb s v = Map.empty"
proof -
  have n: "nslots v = 0" using assms(1) by (simp add: nslots_def)
  then show "dir_inv sb s v"
    using assms by (simp add: dir_inv_def dir_wf_def blocks_marked_def names_unique_def live_count_def
        lengths_ok_def)
  show "dir_map sb s v = Map.empty"
    unfolding dir_map_def entry_map_empty n by (simp add: live_count_def)
qed

lemma create_run:
  assumes "sb_ok sb" and "device_ok E sb" and "icache s dir = Some d" and "dir_inv sb s d"
    and "has_room sb s d" and "valid_name nm" and "dir_map sb s d nm = None"
    and "inode_available sb s ino" and "dblock_available sb s"
    and "op = yaf_create \<and> fmt = S_IFREG \<or> op = yaf_mkdir \<and> fmt = S_IFDIR"
  shows "\<exists>s' d' v b. op E sb dir nm mode s = Run 0 s' \<and>
    icache s' = (icache s)(dir := Some d', of_nat ino := Some v) \<and>
    dir_map sb s' d' = (dir_map sb s d)(nm \<mapsto> of_nat ino) \<and> dir_inv sb s' d' \<and>
    i_nlink d' = i_nlink d + 1 \<and> i_mode d' = i_mode d \<and>
    i_nlink v = 1 \<and> i_size v = 0 \<and> i_block v = replicate YAF_IBLOCKS RESERVED_DNO \<and>
    dir_inv sb s' v \<and> dir_map sb s' v = Map.empty \<and>
    (\<exists>d''. i_mode v = fst (init_owner E d'' (mode OR fmt))) \<and>
    used_bits (disk s' (BID_IBP_MIN sb)) = insert ino (used_bits (disk s (BID_IBP_MIN sb))) \<and>
    dcache s' = (dcache s)((dir, nm) := Some (Some (of_nat ino))) \<and> {dir, of_nat ino} \<subseteq> idirty s' \<and>
    (\<exists>j<YAF_IBLOCKS. b = DNO2BID sb (i_block d' ! j)) \<and>
    (\<forall>a. a \<notin> {BID_IBP_MIN sb, BID_DBP_MIN sb, b} \<longrightarrow> disk s' a = disk s a) \<and>
    refs s' = refs s \<and> inew s' = inew s \<and> changes_marked s s' \<and> grown sb s d s' d'"
proof -
  have op: "op E sb dir nm mode s = do_yaf_create E sb dir nm (mode OR fmt) s"
    using assms(10) by (auto simp: yaf_create_def yaf_mkdir_def)
  have wf: "dir_wf sb d" "blocks_marked sb s d" using assms(4) by (simp_all add: dir_inv_def)
  obtain s1 d1 k where free: "yaf_get_free_dentry E sb dir s = Run (int (32 * k)) s1"
      and res: "reserved sb dir s d s1 d1 k"
    using free_dentry_run [OF assms(1,2) wf assms(3,9)] assms(5) by (auto simp: has_room_def)
  have r: "icache s1 = (icache s)(dir := Some d1)" "dir_wf sb d1" "k < nslots d1"
      "i_nlink d1 = i_nlink d" "i_mode d1 = i_mode d" "refs s1 = refs s" "inew s1 = inew s"
      "dcache s1 = dcache s" "changes_marked s s1" "grown sb s d s1 d1"
      "\<And>b. b \<noteq> BID_DBP_MIN sb \<Longrightarrow> b \<noteq> DNO2BID sb (i_block d1 ! (k div 128)) \<Longrightarrow> disk s1 b = disk s b"
    using res unfolding reserved_def by blast+
  let ?i = "BID_IBP_MIN sb" and ?b = "DNO2BID sb (i_block d1 ! (k div 128))"
  have ibp: "disk s1 ?i = disk s ?i" using r(11) assms(1) by simp
  have apart: "dir \<noteq> of_nat ino" using assms(3,8) by (auto simp: inode_available_def)
  have avail: "inode_available sb s1 ino"
    using assms(8) ibp r(1,7) apart by (simp add: inode_available_def)
  have pos: "0 < ino" "ino < BITS_PER_BLOCK" "ino \<notin> used_bits (disk s ?i)"
    using assms(8) alloc_run_cases(1) by (fastforce simp: inode_available_def)+
  have d1: "icache s1 dir = Some d1" using r(1) by simp
  obtain s' t t' w where run: "do_yaf_create E sb dir nm (mode OR fmt) s = Run 0 s'"
    and disk: "disk s' = (disk s1)(?i := mark_bit ino (disk s1 ?i),
      ?b := dentry_store (32 * (k mod 128)) (new_entry nm ino) (disk s1 ?b))"
    and ic: "icache s' = (icache s1)(of_nat ino := Some (init_new_inode E d1 (mode OR fmt) (now E t) w),
      dir := Some (inc_nlink (set_times t' d1)))"
    and dc: "dcache s' = (dcache s1)((dir, nm) := Some (Some (of_nat ino)))"
    and rest: "refs s' = refs s1" "changes_marked s1 s'" "{dir, of_nat ino} \<subseteq> idirty s'" "inew s' = inew s1"
      "idirty s1 \<subseteq> idirty s'"
    using do_create_run [OF assms(1,2) r(2) d1 r(3) assms(6) avail free, of "mode OR fmt"]
    by (elim exE conjE) (rule that, assumption+)
  let ?d' = "inc_nlink (set_times t' d1)"
  have map: "dir_inv sb s' ?d' \<and> dir_map sb s' ?d' = (dir_map sb s d)(nm \<mapsto> of_nat ino)"
    by (rule reserved_then_filled [OF assms(1,4,7) res assms(6) pos(1,2) _ _ _ disk]) (simp_all add: r(4))
  let ?v = "init_new_inode E d1 (mode OR fmt) (now E t) w"
  have ic': "icache s' = (icache s)(dir := Some ?d', of_nat ino := Some ?v)"
    using ic r(1) apart by (simp add: fun_upd_twist)
  have blk: "\<exists>j<YAF_IBLOCKS. ?b = DNO2BID sb (i_block ?d' ! j)"
    using slot_block [OF r(2,3)] by (intro exI [of _ "k div 128"]) simp
  have used: "used_bits (disk s' ?i) = insert ino (used_bits (disk s ?i))"
    using disk assms(1) ibp pos by (auto simp: used_bits_def simp del: layout_consts)
  have frame: "\<forall>a. a \<notin> {?i, BID_DBP_MIN sb, ?b} \<longrightarrow> disk s' a = disk s a"
    using disk r(11) by simp
  have mode: "\<exists>d''. i_mode ?v = fst (init_owner E d'' (mode OR fmt))" by auto
  have nlink: "i_nlink ?d' = i_nlink d + 1" "i_mode ?d' = i_mode d" using r(4,5) by simp_all
  have bufs: "refs s' = refs s" "inew s' = inew s" "dcache s' = (dcache s)((dir, nm) := Some (Some (of_nat ino)))"
    using rest(1,4) r(6,7,8) dc by simp_all
  have marked: "changes_marked s s'" using r(9) rest(2) by (rule changes_marked_trans)
  have "disk s' (BID_DBP_MIN sb) = disk s1 (BID_DBP_MIN sb)" using disk assms(1) by simp
  then have grown: "grown sb s d s' ?d'" using r(10) rest(5) by (auto simp: grown_def)
  show ?thesis
    unfolding op
    by (rule exI [of _ s'], rule exI [of _ ?d'], rule exI [of _ ?v], rule exI [of _ ?b], intro conjI)
      (fact run ic' conjunct1 [OF map] conjunct2 [OF map] nlink mode used bufs rest(3) blk frame marked grown
        init_new_inode_simps fresh_dir_inv [OF init_new_inode_simps(1,3,2)])+
qed

lemma small_ino_ucast: "ino < BITS_PER_BLOCK \<Longrightarrow> ucast (of_nat ino :: u32) = (of_nat ino :: u64)"
  by (rule word_unatI) (simp add: unat_of_nat unat_of_nat_u32)

lemma dir_map_disk: "disk s' = disk s \<Longrightarrow> dir_map sb s' d = dir_map sb s d"
proof -
  assume "disk s' = disk s"
  then have "dslot sb s' d = dslot sb s d" by (intro ext) (simp add: dslot_def)
  then show ?thesis by (simp add: dir_map_def)
qed

section \<open>Where creation fails\<close>

lemma negative_offset:
  assumes "r < 0" and "-4096 < r"
  shows "8 \<le> unat (of_int r :: u64) div 4096"
proof -
  have "unat (of_int r :: u64) = nat (r mod 2 ^ 64)"
    by (simp add: unsigned_of_int take_bit_eq_mod)
  moreover have "r mod 2 ^ 64 = (r + 2 ^ 64) mod 2 ^ 64" by simp
  moreover have "(r + 2 ^ 64) mod 2 ^ 64 = r + 2 ^ 64"
    using assms by (intro mod_pos_pos_trivial) simp_all
  ultimately have "unat (of_int r :: u64) = nat (r + 2 ^ 64)" by simp
  then have "32768 \<le> unat (of_int r :: u64)" using assms by (simp add: le_nat_iff)
  then show ?thesis by simp
qed

lemma create_negative_run:
  assumes "yaf_get_free_dentry E sb dir s = Run r s1" and "r < 0" and "-4096 < r"
    and "icache s1 dir = Some d1" and "length (i_block d1) = 8" and "length nm \<le> 24"
  shows "do_yaf_create E sb dir nm mode s = Stop BadAccess"
  using assms negative_offset [of r]
  by (simp add: do_yaf_create_def yaf_exec Let_def iblock_def)

section \<open>Samples\<close>

lemma sample_dir [simp]:
  "device_ok env0 sb" "nslots root0 = 0" "dir_inv sb kst0 root0" "dir_map sb kst0 root0 nm = None"
  "has_room sb kst0 root0" "valid_name [97]"
  by (simp_all add: device_ok_def nslots_def dir_inv_def dir_wf_def blocks_marked_def names_unique_def
      dir_map_def entry_map_def first_idx_def has_room_def valid_name_def live_count_def
      lengths_ok_def)

lemma sample_available: "inode_available sb0 kst0 2" "dblock_available sb0 kst0"
proof -
  have "BID_IBP_MIN sb0 = 1" "BID_DBP_MIN sb0 = 2" by (simp_all add: BID_min_eqs sb0_def)
  moreover have "disk0 2 = zeros 2" by (rule ext) (simp add: disk0_def zeros_def)
  moreover have "first_idx (\<lambda>k. \<not> test_bit_at (zeros 2) k) BITS_PER_BLOCK = Some 0"
    by (simp add: first_idx_Some test_bit_at_def zeros_def)
  then have "alloc_result (zeros 2) = 0" by (simp add: alloc_result_def block_alloc_eq)
  ultimately show "inode_available sb0 kst0 2" "dblock_available sb0 kst0"
    using disk0_not_full zeros_not_full
    by (simp_all add: inode_available_def dblock_available_def ino_ok_def del: layout_consts
        add: sb0_def INODES_PER_BLOCK_def YAF_BLOCK_SIZE_def SIZEOF_YAF_INODE_def YAF_IBLOCKS_def)
qed

section \<open>Properties\<close>

text \<open>
  C16. Lookup. On a working device, \<open>yaf_lookup\<close> of a name in a well-formed directory
  succeeds and binds the name to the inode the directory's map gives it, reading that inode
  into memory, or to nothing when the map has no such name; it changes no block and gives
  back every buffer.
\<close>

theorem lookup_correct:
  assumes "device_ok E sb" and "dir_wf sb d" and "icache s dir = Some d" and "valid_name nm"
    and "\<And>ino. dir_map sb s d nm = Some ino \<Longrightarrow> ino_ok sb (ucast ino) \<and> ucast ino \<notin> inew s"
  shows "\<exists>s'. yaf_lookup E sb dir nm s = Run 0 s' \<and>
    dcache s' = (dcache s)((dir, nm) := Some (map_option ucast (dir_map sb s d nm))) \<and>
    (\<forall>ino. dir_map sb s d nm = Some ino \<longrightarrow> icache s' (ucast ino) \<noteq> None) \<and>
    disk s' = disk s \<and> refs s' = refs s \<and> loose s' = loose s"
  using lookup_run [OF assms] by blast

text \<open>
  C14. Creation. On a working device, for a directory that satisfies its invariant and has
  room, a valid name it does not hold, and an inode number and (should it be needed) a data
  block to hand out, \<open>yaf_create\<close> and \<open>yaf_mkdir\<close> return 0; the map of the directory is the
  old one updated at the name with the new inode number, its invariant holds again, its link
  count is one more, the name is bound to the new inode, which is in memory, dirty, empty,
  with one link and of the requested type (an empty directory that satisfies the invariant,
  should it be one); only the two bitmaps and one block of the
  directory change, every change is marked dirty and every buffer given back; a block added to the
  directory was not in use.
\<close>

theorem create_correct:
  assumes "sb_ok sb" and "device_ok E sb" and "icache s dir = Some d" and "dir_inv sb s d"
    and "has_room sb s d" and "valid_name nm" and "dir_map sb s d nm = None"
    and "inode_available sb s ino" and "dblock_available sb s"
    and "op = yaf_create \<and> fmt = S_IFREG \<or> op = yaf_mkdir \<and> fmt = S_IFDIR"
  shows "\<exists>s' d' v b. op E sb dir nm mode s = Run 0 s' \<and>
    icache s' = (icache s)(dir := Some d', of_nat ino := Some v) \<and>
    dir_map sb s' d' = (dir_map sb s d)(nm \<mapsto> of_nat ino) \<and> dir_inv sb s' d' \<and>
    i_nlink d' = i_nlink d + 1 \<and> i_mode d' = i_mode d \<and>
    i_nlink v = 1 \<and> i_size v = 0 \<and> i_block v = replicate YAF_IBLOCKS RESERVED_DNO \<and>
    dir_inv sb s' v \<and> dir_map sb s' v = Map.empty \<and>
    (\<exists>d''. i_mode v = fst (init_owner E d'' (mode OR fmt))) \<and>
    used_bits (disk s' (BID_IBP_MIN sb)) = insert ino (used_bits (disk s (BID_IBP_MIN sb))) \<and>
    dcache s' = (dcache s)((dir, nm) := Some (Some (of_nat ino))) \<and> {dir, of_nat ino} \<subseteq> idirty s' \<and>
    (\<exists>j<YAF_IBLOCKS. b = DNO2BID sb (i_block d' ! j)) \<and>
    (\<forall>a. a \<notin> {BID_IBP_MIN sb, BID_DBP_MIN sb, b} \<longrightarrow> disk s' a = disk s a) \<and>
    refs s' = refs s \<and> inew s' = inew s \<and> changes_marked s s' \<and> grown sb s d s' d'"
  using create_run [OF assms] .

theorem lookup_correct_witness:
  "\<exists>s'. yaf_lookup env0 sb0 1 [97] kst0 = Run 0 s' \<and> dcache s' (1, [97]) = Some None"
  using lookup_correct [of env0 sb0 root0 kst0 1 "[97]"] by (auto simp: dir_wf_def)

theorem create_correct_witness:
  "\<exists>s' d'. yaf_create env0 sb0 1 [97] 0 kst0 = Run 0 s' \<and> icache s' 1 = Some d' \<and>
     dir_map sb0 s' d' = [[97] \<mapsto> 2]"
proof -
  have "dir_map sb0 kst0 root0 = Map.empty" by (rule ext) simp
  moreover have "icache kst0 1 = Some root0" by simp
  ultimately show ?thesis
    using create_correct [of sb0 env0 kst0 1 root0 "[97]" 2 yaf_create S_IFREG 0] sample_available
    by auto
qed

text \<open>
  Names that are too long. For a name of more than 24 bytes, \<open>yaf_create\<close>, \<open>yaf_mkdir\<close>
  and \<open>yaf_lookup\<close> return \<open>-ENAMETOOLONG\<close> before they touch anything, whatever the device
  and the directory, whereas \<open>yaf_delete\<close> on a bound dentry with such a name panics.
\<close>

theorem name_too_long:
  assumes "YAF_DENTRY_NAME_LEN < length nm"
  shows "yaf_create E sb dir nm mode s = Run (- ENAMETOOLONG) s \<and>
    yaf_mkdir E sb dir nm mode s = Run (- ENAMETOOLONG) s \<and>
    yaf_lookup E sb dir nm s = Run (- ENAMETOOLONG) s \<and>
    (dcache s (dir, nm) = Some (Some ino) \<longrightarrow> yaf_unlink E sb dir nm s = Stop Panic)"
  using assms
  by (simp add: yaf_create_def yaf_mkdir_def do_yaf_create_def yaf_lookup_def do_yaf_lookup_def
      yaf_unlink_def yaf_delete_def yaf_exec assert_k_def errno_defs)

theorem name_too_long_witness:
  "yaf_create env0 sb0 1 (replicate 25 97) 0 kst0 = Run (- ENAMETOOLONG) kst0"
  using name_too_long [of "replicate 25 97"] by simp

text \<open>
  C27. A full directory. When the 1024 entries of a directory are all in use, creating in it
  does not return an error: the \<open>-ENOSPC\<close> of \<open>yaf_get_free_dentry\<close> is stored in an unsigned
  variable, passes the test for negative values and indexes the array \<open>i_block\<close> beyond its
  end. The same holds of an I/O error in the search for a free entry.
\<close>

theorem create_in_full_directory:
  assumes "dir_wf sb d" and "icache s dir = Some d" and "length nm \<le> YAF_DENTRY_NAME_LEN"
    and "device_ok E sb \<and> nslots d = MAX_DENTRYS \<and> (\<forall>k<nslots d. d_ino (dslot sb s d k) \<noteq> RESERVED_INO) \<or>
      0 < nslots d \<and> \<not> bread_ok E (tick s) (DNO2BID sb (i_block d ! 0))"
  shows "yaf_create E sb dir nm mode s = Stop BadAccess \<and> yaf_mkdir E sb dir nm mode s = Stop BadAccess"
proof -
  have len: "length (i_block d) = 8" using dir_wfD(3) [OF assms(1)] .
  have "\<exists>r s1. yaf_get_free_dentry E sb dir s = Run r s1 \<and> r < 0 \<and> -4096 < r \<and> icache s1 dir = Some d"
    using assms(4)
  proof
    assume "device_ok E sb \<and> nslots d = MAX_DENTRYS \<and> (\<forall>k<nslots d. d_ino (dslot sb s d k) \<noteq> RESERVED_INO)"
    then show ?thesis
      using free_dentry_full [of E sb d s dir] assms(1,2) by (auto simp: ENOSPC_def)
  next
    assume "0 < nslots d \<and> \<not> bread_ok E (tick s) (DNO2BID sb (i_block d ! 0))"
    then show ?thesis
      using assms(2) dir_wfD(1) [OF assms(1)] len
      by (simp add: yaf_get_free_dentry_def dir_search.simps yaf_exec EIO_def)
  qed
  then show ?thesis
    using create_negative_run [of E sb dir s _ _ d nm] len assms(3)
    by (auto simp: yaf_create_def yaf_mkdir_def)
qed

text \<open>A directory of 1024 entries in the first eight data blocks, none of them unused.\<close>

definition full_dir :: Yaf_Inode_Info where
  "full_dir = root0\<lparr>i_size := 32768, i_block := map of_nat [0..<8]\<rparr>"

theorem create_in_full_directory_witness:
  "yaf_create env0 sb0 1 [97] 0 ((kst_of (\<lambda>b off. 1))\<lparr>icache := [1 \<mapsto> full_dir]\<rparr>) = Stop BadAccess"
proof -
  have n: "nslots full_dir = 1024" by (simp add: nslots_def full_dir_def)
  have "le32_load (\<lambda>off. 1) off \<noteq> 0" for off by (simp add: le32_load_def)
  then have "d_ino (dslot sb0 ((kst_of (\<lambda>b off. 1))\<lparr>icache := [1 \<mapsto> full_dir]\<rparr>) full_dir k) \<noteq> RESERVED_INO" for k
    by (simp add: dslot_def dentry_load_def RESERVED_INO_def)
  moreover have "dir_wf sb0 full_dir"
    unfolding dir_wf_def n
    by (auto simp: full_dir_def sb0_def word_less_nat_alt unat_of_nat_u32 dest!: arg_cong [where f = unat])
  ultimately show ?thesis
    using create_in_full_directory [of sb0 full_dir _ 1 "[97]" env0 0] n by simp
qed

text \<open>
  No data block left. When the directory needs a further block and the first block of
  the data bitmap is full, creation does not return \<open>-ENOSPC\<close>: the allocator hands out data
  block \<open>0xFFFFFFFE\<close>, which is beyond every device, the read of that block fails and the
  kernel panics.
\<close>

theorem create_without_data_block:
  assumes "sb_ok sb" and "device_ok E sb" and "dir_wf sb d" and "icache s dir = Some d"
    and "nslots d < MAX_DENTRYS" and "nslots d mod DENTRYS_PER_BLOCK = 0"
    and "\<forall>k<nslots d. d_ino (dslot sb s d k) \<noteq> RESERVED_INO"
    and "used_bits (disk s (BID_DBP_MIN sb)) = {..<BITS_PER_BLOCK}"
    and "\<forall>t b. BID_D_MAX sb < b \<longrightarrow> \<not> bread_ok E t b" and "length nm \<le> YAF_DENTRY_NAME_LEN"
  shows "yaf_create E sb dir nm mode s = Stop Panic"
proof -
  let ?n = "nslots d" and ?b = "BID_DBP_MIN sb" and ?dno = "0xFFFFFFFE :: u32"
  have n: "?n < 1024" "?n mod 128 = 0" using assms(5,6) by simp_all
  have "first_idx (\<lambda>k. d_ino (dslot sb s d k) = RESERVED_INO) ?n = None"
    using assms(7) by (simp add: first_idx_None)
  then obtain t where search: "dir_search E sb free_entry (i_block d) (i_size d) 0 s =
      Run (Missing (32 * ?n)) (s\<lparr>tick := t\<rparr>)"
    using free_search_run [OF assms(2,3), of s] by auto
  obtain s1 where s1: "yaf_get_free_dblock E sb (s\<lparr>tick := t\<rparr>) = Run ?dno s1" "icache s1 = icache s"
    using get_free_dblock_run [of sb E "s\<lparr>tick := t\<rparr>"] assms(1) device_readable(2) [OF assms(2)]
      alloc_run_cases(2) [OF assms(8)] by simp
  have len: "?n div 128 < 8" "length (i_block d) = 8" using n(1) dir_wfD(3) [OF assms(3)] by simp_all
  have "\<not> 128 * (?n div 128) < ?n" using n(2) mult_div_mod_eq [of 128 ?n] by linarith
  then have old: "i_block d ! (?n div 128) = RESERVED_DNO" using dir_wfD(5) [OF assms(3)] len by simp
  have "BID_D_MAX sb < DNO2BID sb ?dno"
    using assms(1) by (simp add: word_less_nat_alt yaf_layout sb_ok_def)
  then have fail: "\<not> bread_ok E t' (DNO2BID sb ?dno)" for t' using assms(9) by blast
  have "?dno \<noteq> RESERVED_DNO" by (simp add: RESERVED_DNO_def)
  then show ?thesis
    using assms(4,10) n search s1 old len fail dir_wfD(1) [OF assms(3)]
    by (simp add: yaf_create_def do_yaf_create_def yaf_get_free_dentry_def append_dentry_def yaf_exec
        slot_offset iblock_def)
qed

theorem create_without_data_block_witness:
  "yaf_create (env0\<lparr>bread_ok := \<lambda>t b. b \<le> 255\<rparr>) sb0 1 [97] 0
     ((kst_of (\<lambda>b off. - 1))\<lparr>icache := [1 \<mapsto> root0]\<rparr>) = Stop Panic"
proof -
  have "dir_wf sb0 root0" using sample_dir(3) [of sb0] by (simp add: dir_inv_def)
  moreover have "BID_D_MAX sb0 = 255" by (rule word_unatI) (simp add: yaf_layout sb0_def)
  moreover have "device_ok (env0\<lparr>bread_ok := \<lambda>t b. b \<le> 255\<rparr>) sb0"
    using calculation(2) by (simp add: device_ok_def env0_def)
  ultimately show ?thesis
    using create_without_data_block [of sb0 "env0\<lparr>bread_ok := \<lambda>t b. b \<le> 255\<rparr>" root0
        "(kst_of (\<lambda>b off. - 1))\<lparr>icache := [1 \<mapsto> root0]\<rparr>" 1 "[97]" 0] by (simp add: not_le)
qed

text \<open>
  Creation followed by lookup. After a successful \<open>yaf_create\<close>, a lookup of the same
  name that does not find it in the dentry cache binds the name to the inode created.
\<close>

theorem create_then_lookup:
  assumes "sb_ok sb" and "device_ok E sb" and "icache s dir = Some d" and "dir_inv sb s d"
    and "has_room sb s d" and "valid_name nm" and "dir_map sb s d nm = None"
    and "inode_available sb s ino" and "dblock_available sb s"
  shows "\<exists>s' s''. yaf_create E sb dir nm mode s = Run 0 s' \<and>
    yaf_lookup E sb dir nm (s'\<lparr>dcache := (dcache s')((dir, nm) := None)\<rparr>) = Run 0 s'' \<and>
    dcache s'' (dir, nm) = Some (Some (of_nat ino)) \<and> disk s'' = disk s'"
proof -
  obtain s' d' where s': "yaf_create E sb dir nm mode s = Run 0 s'"
      "icache s' dir = Some d'" "dir_wf sb d'" "dir_map sb s' d' nm = Some (of_nat ino)" "inew s' = inew s"
  proof -
    have "dir \<noteq> of_nat ino" using assms(3,8) by (auto simp: inode_available_def)
    then show thesis
      using create_run [OF assms, of yaf_create S_IFREG mode] that by (auto simp: dir_inv_def)
  qed
  let ?e = "s'\<lparr>dcache := (dcache s')((dir, nm) := None)\<rparr>"
  have "ino < BITS_PER_BLOCK" "ino_ok sb (of_nat ino)" "of_nat ino \<notin> inew s"
    using assms(8) alloc_run_cases(1) by (fastforce simp: inode_available_def)+
  moreover have "dir_map sb ?e d' = dir_map sb s' d'" by (rule dir_map_disk) simp
  ultimately show ?thesis
    using s' lookup_run [OF assms(2) s'(3), of ?e dir nm] assms(6) small_ino_ucast [of ino] by auto
qed

theorem create_then_lookup_witness:
  "\<exists>s' s''. yaf_create env0 sb0 1 [97] 0 kst0 = Run 0 s' \<and>
     yaf_lookup env0 sb0 1 [97] (s'\<lparr>dcache := (dcache s')((1, [97]) := None)\<rparr>) = Run 0 s'' \<and>
     dcache s'' (1, [97]) = Some (Some 2)"
proof -
  have "icache kst0 1 = Some root0" by simp
  then show ?thesis
    using create_then_lookup [of sb0 env0 kst0 1 root0 "[97]" 2 0] sample_available by auto
qed

end
