(* ===== verification/Yaf_DirDelete.thy ===== *)
theory Yaf_DirDelete
  imports Yaf_DirCreate
begin

text \<open>
  Deleting files and directories: \<open>yaf_delete\<close> frees the slot of the name, gives the data
  blocks and the inode number back to the bitmaps, and is removal from the map of names.
\<close>

section \<open>Releasing the data blocks\<close>

text \<open>
  The blocks under the first \<open>i_size\<close> bytes of an inode are distinct and marked used.
\<close>

definition owns_dblocks :: "Yaf_Sb_Info \<Rightarrow> kst \<Rightarrow> Yaf_Inode_Info \<Rightarrow> bool" where
  "owns_dblocks sb s v \<longleftrightarrow> i_size v \<le> MAX_FILESIZE \<and> length (i_block v) = YAF_IBLOCKS \<and>
     (\<forall>j<YAF_IBLOCKS. YAF_BLOCK_SIZE * j < i_size v \<longrightarrow>
        unat (i_block v ! j) \<in> used_bits (disk s (BID_DBP_MIN sb)) \<and>
        (\<forall>i<YAF_IBLOCKS. YAF_BLOCK_SIZE * i < i_size v \<longrightarrow> i_block v ! i = i_block v ! j \<longrightarrow> i = j))"

definition dblocks_from :: "nat \<Rightarrow> Yaf_Inode_Info \<Rightarrow> nat set" where
  "dblocks_from j v = {unat (i_block v ! i) | i. j \<le> i \<and> 4096 * i < i_size v}"

definition only_disk_changed :: "kst \<Rightarrow> kst \<Rightarrow> bool" where
  "only_disk_changed s s' \<longleftrightarrow> icache s' = icache s \<and> refs s' = refs s \<and> inew s' = inew s \<and>
     dcache s' = dcache s \<and> idirty s' = idirty s \<and> loose s' = loose s \<and> changes_marked s s'"

lemma only_disk_changed_trans:
  "only_disk_changed s t \<Longrightarrow> only_disk_changed t u \<Longrightarrow> only_disk_changed s u"
  unfolding only_disk_changed_def using changes_marked_trans by auto

lemma IDXD2BID_first: "unat dno < BITS_PER_BLOCK \<Longrightarrow> IDXD2BID sb dno = BID_DBP_MIN sb"
  by (rule word_unatI) (simp add: yaf_layout)

lemma IDXI2BID_first: "unat ino < BITS_PER_BLOCK \<Longrightarrow> IDXI2BID sb ino = BID_IBP_MIN sb"
  by (rule word_unatI) (simp add: yaf_layout)

lemma used_bits_clear: "used_bits (clear_bit k addr) = used_bits addr - {k}"
  by (auto simp: used_bits_def)

lemma used_bitsD: "k \<in> used_bits addr \<Longrightarrow> k < BITS_PER_BLOCK \<and> test_bit_at addr k"
  by (simp add: used_bits_def)

lemma put_used_dblock:
  assumes "\<forall>t. bread_ok E t (BID_DBP_MIN sb)" and "unat dno \<in> used_bits (disk s (BID_DBP_MIN sb))"
  shows "\<exists>s'. yaf_put_dblock E sb dno s = Run () s' \<and> only_disk_changed s s' \<and>
    used_bits (disk s' (BID_DBP_MIN sb)) = used_bits (disk s (BID_DBP_MIN sb)) - {unat dno} \<and>
    (\<forall>b. b \<noteq> BID_DBP_MIN sb \<longrightarrow> disk s' b = disk s b)"
proof -
  note u = used_bitsD [OF assms(2)]
  then have "IDXD2BID sb dno = BID_DBP_MIN sb" by (simp only: IDXD2BID_first)
  then show ?thesis
    using put_dblock_run [of E s sb dno] assms(1) u
    by (simp add: only_disk_changed_def changes_marked_def used_bits_clear subset_insertI)
qed

lemma put_used_inode:
  assumes "\<forall>t. bread_ok E t (BID_IBP_MIN sb)" and "unat ino \<in> used_bits (disk s (BID_IBP_MIN sb))"
  shows "\<exists>s'. yaf_put_inode E sb ino s = Run () s' \<and> only_disk_changed s s' \<and>
    used_bits (disk s' (BID_IBP_MIN sb)) = used_bits (disk s (BID_IBP_MIN sb)) - {unat ino} \<and>
    (\<forall>b. b \<noteq> BID_IBP_MIN sb \<longrightarrow> disk s' b = disk s b)"
proof -
  note u = used_bitsD [OF assms(2)]
  then have "IDXI2BID sb ino = BID_IBP_MIN sb" by (simp only: IDXI2BID_first)
  then show ?thesis
    using put_inode_run [of E s sb ino] assms(1) u
    by (simp add: only_disk_changed_def changes_marked_def used_bits_clear subset_insertI)
qed

lemma put_dblocks_run:
  assumes ok: "\<forall>t. bread_ok E t (BID_DBP_MIN sb)"
    and inj: "\<And>i i'. 4096 * i < i_size v \<Longrightarrow> 4096 * i' < i_size v \<Longrightarrow> i_block v ! i = i_block v ! i' \<Longrightarrow> i = i'"
  shows "(\<And>i. j \<le> i \<Longrightarrow> 4096 * i < i_size v \<Longrightarrow>
      i < length (i_block v) \<and> unat (i_block v ! i) \<in> used_bits (disk s (BID_DBP_MIN sb))) \<Longrightarrow>
    \<exists>s'. put_dblocks E sb v (4096 * j) s = Run () s' \<and> only_disk_changed s s' \<and>
      used_bits (disk s' (BID_DBP_MIN sb)) = used_bits (disk s (BID_DBP_MIN sb)) - dblocks_from j v \<and>
      (\<forall>b. b \<noteq> BID_DBP_MIN sb \<longrightarrow> disk s' b = disk s b)"
proof (induction "i_size v - 4096 * j" arbitrary: j s rule: less_induct)
  case less
  let ?b = "BID_DBP_MIN sb"
  show ?case
  proof (cases "4096 * j < i_size v")
    case False
    then have "dblocks_from j v = {}" by (auto simp: dblocks_from_def)
    with False show ?thesis
      by (simp add: put_dblocks.simps only_disk_changed_def changes_marked_def)
  next
    case True
    let ?dno = "i_block v ! j"
    have j: "j < length (i_block v)" "unat ?dno \<in> used_bits (disk s ?b)"
      using less.prems True by auto
    obtain s1 where s1: "yaf_put_dblock E sb ?dno s = Run () s1" "only_disk_changed s s1"
        "used_bits (disk s1 ?b) = used_bits (disk s ?b) - {unat ?dno}"
        "\<forall>b. b \<noteq> ?b \<longrightarrow> disk s1 b = disk s b"
      using put_used_dblock [OF ok j(2)] by blast
    have left: "i < length (i_block v) \<and> unat (i_block v ! i) \<in> used_bits (disk s1 ?b)"
      if i: "Suc j \<le> i" "4096 * i < i_size v" for i
    proof -
      have "i_block v ! i \<noteq> ?dno" using inj [of i j] i True by auto
      then have "unat (i_block v ! i) \<noteq> unat ?dno" using word_unatI by blast
      then show ?thesis using less.prems [of i] i s1(3) by simp
    qed
    have "i_size v - 4096 * Suc j < i_size v - 4096 * j" using True by simp
    from less.hyps [OF this left] obtain s2 where
        s2: "put_dblocks E sb v (4096 * Suc j) s1 = Run () s2" "only_disk_changed s1 s2"
        "used_bits (disk s2 ?b) = used_bits (disk s1 ?b) - dblocks_from (Suc j) v"
        "\<forall>b. b \<noteq> ?b \<longrightarrow> disk s2 b = disk s1 b" by blast
    have "dblocks_from j v = insert (unat ?dno) (dblocks_from (Suc j) v)"
      using True unfolding dblocks_from_def by (auto simp: Suc_le_eq le_less)
    moreover have "put_dblocks E sb v (4096 * j) s = Run () s2"
      using True j s1(1) s2(1) by (subst put_dblocks.simps) (simp add: yaf_exec iblock_def add.commute)
    ultimately show ?thesis
      using s1 s2 only_disk_changed_trans by (intro exI [of _ s2]) auto
  qed
qed

section \<open>Running a deletion\<close>

text \<open>The end of a deletion: the blocks of the inode and its number are given back.\<close>

lemma release_run:
  assumes sb: "sb_ok sb" and dev: "device_ok E sb" and own: "owns_dblocks sb s v"
    and used: "unat i \<in> used_bits (disk s (BID_IBP_MIN sb))"
  shows "\<exists>s2 s3. put_dblocks E sb (drop_nlink v) 0 s = Run () s2 \<and> yaf_put_inode E sb i s2 = Run () s3 \<and>
    only_disk_changed s s3 \<and>
    used_bits (disk s3 (BID_IBP_MIN sb)) = used_bits (disk s (BID_IBP_MIN sb)) - {unat i} \<and>
    used_bits (disk s3 (BID_DBP_MIN sb)) = used_bits (disk s (BID_DBP_MIN sb)) - dblocks_from 0 v \<and>
    (\<forall>b. b \<noteq> BID_IBP_MIN sb \<longrightarrow> b \<noteq> BID_DBP_MIN sb \<longrightarrow> disk s3 b = disk s b)"
proof -
  let ?i = "BID_IBP_MIN sb" and ?db = "BID_DBP_MIN sb" and ?v = "drop_nlink v"
  have ibs: "\<forall>t. bread_ok E t ?i" "\<forall>t. bread_ok E t ?db" using device_readable [OF dev] sb by auto
  have range: "i < length (i_block ?v) \<and> unat (i_block ?v ! i) \<in> used_bits (disk s ?db)"
    if "0 \<le> i" "4096 * i < i_size ?v" for i
    using that own by (auto simp: owns_dblocks_def)
  have inj: "i = i'" if "4096 * i < i_size ?v" "4096 * i' < i_size ?v" "i_block ?v ! i = i_block ?v ! i'" for i i'
  proof -
    have "i < 8" "i' < 8" using that own by (auto simp: owns_dblocks_def)
    with that own show ?thesis by (simp add: owns_dblocks_def)
  qed
  obtain s2 where s2: "put_dblocks E sb ?v (4096 * 0) s = Run () s2" "only_disk_changed s s2"
      "used_bits (disk s2 ?db) = used_bits (disk s ?db) - dblocks_from 0 ?v" "\<forall>b. b \<noteq> ?db \<longrightarrow> disk s2 b = disk s b"
    using put_dblocks_run [OF ibs(2) inj range] by blast
  have "disk s2 ?i = disk s ?i" using s2(4) sb by simp
  with used ibs(1) obtain s3 where s3: "yaf_put_inode E sb i s2 = Run () s3" "only_disk_changed s2 s3"
      "used_bits (disk s3 ?i) = used_bits (disk s ?i) - {unat i}" "\<forall>b. b \<noteq> ?i \<longrightarrow> disk s3 b = disk s2 b"
    using put_used_inode [of E sb i s2] by auto
  have "disk s3 ?db = disk s2 ?db" using s3(4) sb by simp
  then show ?thesis
    using s2 s3 only_disk_changed_trans [OF s2(2) s3(2)] by (auto simp: dblocks_from_def)
qed

lemma delete_run:
  assumes sb: "sb_ok sb" and dev: "device_ok E sb" and d: "icache s dir = Some d" and wf: "dir_wf sb d"
    and nm: "valid_name nm" and k: "first_idx (\<lambda>k. live_as nm (dslot sb s d k)) (nslots d) = Some k"
    and dc: "dcache s (dir, nm) = Some (Some ino)" and v: "icache s ino = Some v" "ino \<noteq> dir" "i_nlink v = 1"
    and own: "owns_dblocks sb s v" "unat (ucast ino :: u32) \<in> used_bits (disk s (BID_IBP_MIN sb))"
  shows "\<exists>s' (s1 :: kst) t. yaf_delete E sb dir nm s = Run 0 s' \<and>
    disk s1 = (disk s)(DNO2BID sb (i_block d ! (k div 128)) :=
      le32_store (32 * (k mod 128)) RESERVED_INO (disk s (DNO2BID sb (i_block d ! (k div 128))))) \<and>
    (\<forall>b. b \<noteq> BID_IBP_MIN sb \<longrightarrow> b \<noteq> BID_DBP_MIN sb \<longrightarrow> disk s' b = disk s1 b) \<and>
    used_bits (disk s' (BID_IBP_MIN sb)) = used_bits (disk s (BID_IBP_MIN sb)) - {unat (ucast ino :: u32)} \<and>
    used_bits (disk s' (BID_DBP_MIN sb)) = used_bits (disk s (BID_DBP_MIN sb)) - dblocks_from 0 v \<and>
    icache s' = (icache s)(dir := Some (drop_nlink (set_times t d)), ino := Some (drop_nlink v)) \<and>
    refs s' = refs s \<and> inew s' = inew s \<and> dcache s' = dcache s \<and> loose s' = loose s \<and>
    changes_marked s s' \<and> {dir, ino} \<subseteq> idirty s' \<and> idirty s \<subseteq> idirty s'"
proof -
  let ?b = "DNO2BID sb (i_block d ! (k div 128))" and ?i = "BID_IBP_MIN sb" and ?db = "BID_DBP_MIN sb"
  let ?v = "drop_nlink v"
  have kn: "k < nslots d" using k by (simp add: first_idx_Some)
  have blk: "k div 128 < 8" "length (i_block d) = 8" "\<And>t. bread_ok E t ?b"
    using slot_block [OF wf kn] dir_wfD(3) [OF wf] device_readable(3) [OF dev] by auto
  obtain t where look: "do_yaf_lookup E sb dir nm s = Run (int (32 * k)) (s\<lparr>tick := t\<rparr>)"
    using do_lookup_run [OF dev wf d nm] k by auto
  let ?s1 = "s\<lparr>tick := t + 1,
      disk := (disk s)(?b := le32_store (32 * (k mod 128)) RESERVED_INO (disk s ?b)),
      bdirty := insert ?b (bdirty s), idirty := insert dir (idirty s),
      icache := (icache s)(dir := Some (drop_nlink (set_times (now E (t + 1)) d)), ino := Some ?v)\<rparr>"
  have dbp: "disk ?s1 ?db = disk s ?db" "disk ?s1 ?i = disk s ?i" using sb by simp_all
  have "owns_dblocks sb ?s1 v" using own(1) unfolding owns_dblocks_def dbp(1) .
  then obtain s2 s3 where s3: "put_dblocks E sb ?v 0 ?s1 = Run () s2" "yaf_put_inode E sb (ucast ino) s2 = Run () s3"
      "only_disk_changed ?s1 s3"
      "used_bits (disk s3 ?i) = used_bits (disk s ?i) - {unat (ucast ino :: u32)}"
      "used_bits (disk s3 ?db) = used_bits (disk s ?db) - dblocks_from 0 v"
      "\<forall>b. b \<noteq> ?i \<longrightarrow> b \<noteq> ?db \<longrightarrow> disk s3 b = disk ?s1 b"
    using release_run [OF sb dev, of ?s1 v "ucast ino :: u32"] own(2) unfolding dbp by blast
  have eq: "yaf_delete E sb dir nm s = Run 0 (s3\<lparr>idirty := insert ino (idirty s3)\<rparr>)"
    using look d dc v blk s3(1,2)
    by (simp add: yaf_delete_def yaf_exec iblock_def slot_offset)
  let ?s' = "s3\<lparr>idirty := insert ino (idirty s3)\<rparr>"
  note same = s3(3) [unfolded only_disk_changed_def]
  have m1: "changes_marked s ?s1" by (auto simp: changes_marked_def)
  have m2: "changes_marked ?s1 s3" using same by blast
  have m3: "changes_marked s3 ?s'" by (simp add: changes_marked_def)
  have marked: "changes_marked s ?s'"
    by (rule changes_marked_trans [OF changes_marked_trans [OF m1 m2] m3])
  have frame: "\<forall>b. b \<noteq> ?i \<longrightarrow> b \<noteq> ?db \<longrightarrow> disk ?s' b = disk ?s1 b"
    "used_bits (disk ?s' ?i) = used_bits (disk s ?i) - {unat (ucast ino :: u32)}"
    "used_bits (disk ?s' ?db) = used_bits (disk s ?db) - dblocks_from 0 v"
    using s3(4-6) by simp_all
  have ic: "icache ?s' = (icache s)(dir := Some (drop_nlink (set_times (now E (t + 1)) d)), ino := Some ?v)"
    "refs ?s' = refs s" "inew ?s' = inew s" "dcache ?s' = dcache s" "loose ?s' = loose s"
    "{dir, ino} \<subseteq> idirty ?s'" "idirty s \<subseteq> idirty ?s'"
    using same by auto
  have d1: "disk ?s1 = (disk s)(?b := le32_store (32 * (k mod 128)) RESERVED_INO (disk s ?b))" by simp
  show ?thesis
    by (rule exI [of _ ?s'], rule exI [of _ ?s1], rule exI [of _ "now E (t + 1)"], intro conjI)
      (fact eq d1 frame ic marked)+
qed

text \<open>The effect of a cleared slot on the map and the invariant of the directory.\<close>

lemma cleared_slot:
  assumes sb: "sb_ok sb" and inv: "dir_inv sb s d"
    and k: "first_idx (\<lambda>k. live_as nm (dslot sb s d k)) (nslots d) = Some k"
    and disk1: "disk (s1 :: kst) = (disk s)(DNO2BID sb (i_block d ! (k div 128)) :=
      le32_store (32 * (k mod 128)) RESERVED_INO (disk s (DNO2BID sb (i_block d ! (k div 128)))))"
    and disk2: "\<And>b. b \<noteq> BID_IBP_MIN sb \<Longrightarrow> b \<noteq> BID_DBP_MIN sb \<Longrightarrow> disk s2 b = disk s1 b"
    and bits: "used_bits (disk s2 (BID_DBP_MIN sb)) = used_bits (disk s (BID_DBP_MIN sb)) - B"
    and apart: "B \<inter> dblocks_from 0 d = {}"
    and d2: "i_block d2 = i_block d" "i_size d2 = i_size d" "i_nlink d2 = i_nlink d - 1"
  shows "dir_inv sb s2 d2 \<and> dir_map sb s2 d2 = (dir_map sb s d)(nm := None)"
proof -
  have wf: "dir_wf sb d" and uniq: "names_unique (dslot sb s d) (nslots d)" and m: "blocks_marked sb s d"
    using inv by (simp_all add: dir_inv_def)
  have kn: "k < nslots d" "live_as nm (dslot sb s d k)" using k by (auto simp: first_idx_Some)
  have later: "dslot sb s2 d j = dslot sb s1 d j" for j
    using disk2 sb by (simp add: dslot_def)
  have slot: "dslot sb s1 d j = (if j = k then dentry_load (le32_store (32 * (k mod 128)) RESERVED_INO
      (disk s (DNO2BID sb (i_block d ! (k div 128))))) (32 * (k mod 128)) else dslot sb s d j)"
    if "j < nslots d" for j
    by (rule dslot_change [OF wf that kn(1)]) (use disk1 clear_others in auto)
  have dead: "d_ino (dslot sb s2 d k) = RESERVED_INO"
    using later slot [OF kn(1)] by (simp add: dentry_load_clear)
  have old: "dslot sb s2 d j = dslot sb s d j" if "j < nslots d" "j \<noteq> k" for j
    using later slot [of j] that by simp
  have "unat (i_block d ! j) \<in> used_bits (disk s2 (BID_DBP_MIN sb))" if "j < 8" "128 * j < nslots d" for j
  proof -
    have "unat (i_block d ! j) \<in> dblocks_from 0 d"
      using that dir_wfD(1) [OF wf] by (auto simp: dblocks_from_def)
    with that m apart bits show ?thesis by (auto simp: blocks_marked_def)
  qed
  then have "blocks_marked sb s2 d" by (simp add: blocks_marked_def)
  moreover have "names_unique (dslot sb s2 d) (nslots d)" by (rule names_unique_delete [OF uniq dead old])
  moreover have "entry_map (dslot sb s2 d) (nslots d) = (entry_map (dslot sb s d) (nslots d))(nm := None)"
    by (rule entry_map_delete [OF uniq kn dead old])
  moreover have "unat (i_nlink d2) = Suc (live_count (dslot sb s2 d) (nslots d))"
  proof -
    have "d_ino (dslot sb s d k) \<noteq> RESERVED_INO" using kn(2) by (simp add: live_as_def)
    then have "live_count (dslot sb s d) (nslots d) = Suc (live_count (dslot sb s2 d) (nslots d))"
      by (intro live_count_clear [where k = k] kn(1) dead old)
    then show ?thesis using inv d2(3) by (simp add: dir_inv_def unat_count(2))
  qed
  moreover have "lengths_ok (dslot sb s2 d) (nslots d)"
    using inv dead by (intro lengths_ok_change [where k = k, OF _ _ old]) (auto simp: dir_inv_def)
  ultimately show ?thesis
    using wf dir_same_shape [OF d2(1,2)] by (simp add: dir_inv_def dir_map_def)
qed

lemma delete_ok:
  assumes "sb_ok sb" and "device_ok E sb" and "icache s dir = Some d" and "dir_inv sb s d"
    and "valid_name nm" and "dir_map sb s d nm \<noteq> None" and "dcache s (dir, nm) = Some (Some ino)"
    and "icache s ino = Some v" and "ino \<noteq> dir" and "i_nlink v = 1" and "owns_dblocks sb s v"
    and "dblocks_from 0 v \<inter> dblocks_from 0 d = {}"
    and "unat (ucast ino :: u32) \<in> used_bits (disk s (BID_IBP_MIN sb))"
    and "op = yaf_unlink \<or> op = yaf_rmdir"
  shows "\<exists>s' d' v'. op E sb dir nm s = Run 0 s' \<and>
    icache s' = (icache s)(dir := Some d', ino := Some v') \<and>
    dir_map sb s' d' = (dir_map sb s d)(nm := None) \<and> dir_inv sb s' d' \<and>
    i_nlink d' = i_nlink d - 1 \<and> i_nlink v' = 0 \<and>
    used_bits (disk s' (BID_IBP_MIN sb)) = used_bits (disk s (BID_IBP_MIN sb)) - {unat (ucast ino :: u32)} \<and>
    used_bits (disk s' (BID_DBP_MIN sb)) = used_bits (disk s (BID_DBP_MIN sb)) - dblocks_from 0 v \<and>
    refs s' = refs s \<and> loose s' = loose s \<and> changes_marked s s' \<and> {dir, ino} \<subseteq> idirty s' \<and>
    i_block d' = i_block d \<and> i_size d' = i_size d \<and> i_mode d' = i_mode d \<and>
    (\<exists>b\<in>(\<lambda>j. DNO2BID sb (i_block d ! j)) ` {..<YAF_IBLOCKS}.
       \<forall>a. a \<notin> {BID_IBP_MIN sb, BID_DBP_MIN sb, b} \<longrightarrow> disk s' a = disk s a) \<and>
    dcache s' = dcache s \<and> inew s' = inew s \<and> idirty s \<subseteq> idirty s'"
proof -
  obtain k where k: "first_idx (\<lambda>k. live_as nm (dslot sb s d k)) (nslots d) = Some k"
    using assms(6) unfolding dir_map_None by auto
  have wf: "dir_wf sb d" using assms(4) by (simp add: dir_inv_def)
  have op: "op E sb dir nm s = yaf_delete E sb dir nm s"
    using assms(7,8,10,14) by (auto simp: yaf_unlink_def yaf_rmdir_def yaf_exec)
  obtain s' and s1 :: kst and t where run: "yaf_delete E sb dir nm s = Run 0 s'"
      and d1: "disk s1 = (disk s)(DNO2BID sb (i_block d ! (k div 128)) :=
        le32_store (32 * (k mod 128)) RESERVED_INO (disk s (DNO2BID sb (i_block d ! (k div 128)))))"
      and d2: "\<forall>b. b \<noteq> BID_IBP_MIN sb \<longrightarrow> b \<noteq> BID_DBP_MIN sb \<longrightarrow> disk s' b = disk s1 b"
      and bits: "used_bits (disk s' (BID_IBP_MIN sb)) =
          used_bits (disk s (BID_IBP_MIN sb)) - {unat (ucast ino :: u32)}"
        "used_bits (disk s' (BID_DBP_MIN sb)) = used_bits (disk s (BID_DBP_MIN sb)) - dblocks_from 0 v"
      and rest: "icache s' = (icache s)(dir := Some (drop_nlink (set_times t d)), ino := Some (drop_nlink v))"
        "refs s' = refs s" "loose s' = loose s" "changes_marked s s'" "{dir, ino} \<subseteq> idirty s'"
        "dcache s' = dcache s" "inew s' = inew s" "idirty s \<subseteq> idirty s'"
    using delete_run [OF assms(1-3) wf assms(5) k assms(7,8,9,10,11,13)]
    by (elim exE conjE) (rule that, assumption+)
  let ?d' = "drop_nlink (set_times t d)"
  have map: "dir_inv sb s' ?d' \<and> dir_map sb s' ?d' = (dir_map sb s d)(nm := None)"
    using d2 by (intro cleared_slot [OF assms(1,4) k d1 _ bits(2) assms(12)]) auto
  have nlink: "i_nlink (drop_nlink v) = 0" "i_nlink ?d' = i_nlink d - 1" "i_block ?d' = i_block d"
      "i_size ?d' = i_size d" "i_mode ?d' = i_mode d" using assms(10) by simp_all
  have "k < nslots d" using k by (simp add: first_idx_Some)
  then have kd: "k div 128 < 8" using slot_block [OF wf] by blast
  let ?b = "DNO2BID sb (i_block d ! (k div 128))"
  have "\<forall>a. a \<notin> {BID_IBP_MIN sb, BID_DBP_MIN sb, ?b} \<longrightarrow> disk s' a = disk s a"
    using d2 d1 by simp
  then have frame: "\<exists>b\<in>(\<lambda>j. DNO2BID sb (i_block d ! j)) ` {..<YAF_IBLOCKS}.
      \<forall>a. a \<notin> {BID_IBP_MIN sb, BID_DBP_MIN sb, b} \<longrightarrow> disk s' a = disk s a"
    using kd by (intro bexI [of _ ?b]) auto
  show ?thesis
    unfolding op
    by (rule exI [of _ s'], rule exI [of _ ?d'], rule exI [of _ "drop_nlink v"], intro conjI)
      (fact run conjunct1 [OF map] conjunct2 [OF map] nlink bits rest frame)+
qed

section \<open>Properties\<close>

text \<open>
  C15. Deletion. On a working device, for a name bound to an inode with one link that owns
  its data blocks, \<open>yaf_unlink\<close> and \<open>yaf_rmdir\<close> return 0; the map of the directory is the old
  one without the name, its invariant holds again, its link count is one less; exactly the
  inode number and the data blocks of the inode are released in the bitmaps, one block of
  the directory changes besides, every change is marked dirty and every buffer given back.
\<close>

theorem delete_correct:
  assumes "sb_ok sb" and "device_ok E sb" and "icache s dir = Some d" and "dir_inv sb s d"
    and "valid_name nm" and "dir_map sb s d nm \<noteq> None" and "dcache s (dir, nm) = Some (Some ino)"
    and "icache s ino = Some v" and "ino \<noteq> dir" and "i_nlink v = 1" and "owns_dblocks sb s v"
    and "dblocks_from 0 v \<inter> dblocks_from 0 d = {}"
    and "unat (ucast ino :: u32) \<in> used_bits (disk s (BID_IBP_MIN sb))"
    and "op = yaf_unlink \<or> op = yaf_rmdir"
  shows "\<exists>s' d' v'. op E sb dir nm s = Run 0 s' \<and>
    icache s' = (icache s)(dir := Some d', ino := Some v') \<and>
    dir_map sb s' d' = (dir_map sb s d)(nm := None) \<and> dir_inv sb s' d' \<and>
    i_nlink d' = i_nlink d - 1 \<and> i_nlink v' = 0 \<and>
    used_bits (disk s' (BID_IBP_MIN sb)) = used_bits (disk s (BID_IBP_MIN sb)) - {unat (ucast ino :: u32)} \<and>
    used_bits (disk s' (BID_DBP_MIN sb)) = used_bits (disk s (BID_DBP_MIN sb)) - dblocks_from 0 v \<and>
    refs s' = refs s \<and> loose s' = loose s \<and> changes_marked s s' \<and> {dir, ino} \<subseteq> idirty s' \<and>
    i_block d' = i_block d \<and> i_size d' = i_size d \<and> i_mode d' = i_mode d \<and>
    (\<exists>b\<in>(\<lambda>j. DNO2BID sb (i_block d ! j)) ` {..<YAF_IBLOCKS}.
       \<forall>a. a \<notin> {BID_IBP_MIN sb, BID_DBP_MIN sb, b} \<longrightarrow> disk s' a = disk s a) \<and>
    dcache s' = dcache s \<and> inew s' = inew s \<and> idirty s \<subseteq> idirty s'"
  using delete_ok [OF assms] .

lemma create_for_delete:
  assumes "sb_ok sb" and "device_ok E sb" and "icache s dir = Some d" and "dir_inv sb s d"
    and "has_room sb s d" and "valid_name nm" and "dir_map sb s d nm = None"
    and "inode_available sb s ino" and "dblock_available sb s"
  shows "\<exists>s' d' v. yaf_create E sb dir nm mode s = Run 0 s' \<and> icache s' dir = Some d' \<and>
    dir_inv sb s' d' \<and> dir_map sb s' d' = (dir_map sb s d)(nm \<mapsto> of_nat ino) \<and>
    dcache s' (dir, nm) = Some (Some (of_nat ino)) \<and> icache s' (of_nat ino) = Some v \<and>
    of_nat ino \<noteq> dir \<and> i_nlink v = 1 \<and> owns_dblocks sb s' v \<and> dblocks_from 0 v = {} \<and>
    unat (ucast (of_nat ino :: u64) :: u32) = ino \<and> ino \<notin> used_bits (disk s (BID_IBP_MIN sb)) \<and>
    used_bits (disk s' (BID_IBP_MIN sb)) = insert ino (used_bits (disk s (BID_IBP_MIN sb))) \<and>
    i_nlink d' = i_nlink d + 1"
proof -
  have pos: "ino < BITS_PER_BLOCK" "ino \<notin> used_bits (disk s (BID_IBP_MIN sb))"
    using assms(8) alloc_run_cases(1) by (fastforce simp: inode_available_def)+
  have "of_nat ino \<noteq> dir" using assms(3,8) by (auto simp: inode_available_def)
  moreover have "unat (ucast (of_nat ino :: u64) :: u32) = ino"
    using pos(1) by (simp add: unsigned_ucast_eq unat_of_nat unsigned_take_bit_eq take_bit_nat_eq_self)
  moreover have "owns_dblocks sb s' v \<and> dblocks_from 0 v = {}"
    if "i_size v = 0" "i_block v = replicate YAF_IBLOCKS RESERVED_DNO" for s' v
    using that by (simp add: owns_dblocks_def dblocks_from_def)
  ultimately show ?thesis
    using create_run [OF assms, of yaf_create S_IFREG mode] pos(2) by (auto simp del: layout_consts)
qed

theorem delete_correct_witness:
  "\<exists>s s' d'. yaf_unlink env0 sb0 1 [97] s = Run 0 s' \<and> icache s' 1 = Some d' \<and>
     dir_map sb0 s' d' [97] = None"
proof -
  have "icache kst0 1 = Some root0" by simp
  then obtain s d v where s: "icache s 1 = Some d" "dir_inv sb0 s d" "dir_map sb0 s d [97] \<noteq> None"
      "dcache s (1, [97]) = Some (Some 2)" "icache s 2 = Some v"
      "i_nlink v = 1" "owns_dblocks sb0 s v" "dblocks_from 0 v = {}" "2 \<in> used_bits (disk s (BID_IBP_MIN sb0))"
    using create_for_delete [of sb0 env0 kst0 1 root0 "[97]" 2 0] sample_available by auto
  obtain s' d' where "yaf_unlink env0 sb0 1 [97] s = Run 0 s'" "icache s' 1 = Some d'"
      "dir_map sb0 s' d' = (dir_map sb0 s d)([97] := None)"
    using delete_correct [of sb0 env0 s 1 d "[97]" 2 v yaf_unlink] s by auto
  then show ?thesis by (intro exI [of _ s] exI [of _ s'] exI [of _ d']) simp
qed

text \<open>
  C17. Deletion undoes creation. After a successful \<open>yaf_create\<close>, unlinking the same name
  restores the map of the directory, its link count and the inode bitmap.
\<close>

theorem create_then_unlink:
  assumes "sb_ok sb" and "device_ok E sb" and "icache s dir = Some d" and "dir_inv sb s d"
    and "has_room sb s d" and "valid_name nm" and "dir_map sb s d nm = None"
    and "inode_available sb s ino" and "dblock_available sb s"
  shows "\<exists>s' s'' d''. yaf_create E sb dir nm mode s = Run 0 s' \<and> yaf_unlink E sb dir nm s' = Run 0 s'' \<and>
    icache s'' dir = Some d'' \<and> dir_map sb s'' d'' = dir_map sb s d \<and> dir_inv sb s'' d'' \<and>
    i_nlink d'' = i_nlink d \<and>
    used_bits (disk s'' (BID_IBP_MIN sb)) = used_bits (disk s (BID_IBP_MIN sb))"
proof -
  obtain s' d' v where c: "yaf_create E sb dir nm mode s = Run 0 s'" "icache s' dir = Some d'"
      "dir_inv sb s' d'" "dir_map sb s' d' = (dir_map sb s d)(nm \<mapsto> of_nat ino)"
      "dcache s' (dir, nm) = Some (Some (of_nat ino))" "icache s' (of_nat ino) = Some v"
      "of_nat ino \<noteq> dir" "i_nlink v = 1" "owns_dblocks sb s' v" "dblocks_from 0 v = {}"
      "unat (ucast (of_nat ino :: u64) :: u32) = ino" "ino \<notin> used_bits (disk s (BID_IBP_MIN sb))"
      "used_bits (disk s' (BID_IBP_MIN sb)) = insert ino (used_bits (disk s (BID_IBP_MIN sb)))"
      "i_nlink d' = i_nlink d + 1"
    using create_for_delete [OF assms, of mode] by (elim exE conjE) (rule that, assumption+)
  have "(dir_map sb s d)(nm := None) = dir_map sb s d" using assms(7) by (rule fun_upd_idem)
  then show ?thesis
    using delete_ok [OF assms(1,2) c(2,3) assms(6) _ c(5,6,7,8,9), of yaf_unlink] c by auto
qed

theorem create_then_unlink_witness:
  "\<exists>s' s'' d''. yaf_create env0 sb0 1 [97] 0 kst0 = Run 0 s' \<and> yaf_unlink env0 sb0 1 [97] s' = Run 0 s'' \<and>
     icache s'' 1 = Some d'' \<and> i_nlink d'' = 1"
proof -
  have "icache kst0 1 = Some root0" by simp
  then show ?thesis
    using create_then_unlink [of sb0 env0 kst0 1 root0 "[97]" 2 0] sample_available by auto
qed

text \<open>
  Removing directories. For a directory that satisfies its invariant, \<open>yaf_rmdir\<close> answers
  \<open>-ENOTEMPTY\<close> and changes nothing exactly when the directory holds a name; otherwise it
  deletes it.
\<close>

theorem rmdir_checks_empty:
  assumes "dcache s (dir, nm) = Some (Some ino)" and "icache s ino = Some v" and "dir_inv sb s v"
  shows "yaf_rmdir E sb dir nm s =
    (if dir_map sb s v = Map.empty then yaf_delete E sb dir nm s else Run (- ENOTEMPTY) s)"
proof -
  have "1 < i_nlink v \<longleftrightarrow> live_count (dslot sb s v) (nslots v) \<noteq> 0"
    using assms(3) by (simp add: dir_inv_def word_less_nat_alt)
  also have "\<dots> \<longleftrightarrow> dir_map sb s v \<noteq> Map.empty"
    by (simp only: dir_map_def entry_map_empty)
  finally show ?thesis
    using assms(1,2) by (auto simp: yaf_rmdir_def yaf_exec)
qed

theorem rmdir_checks_empty_witness:
  "\<exists>s' d'. yaf_create env0 sb0 1 [97] 0 kst0 = Run 0 s' \<and>
     yaf_rmdir env0 sb0 7 [98] (s'\<lparr>dcache := [(7, [98]) \<mapsto> Some 1]\<rparr>) =
       Run (- ENOTEMPTY) (s'\<lparr>dcache := [(7, [98]) \<mapsto> Some 1]\<rparr>)"
proof -
  have "icache kst0 1 = Some root0" by simp
  then obtain s d where s: "yaf_create env0 sb0 1 [97] 0 kst0 = Run 0 s" "icache s 1 = Some d"
      "dir_inv sb0 s d" "dir_map sb0 s d [97] \<noteq> None"
    using create_for_delete [of sb0 env0 kst0 1 root0 "[97]" 2 0] sample_available by auto
  let ?e = "s\<lparr>dcache := [(7, [98]) \<mapsto> Some 1]\<rparr>"
  have "dslot sb0 ?e d = dslot sb0 s d" by (intro ext) (simp add: dslot_def)
  then have "dir_inv sb0 ?e d" "dir_map sb0 ?e d \<noteq> Map.empty"
    using s(3,4) by (auto simp: dir_inv_def dir_map_def blocks_marked_def)
  then show ?thesis
    using rmdir_checks_empty [of ?e 7 "[98]" 1 d sb0 env0] s(1,2) by auto
qed

text \<open>
  A failed read in the search of \<open>yaf_delete\<close> is not reported: its first block being
  unreadable, deleting a name from a directory panics the kernel (and so does a bound name
  that the directory does not hold).
\<close>

theorem delete_read_error_panics:
  assumes "dcache s (dir, nm) = Some (Some ino)" and "icache s dir = Some d" and "valid_name nm"
    and "dir_wf sb d"
    and "0 < nslots d \<and> \<not> bread_ok E (tick s) (DNO2BID sb (i_block d ! 0)) \<or>
      device_ok E sb \<and> dir_map sb s d nm = None"
  shows "yaf_unlink E sb dir nm s = Stop Panic"
  using assms(5)
proof
  assume "0 < nslots d \<and> \<not> bread_ok E (tick s) (DNO2BID sb (i_block d ! 0))"
  then show ?thesis
    using assms dir_wfD(1,3) [OF assms(4)]
    by (simp add: yaf_unlink_def yaf_delete_def do_yaf_lookup_def dir_search.simps yaf_exec
        assert_k_def EIO_def valid_name_def)
next
  assume "device_ok E sb \<and> dir_map sb s d nm = None"
  then show ?thesis
    using do_lookup_run [OF _ assms(4,2,3), of E] assms(1)
    by (auto simp: dir_map_None yaf_unlink_def yaf_delete_def yaf_exec assert_k_def ENOENT_def)
qed

theorem delete_read_error_panics_witness:
  "yaf_unlink env0 sb0 1 [97] (kst0\<lparr>dcache := [(1, [97]) \<mapsto> Some 5]\<rparr>) = Stop Panic"
proof -
  let ?s = "kst0\<lparr>dcache := [(1, [97]) \<mapsto> Some 5]\<rparr>"
  have "dir_map sb0 ?s root0 = dir_map sb0 kst0 root0" by (rule dir_map_disk) simp
  moreover have "dir_wf sb0 root0" using sample_dir(3) [of sb0] by (simp add: dir_inv_def)
  ultimately show ?thesis
    using delete_read_error_panics [of ?s 1 "[97]" 5 root0 sb0 env0] by simp
qed

end
