(* ===== verification/Yaf_Readdir.thy ===== *)
theory Yaf_Readdir
  imports Yaf_DirCreate
begin

text \<open>
  Reading a directory: \<open>yaf_iterate_shared\<close> of \<open>driver/dir.c\<close>. The reader is a context with a
  position and the entries it took; whether it takes one more is decided by the kernel's
  actor, a parameter.
\<close>

section \<open>The reader\<close>

text \<open>An entry as \<open>dir_emit\<close> passes it on: the name, the inode number and the position.\<close>

type_synonym emitted = "name \<times> u64 \<times> nat"

record dctx =
  pos :: nat
  out :: "emitted list"

type_synonym actor = "emitted list \<Rightarrow> emitted \<Rightarrow> bool"

definition dir_emit :: "actor \<Rightarrow> name \<Rightarrow> u64 \<Rightarrow> dctx \<Rightarrow> bool \<times> dctx" where
  "dir_emit A nm ino ctx =
     (if A (out ctx) (nm, ino, pos ctx)
      then (True, ctx\<lparr>out := out ctx @ [(nm, ino, pos ctx)]\<rparr>) else (False, ctx))"

text \<open>
  The kernel's \<open>dir_emit_dots\<close>: "." at position 0 and ".." at position 1, each advancing the
  position when it is taken; \<open>parent\<close> is the inode number of the parent directory.
\<close>

definition dir_emit_dots :: "actor \<Rightarrow> u64 \<Rightarrow> u64 \<Rightarrow> dctx \<Rightarrow> bool \<times> dctx" where
  "dir_emit_dots A dir parent ctx0 =
     (let (ok, ctx1) =
        (if pos ctx0 = 0 then
           let (ok, c) = dir_emit A [46] dir ctx0 in if ok then (True, c\<lparr>pos := 1\<rparr>) else (False, c)
         else (True, ctx0))
      in if \<not> ok then (False, ctx1)
         else if pos ctx1 = 1 then
           let (ok, c) = dir_emit A [46, 46] parent ctx1 in if ok then (True, c\<lparr>pos := 2\<rparr>) else (False, c)
         else (True, ctx1))"

section \<open>The iteration\<close>

text \<open>
  The inner loop: \<open>i\<close> the counter, \<open>yd\<close> the byte offset of the entry pointer in the block,
  \<open>doff\<close> the directory offset. The name is read from the entry with its stored length; a
  length that leads out of the buffer is an invalid access. A refused entry is logged and
  skipped.
\<close>

function emit_scan ::
  "actor \<Rightarrow> block \<Rightarrow> nat \<Rightarrow> nat \<Rightarrow> nat \<Rightarrow> nat \<Rightarrow> dctx \<Rightarrow> (nat \<times> dctx) option" where
  "emit_scan A blk i yd doff sz ctx =
     (if i < DENTRYS_PER_BLOCK \<and> doff < sz then
        if le32_load blk yd \<noteq> RESERVED_INO then
          let len = unat (le32_load blk (yd + 4)) in
          if yd + 8 + len \<le> YAF_BLOCK_SIZE then
            emit_scan A blk (Suc i) (yd + YAF_DENTRY_SIZE) (doff + YAF_DENTRY_SIZE) sz
              (snd (dir_emit A (map (\<lambda>j. blk (yd + 8 + j)) [0..<len]) (ucast (le32_load blk yd)) ctx))
          else None
        else emit_scan A blk (Suc i) (yd + YAF_DENTRY_SIZE) (doff + YAF_DENTRY_SIZE) sz ctx
      else Some (doff, ctx))"
  by pat_completeness auto
termination
  by (relation "measure (\<lambda>(A, blk, i, yd, doff, sz, ctx). DENTRYS_PER_BLOCK - i)") auto

declare emit_scan.simps [simp del]

lemma emit_scan_progress:
  "emit_scan A blk i yd doff sz ctx = Some (doff', ctx') \<Longrightarrow>
     doff \<le> doff' \<and> (i < DENTRYS_PER_BLOCK \<longrightarrow> doff < sz \<longrightarrow> doff < doff')"
proof (induction A blk i yd doff sz ctx rule: emit_scan.induct)
  case (1 A blk i yd doff sz ctx)
  show ?case
  proof (cases "i < DENTRYS_PER_BLOCK \<and> doff < sz")
    case True
    then obtain c where "emit_scan A blk (Suc i) (yd + YAF_DENTRY_SIZE) (doff + YAF_DENTRY_SIZE) sz c =
        Some (doff', ctx')" and "doff + YAF_DENTRY_SIZE \<le> doff'"
      using "1.prems" "1.IH" by (subst (asm) emit_scan.simps) (auto simp: Let_def split: if_splits)
    then show ?thesis by simp
  next
    case False
    with "1.prems" show ?thesis by (subst (asm) emit_scan.simps) auto
  qed
qed

text \<open>
  The outer loop over the blocks: the error code, or 0, the offset reached and the context.
\<close>

function iterate_blocks ::
  "env \<Rightarrow> Yaf_Sb_Info \<Rightarrow> actor \<Rightarrow> u32 list \<Rightarrow> nat \<Rightarrow> nat \<Rightarrow> dctx \<Rightarrow> (int \<times> nat \<times> dctx) kc" where
  "iterate_blocks E sb A ib sz doff ctx =
     (if doff < sz then
        if doff div YAF_BLOCK_SIZE < length ib then
          bnd (sb_bread E (DNO2BID sb (ib ! (doff div YAF_BLOCK_SIZE)))) (\<lambda>bh.
          case bh of
            None \<Rightarrow> ret (- EIO, doff, ctx)
          | Some bh \<Rightarrow>
              bnd (b_data bh) (\<lambda>blk.
              case emit_scan A blk (doff mod YAF_BLOCK_SIZE div YAF_DENTRY_SIZE) 0 doff sz ctx of
                None \<Rightarrow> halt BadAccess
              | Some (doff', ctx') \<Rightarrow>
                  bnd (brelse bh) (\<lambda>_. iterate_blocks E sb A ib sz doff' ctx')))
        else halt BadAccess
      else ret (0, doff, ctx))"
  by pat_completeness auto
termination
  by (relation "measure (\<lambda>(E, sb, A, ib, sz, doff, ctx). sz - doff)")
    (auto dest!: emit_scan_progress simp: less_mult_imp_div_less intro: diff_less_mono2)

declare iterate_blocks.simps [simp del]

definition yaf_iterate_shared ::
  "env \<Rightarrow> Yaf_Sb_Info \<Rightarrow> actor \<Rightarrow> u64 \<Rightarrow> u64 \<Rightarrow> dctx \<Rightarrow> (int \<times> dctx) kc" where
  "yaf_iterate_shared E sb A parent dir ctx =
     bnd (get_inode dir) (\<lambda>d.
     if \<not> S_ISDIR (i_mode d) then ret (- ENOTDIR, ctx)
     else case dir_emit_dots A dir parent ctx of (ok, ctx) \<Rightarrow>
       if \<not> ok then ret (0, ctx)
       else
         let doff = (if pos ctx = 2 then 0 else pos ctx - 2) in
         if pos ctx \<noteq> 2 \<and> doff mod YAF_DENTRY_SIZE \<noteq> 0 then ret (- ENOENT, ctx)
         else
           bnd (iterate_blocks E sb A (i_block d) (i_size d) doff ctx) (\<lambda>(r, doff, ctx).
           if r < 0 then ret (r, ctx)
           else ret (0, ctx\<lparr>pos := doff + 2\<rparr>)))"

section \<open>The iteration as a pass over the slots\<close>

definition emit_slot :: "actor \<Rightarrow> Yaf_Dentry \<Rightarrow> dctx \<Rightarrow> dctx" where
  "emit_slot A e ctx =
     (if d_ino e = RESERVED_INO then ctx else snd (dir_emit A (d_name e) (ucast (d_ino e)) ctx))"

definition name_stored :: "Yaf_Dentry \<Rightarrow> bool" where
  "name_stored e \<longleftrightarrow> (d_ino e \<noteq> RESERVED_INO \<longrightarrow> unat (d_name_len e) = length (d_name e))"

lemma cname_take: "map a [0..<length (cname n a)] = cname n a"
proof -
  have "cname n a = take (length (cname n a)) (map a [0..<n])"
    unfolding cname_def by (rule takeWhile_eq_take)
  also have "\<dots> = map a [0..<length (cname n a)]"
    using cname_props(2) [of n a] by (simp add: take_map take_upt)
  finally show ?thesis by simp
qed

lemma stored_name:
  assumes "name_stored (dentry_load blk off)" and "le32_load blk off \<noteq> RESERVED_INO"
  shows "unat (le32_load blk (off + 4)) \<le> 24"
    "map (\<lambda>j. blk (off + 8 + j)) [0..<unat (le32_load blk (off + 4))] = d_name (dentry_load blk off)"
proof -
  have len: "unat (le32_load blk (off + 4)) = length (cname 24 (\<lambda>i. blk (off + 8 + i)))"
    using assms by (simp add: name_stored_def dentry_load_def)
  then show "unat (le32_load blk (off + 4)) \<le> 24" using cname_props(2) by simp
  show "map (\<lambda>j. blk (off + 8 + j)) [0..<unat (le32_load blk (off + 4))] = d_name (dentry_load blk off)"
    unfolding len cname_take by (simp add: dentry_load_def)
qed

lemma emit_scan_run:
  "\<forall>j<c. name_stored (dentry_load blk (32 * (q + j))) \<Longrightarrow> c = min (128 - i) (n - m) \<Longrightarrow> q + c \<le> 128 \<Longrightarrow>
   emit_scan A blk i (32 * q) (32 * m) (32 * n) ctx =
     Some (32 * (m + c), fold (emit_slot A) (map (\<lambda>j. dentry_load blk (32 * j)) [q..<q + c]) ctx)"
proof (induction c arbitrary: i q m ctx)
  case 0
  then have "\<not> (i < 128 \<and> 32 * m < 32 * n)" by auto
  then show ?case by (subst emit_scan.simps) auto
next
  case (Suc c)
  then have run: "i < 128" "m < n" and q: "q < 128" by auto
  have c: "c = min (128 - Suc i) (n - Suc m)" using Suc.prems(2) by auto
  let ?e = "dentry_load blk (32 * q)"
  have "name_stored ?e" using Suc.prems(1) by auto
  note nm = stored_name [OF this]
  have step: "emit_scan A blk i (32 * q) (32 * m) (32 * n) ctx =
      emit_scan A blk (Suc i) (32 * Suc q) (32 * Suc m) (32 * n) (emit_slot A ?e ctx)"
  proof (cases "le32_load blk (32 * q) = RESERVED_INO")
    case True
    then show ?thesis
      using run by (subst emit_scan.simps) (simp add: emit_slot_def dentry_load_def add.commute)
  next
    case False
    then have "32 * q + 8 + unat (le32_load blk (32 * q + 4)) \<le> 4096" using nm(1) q by simp
    then show ?thesis
      using run False nm(2) [OF False]
      by (subst emit_scan.simps) (simp add: emit_slot_def dentry_load_def Let_def add.commute)
  qed
  have "\<forall>j<c. name_stored (dentry_load blk (32 * (Suc q + j)))"
  proof (intro allI impI)
    fix j assume "j < c"
    then show "name_stored (dentry_load blk (32 * (Suc q + j)))"
      using Suc.prems(1) [rule_format, of "Suc j"] by simp
  qed
  from Suc.IH [OF this c] Suc.prems(3)
  have "emit_scan A blk (Suc i) (32 * Suc q) (32 * Suc m) (32 * n) (emit_slot A ?e ctx) =
      Some (32 * (Suc m + c), fold (emit_slot A)
        (map (\<lambda>j. dentry_load blk (32 * j)) [Suc q..<Suc q + c]) (emit_slot A ?e ctx))"
    by simp
  moreover have "[q..<q + Suc c] = q # [Suc q..<Suc q + c]" by (simp add: upt_conv_Cons)
  ultimately show ?case unfolding step by simp
qed

text \<open>
  From an offset at a block boundary (or the end), the iteration passes over the slots in
  order. From an offset inside of a block, the slots it passes over in that block are the
  first ones of the block, as many as are left from the offset on.
\<close>

lemma iterate_block_run:
  assumes dev: "device_ok E sb" and wf: "dir_wf sb d" and ok: "\<forall>k<nslots d. name_stored (dslot sb s d k)"
    and m: "m < nslots d" and c: "c = min (128 - m mod 128) (nslots d - m)"
  shows "\<exists>t. iterate_blocks E sb A (i_block d) (32 * nslots d) (32 * m) ctx s =
    iterate_blocks E sb A (i_block d) (32 * nslots d) (32 * (m + c))
      (fold (emit_slot A) (map (dslot sb s d) [128 * (m div 128)..<128 * (m div 128) + c]) ctx)
      (s\<lparr>tick := t\<rparr>)"
proof -
  let ?b = "DNO2BID sb (i_block d ! (m div 128))" and ?blk = "disk s (DNO2BID sb (i_block d ! (m div 128)))"
  have blk: "m div 128 < length (i_block d)" "bread_ok E t ?b" for t
    using slot_block [OF wf m] dir_wfD(3) [OF wf] device_readable(3) [OF dev] by auto
  have slot: "dslot sb s d (128 * (m div 128) + j) = dentry_load ?blk (32 * j)" if "j < 128" for j
    using that by (simp add: dslot_def)
  have len: "0 + c \<le> 128" "128 * (m div 128) + c \<le> nslots d" "c \<le> 128"
    using c m mult_div_mod_eq [of 128 m] by linarith+
  have names: "\<forall>j<c. name_stored (dentry_load ?blk (32 * (0 + j)))"
  proof (intro allI impI)
    fix j assume "j < c"
    then have "j < 128" "128 * (m div 128) + j < nslots d" using len by linarith+
    then have "name_stored (dslot sb s d (128 * (m div 128) + j))" using ok by blast
    then show "name_stored (dentry_load ?blk (32 * (0 + j)))" using slot \<open>j < 128\<close> by simp
  qed
  have scan: "emit_scan A ?blk (m mod 128) 0 (32 * m) (32 * nslots d) ctx = Some (32 * (m + c),
      fold (emit_slot A) (map (\<lambda>j. dentry_load ?blk (32 * j)) [0..<c]) ctx)"
    using emit_scan_run [OF names c len(1), of A ctx] by simp
  have "[128 * (m div 128)..<128 * (m div 128) + c] = map ((+) (128 * (m div 128))) [0..<c]"
    by (rule nth_equalityI) simp_all
  then have "map (dslot sb s d) [128 * (m div 128)..<128 * (m div 128) + c] =
      map (\<lambda>j. dentry_load ?blk (32 * j)) [0..<c]"
    using slot len(3) by (simp add: comp_def)
  then show ?thesis
    using m blk scan
    by (intro exI [of _ "tick s + 1"]) (subst iterate_blocks.simps, simp add: yaf_exec slot_offset)
qed

lemma iterate_blocks_run:
  assumes dev: "device_ok E sb" and wf: "dir_wf sb d"
  shows "\<forall>k<nslots d. name_stored (dslot sb s d k) \<Longrightarrow> m mod 128 = 0 \<or> m = nslots d \<Longrightarrow> m \<le> nslots d \<Longrightarrow>
    \<exists>t. iterate_blocks E sb A (i_block d) (32 * nslots d) (32 * m) ctx s =
      Run (0, 32 * nslots d, fold (emit_slot A) (map (dslot sb s d) [m..<nslots d]) ctx) (s\<lparr>tick := t\<rparr>)"
proof (induction "nslots d - m" arbitrary: m s ctx rule: less_induct)
  case less
  let ?n = "nslots d"
  show ?case
  proof (cases "m < ?n")
    case False
    then show ?thesis
      using less.prems by (intro exI [of _ "tick s"]) (simp add: iterate_blocks.simps)
  next
    case True
    define c where "c = min 128 (?n - m)"
    have m: "m mod 128 = 0" "128 * (m div 128) = m" using less.prems True by auto
    obtain t where step: "iterate_blocks E sb A (i_block d) (32 * ?n) (32 * m) ctx s =
        iterate_blocks E sb A (i_block d) (32 * ?n) (32 * (m + c))
          (fold (emit_slot A) (map (dslot sb s d) [m..<m + c]) ctx) (s\<lparr>tick := t\<rparr>)"
      using iterate_block_run [OF dev wf less.prems(1) True refl, of A ctx] m c_def by auto
    have same: "dslot sb (s\<lparr>tick := t\<rparr>) d = dslot sb s d" by (intro ext) (simp add: dslot_def)
    have "m + c \<le> ?n" "(m + c) mod 128 = 0 \<or> m + c = ?n" "?n - (m + c) < ?n - m"
      using True m by (auto simp: c_def min_def)
    moreover have "\<forall>k<?n. name_stored (dslot sb (s\<lparr>tick := t\<rparr>) d k)" using less.prems(1) same by simp
    ultimately obtain t' where "iterate_blocks E sb A (i_block d) (32 * ?n) (32 * (m + c))
        (fold (emit_slot A) (map (dslot sb s d) [m..<m + c]) ctx) (s\<lparr>tick := t\<rparr>) =
        Run (0, 32 * ?n, fold (emit_slot A) (map (dslot sb s d) [m + c..<?n])
          (fold (emit_slot A) (map (dslot sb s d) [m..<m + c]) ctx)) (s\<lparr>tick := t'\<rparr>)"
      using less.hyps [of "m + c" "s\<lparr>tick := t\<rparr>"
        "fold (emit_slot A) (map (dslot sb s d) [m..<m + c]) ctx"] unfolding same by auto
    moreover have "[m..<?n] = [m..<m + c] @ [m + c..<?n]"
      using upt_add_eq_append [of m "m + c" "?n - (m + c)"] \<open>m + c \<le> ?n\<close> by simp
    ultimately show ?thesis unfolding step by (intro exI [of _ t']) simp
  qed
qed

section \<open>What the reader gets\<close>

definition live_entries :: "Yaf_Sb_Info \<Rightarrow> kst \<Rightarrow> Yaf_Inode_Info \<Rightarrow> nat \<Rightarrow> nat \<Rightarrow> emitted list" where
  "live_entries sb s d from to = map (\<lambda>e. (d_name e, ucast (d_ino e), 2))
     (filter (\<lambda>e. d_ino e \<noteq> RESERVED_INO) (map (dslot sb s d) [from..<to]))"

lemma fold_emit_all:
  "\<forall>o' e. A o' e \<Longrightarrow> fold (emit_slot A) es ctx = ctx\<lparr>out := out ctx @
     map (\<lambda>e. (d_name e, ucast (d_ino e), pos ctx)) (filter (\<lambda>e. d_ino e \<noteq> RESERVED_INO) es)\<rparr>"
  by (induction es arbitrary: ctx) (simp_all add: emit_slot_def dir_emit_def)

lemma fold_emit_room:
  "length (out ctx) \<le> c \<Longrightarrow> fold (emit_slot (\<lambda>o' e. length o' < c)) es ctx = ctx\<lparr>out := take c (out ctx @
     map (\<lambda>e. (d_name e, ucast (d_ino e), pos ctx)) (filter (\<lambda>e. d_ino e \<noteq> RESERVED_INO) es))\<rparr>"
proof (induction es arbitrary: ctx)
  case (Cons e es)
  then show ?case
    by (cases "length (out ctx) < c") (simp_all add: emit_slot_def dir_emit_def take_Cons')
qed simp

lemma emit_dots_start:
  "A [] ([46], dir, 0) \<Longrightarrow> A [([46], dir, 0)] ([46, 46], parent, 1) \<Longrightarrow>
   dir_emit_dots A dir parent \<lparr>pos = 0, out = []\<rparr> =
     (True, \<lparr>pos = 2, out = [([46], dir, 0), ([46, 46], parent, 1)]\<rparr>)"
  by (simp add: dir_emit_dots_def dir_emit_def Let_def)

lemma emit_dots_later: "2 \<le> pos ctx \<Longrightarrow> dir_emit_dots A dir parent ctx = (True, ctx)"
  by (simp add: dir_emit_dots_def)

text \<open>A whole pass from the start, for an actor that takes the two dots.\<close>

lemma iterate_from_start:
  assumes dev: "device_ok E sb" and d: "icache s dir = Some d" "S_ISDIR (i_mode d)" and inv: "dir_inv sb s d"
    and A: "A [] ([46], dir, 0)" "A [([46], dir, 0)] ([46, 46], parent, 1)"
  shows "\<exists>t. yaf_iterate_shared E sb A parent dir \<lparr>pos = 0, out = []\<rparr> s =
    Run (0, (fold (emit_slot A) (map (dslot sb s d) [0..<nslots d])
      \<lparr>pos = 2, out = [([46], dir, 0), ([46, 46], parent, 1)]\<rparr>)\<lparr>pos := i_size d + 2\<rparr>) (s\<lparr>tick := t\<rparr>)"
proof -
  have wf: "dir_wf sb d" and names: "\<forall>k<nslots d. name_stored (dslot sb s d k)"
    using inv by (auto simp: dir_inv_def lengths_ok_def name_stored_def)
  obtain t where "iterate_blocks E sb A (i_block d) (32 * nslots d) 0
      \<lparr>pos = 2, out = [([46], dir, 0), ([46, 46], parent, 1)]\<rparr> s =
      Run (0, 32 * nslots d, fold (emit_slot A) (map (dslot sb s d) [0..<nslots d])
        \<lparr>pos = 2, out = [([46], dir, 0), ([46, 46], parent, 1)]\<rparr>) (s\<lparr>tick := t\<rparr>)"
    using iterate_blocks_run [OF dev wf names, of 0 A] by auto
  then show ?thesis
    using d dir_wfD(1) [OF wf]
    by (intro exI [of _ t]) (simp add: yaf_iterate_shared_def yaf_exec emit_dots_start [OF A])
qed

section \<open>A sample directory\<close>

text \<open>A directory with the names "a" and "b" in its only block.\<close>

definition two_dir :: Yaf_Inode_Info where
  "two_dir = root0\<lparr>i_size := 64, i_nlink := 3, i_block := 0 # replicate 7 RESERVED_DNO\<rparr>"

definition two_names :: kst where
  "two_names = kst0\<lparr>disk := disk0(2 := mark_bit 0 (disk0 2), DNO2BID sb0 0 :=
       dentry_store 32 (new_entry [98] 3) (dentry_store 0 (new_entry [97] 2) (\<lambda>_. 0))),
     icache := [1 \<mapsto> two_dir]\<rparr>"

lemma two_slots:
  "dslot sb0 two_names two_dir 0 = new_entry [97] 2" "dslot sb0 two_names two_dir 1 = new_entry [98] 3"
proof -
  have v: "dentry_valid (new_entry [97] 2)" "dentry_valid (new_entry [98] 3)"
    by (simp_all add: dentry_valid_def valid_name_def new_entry_def)
  show "dslot sb0 two_names two_dir 0 = new_entry [97] 2" "dslot sb0 two_names two_dir 1 = new_entry [98] 3"
    using dentry.load_slot [OF v(1), of 0 "\<lambda>_. 0" 0]
      dentry.load_slot [OF v(2), of 1 "dentry_store 0 (new_entry [97] 2) (\<lambda>_. 0)" 0]
      dentry.load_slot [OF v(2), of 1 "dentry_store 0 (new_entry [97] 2) (\<lambda>_. 0)" 1]
    by (simp_all add: dslot_def two_names_def two_dir_def)
qed

lemma two_dir_inv: "nslots two_dir = 2" "dir_inv sb0 two_names two_dir"
proof -
  show n: "nslots two_dir = 2" by (simp add: nslots_def two_dir_def)
  have all2: "(\<forall>k<2. P k) \<longleftrightarrow> P 0 \<and> P (1 :: nat)" for P by (auto simp: less_2_cases_iff)
  have blk: "i_block two_dir ! j = (if j = 0 then 0 else RESERVED_DNO)" if "j < 8" for j
    using that by (cases j) (simp_all add: two_dir_def)
  have small: "128 * j < 2 \<longleftrightarrow> j = 0" for j :: nat by arith
  have "dir_wf sb0 two_dir"
    unfolding dir_wf_def n layout_consts
    using blk by (simp add: small) (simp add: two_dir_def sb0_def)
  moreover have "(2 :: u64) \<noteq> DNO2BID sb0 0"
    using DNO2BID_sections(4) [OF sb_ok_sb0, of 0] by (simp add: BID_min_eqs sb0_def)
  then have "0 \<in> used_bits (disk two_names (BID_DBP_MIN sb0))"
    by (simp add: two_names_def used_bits_def BID_min_eqs(4) sb0_def)
  then have "blocks_marked sb0 two_names two_dir"
    unfolding blocks_marked_def n layout_consts using blk by (simp add: small)
  moreover have nz: "(2 :: u32) \<noteq> RESERVED_INO" "(3 :: u32) \<noteq> RESERVED_INO" by (simp_all add: RESERVED_INO_def)
  have "names_unique (dslot sb0 two_names two_dir) 2"
    unfolding names_unique_def all2 two_slots by (simp add: live_as_def new_entry_def)
  moreover have "{k. k < 2 \<and> d_ino (dslot sb0 two_names two_dir k) \<noteq> RESERVED_INO} = {0, 1}"
    using two_slots nz by (auto simp: less_2_cases_iff new_entry_def)
  then have "live_count (dslot sb0 two_names two_dir) 2 = 2" by (simp add: live_count_def)
  moreover have "lengths_ok (dslot sb0 two_names two_dir) 2"
    unfolding lengths_ok_def all2 two_slots by (simp add: new_entry_def)
  ultimately show "dir_inv sb0 two_names two_dir"
    unfolding dir_inv_def n by (simp add: two_dir_def)
qed

section \<open>Properties\<close>

text \<open>
  C28. A complete listing. For a directory that satisfies its invariant, on a working device
  and with a reader that takes every entry, \<open>yaf_iterate_shared\<close> from position 0 returns 0
  and emits ".", ".." and then every live entry once, in the order of the slots: the pairs
  emitted are exactly the map of the directory. The position is the end, no block and no
  reference count changes.
\<close>

theorem readdir_complete:
  assumes "device_ok E sb" and "icache s dir = Some d" and "S_ISDIR (i_mode d)" and "dir_inv sb s d"
    and "\<forall>o' e. A o' e"
  shows "\<exists>s' ctx es. yaf_iterate_shared E sb A parent dir \<lparr>pos = 0, out = []\<rparr> s = Run (0, ctx) s' \<and>
    pos ctx = i_size d + 2 \<and> out ctx = [([46], dir, 0), ([46, 46], parent, 1)] @ es \<and>
    es = live_entries sb s d 0 (nslots d) \<and>
    (\<forall>nm ino. dir_map sb s d nm = Some ino \<longleftrightarrow> (nm, ucast ino, 2) \<in> set es) \<and>
    disk s' = disk s \<and> refs s' = refs s \<and> icache s' = icache s"
proof -
  have "dir_map sb s d nm = Some ino \<longleftrightarrow> (nm, ucast ino, 2) \<in> set (live_entries sb s d 0 (nslots d))" for nm ino
    using entry_map_iff [of "dslot sb s d" "nslots d" nm ino] assms(4)
    by (auto simp: dir_inv_def dir_map_def live_entries_def live_as_def)
  then show ?thesis
    using iterate_from_start [OF assms(1-4), of A parent] assms(5)
    by (auto simp: fold_emit_all live_entries_def)
qed

theorem readdir_complete_witness:
  "\<exists>s' ctx. yaf_iterate_shared env0 sb0 (\<lambda>_ _. True) 1 1 \<lparr>pos = 0, out = []\<rparr> kst0 = Run (0, ctx) s' \<and>
     pos ctx = 2"
proof -
  have "icache kst0 1 = Some root0" "S_ISDIR (i_mode root0)"
    by (simp_all add: S_ISDIR_def S_IFMT_def S_IFDIR_def)
  then show ?thesis
    using readdir_complete [of env0 sb0 kst0 1 root0 "\<lambda>_ _. True" 1] by auto
qed

text \<open>
  C29. A reader that fills up loses entries. When the reader has room for \<open>c\<close> entries (the two
  dots at least), \<open>yaf_iterate_shared\<close> hands over the first \<open>c\<close>, logs the refusal of the
  others and still moves the position to the end of the directory, so that the next call, with
  any reader, returns 0 and emits nothing: the remaining entries are never seen.
\<close>

theorem readdir_loses_entries:
  assumes "device_ok E sb" and "icache s dir = Some d" and "S_ISDIR (i_mode d)" and "dir_inv sb s d"
    and "2 \<le> c"
  shows "\<exists>s' ctx. yaf_iterate_shared E sb (\<lambda>o' e. length o' < c) parent dir \<lparr>pos = 0, out = []\<rparr> s =
      Run (0, ctx) s' \<and>
    out ctx = take c ([([46], dir, 0), ([46, 46], parent, 1)] @ live_entries sb s d 0 (nslots d)) \<and>
    pos ctx = i_size d + 2 \<and>
    (\<forall>A o'. yaf_iterate_shared E sb A parent dir \<lparr>pos = pos ctx, out = o'\<rparr> s' =
       Run (0, \<lparr>pos = pos ctx, out = o'\<rparr>) s')"
proof -
  let ?A = "\<lambda>o' e :: emitted. length (o' :: emitted list) < c"
  obtain t where run: "yaf_iterate_shared E sb ?A parent dir \<lparr>pos = 0, out = []\<rparr> s =
    Run (0, (fold (emit_slot ?A) (map (dslot sb s d) [0..<nslots d])
      \<lparr>pos = 2, out = [([46], dir, 0), ([46, 46], parent, 1)]\<rparr>)\<lparr>pos := i_size d + 2\<rparr>) (s\<lparr>tick := t\<rparr>)"
    using iterate_from_start [OF assms(1-4), of ?A parent] assms(5) by auto
  have "i_size d mod 32 = 0" using assms(4) dir_wfD(1) [of sb d] by (simp add: dir_inv_def)
  then have "yaf_iterate_shared E sb A parent dir \<lparr>pos = i_size d + 2, out = o'\<rparr> (s\<lparr>tick := t\<rparr>) =
      Run (0, \<lparr>pos = i_size d + 2, out = o'\<rparr>) (s\<lparr>tick := t\<rparr>)" for A o'
    using assms(2,3)
    by (simp add: yaf_iterate_shared_def yaf_exec emit_dots_later iterate_blocks.simps)
  then show ?thesis
    using run assms(5) by (simp add: fold_emit_room live_entries_def)
qed

theorem readdir_loses_entries_witness:
  "\<exists>s' ctx. yaf_iterate_shared env0 sb0 (\<lambda>o' e. length o' < 2) 1 1 \<lparr>pos = 0, out = []\<rparr> kst0 =
     Run (0, ctx) s' \<and> length (out ctx) = 2"
proof -
  have "icache kst0 1 = Some root0" "S_ISDIR (i_mode root0)"
    by (simp_all add: S_ISDIR_def S_IFMT_def S_IFDIR_def)
  then show ?thesis
    using readdir_loses_entries [of env0 sb0 kst0 1 root0 2 1] by (auto simp: live_entries_def)
qed

text \<open>
  Resuming inside of a block. From a position \<open>2 + 32 m\<close> with \<open>0 < m\<close> inside of the only
  block of a directory, \<open>yaf_iterate_shared\<close> does not emit the entries from slot \<open>m\<close> on but as
  many from the start of the block: its entry pointer is not moved to the offset. From a
  position that is not at an entry it returns \<open>-ENOENT\<close>, and on anything but a directory
  \<open>-ENOTDIR\<close>.
\<close>

theorem readdir_resume:
  assumes "device_ok E sb" and "icache s dir = Some d" and "dir_inv sb s d" and "nslots d \<le> DENTRYS_PER_BLOCK"
    and "m < nslots d" and "0 < m" and "\<forall>o' e. A o' e"
  shows "if S_ISDIR (i_mode d) then
      (\<exists>s'. yaf_iterate_shared E sb A parent dir \<lparr>pos = 2 + 32 * m, out = []\<rparr> s =
        Run (0, \<lparr>pos = i_size d + 2, out = map (\<lambda>(nm, ino, p). (nm, ino, 2 + 32 * m))
          (live_entries sb s d 0 (nslots d - m))\<rparr>) s') \<and>
      (\<forall>r. 0 < r \<and> r < 32 \<longrightarrow> yaf_iterate_shared E sb A parent dir \<lparr>pos = 2 + 32 * m + r, out = []\<rparr> s =
        Run (- ENOENT, \<lparr>pos = 2 + 32 * m + r, out = []\<rparr>) s)
    else yaf_iterate_shared E sb A parent dir \<lparr>pos = 2 + 32 * m, out = []\<rparr> s =
      Run (- ENOTDIR, \<lparr>pos = 2 + 32 * m, out = []\<rparr>) s"
proof (cases "S_ISDIR (i_mode d)")
  case True
  let ?n = "nslots d" and ?ctx = "\<lparr>pos = 2 + 32 * m, out = []\<rparr>"
  have wf: "dir_wf sb d" and names: "\<forall>k<?n. name_stored (dslot sb s d k)"
    using assms(3) by (auto simp: dir_inv_def lengths_ok_def name_stored_def)
  have m: "m div 128 = 0" "?n - m = min (128 - m mod 128) (?n - m)" "m + (?n - m) = ?n"
    using assms(4,5) by auto
  obtain t where "iterate_blocks E sb A (i_block d) (32 * ?n) (32 * m) ?ctx s =
      iterate_blocks E sb A (i_block d) (32 * ?n) (32 * ?n)
        (fold (emit_slot A) (map (dslot sb s d) [0..<?n - m]) ?ctx) (s\<lparr>tick := t\<rparr>)"
    using iterate_block_run [OF assms(1) wf names assms(5) m(2), of A ?ctx] m by auto
  then have "iterate_blocks E sb A (i_block d) (32 * ?n) (32 * m) ?ctx s =
      Run (0, 32 * ?n, fold (emit_slot A) (map (dslot sb s d) [0..<?n - m]) ?ctx) (s\<lparr>tick := t\<rparr>)"
    by (simp add: iterate_blocks.simps)
  then have "yaf_iterate_shared E sb A parent dir ?ctx s =
      Run (0, \<lparr>pos = i_size d + 2, out = map (\<lambda>(nm, ino, p). (nm, ino, 2 + 32 * m))
          (live_entries sb s d 0 (?n - m))\<rparr>) (s\<lparr>tick := t\<rparr>)"
    using True assms(2,6,7) dir_wfD(1) [OF wf]
    by (simp add: yaf_iterate_shared_def yaf_exec emit_dots_later fold_emit_all live_entries_def Let_def comp_def)
  moreover have "yaf_iterate_shared E sb A parent dir \<lparr>pos = 2 + 32 * m + r, out = []\<rparr> s =
        Run (- ENOENT, \<lparr>pos = 2 + 32 * m + r, out = []\<rparr>) s" if "0 < r \<and> r < 32" for r
    using True assms(2,6) that by (simp add: yaf_iterate_shared_def yaf_exec emit_dots_later)
  ultimately show ?thesis using True by auto
next
  case False
  then show ?thesis using assms(2) by (simp add: yaf_iterate_shared_def yaf_exec)
qed

theorem readdir_resume_witness:
  "\<exists>s'. yaf_iterate_shared env0 sb0 (\<lambda>_ _. True) 1 1 \<lparr>pos = 34, out = []\<rparr> two_names =
     Run (0, \<lparr>pos = 66, out = [([97], 2, 34)]\<rparr>) s'"
proof -
  have "S_ISDIR (i_mode two_dir)" "icache two_names 1 = Some two_dir" "i_size two_dir = 64"
    by (simp_all add: S_ISDIR_def S_IFMT_def S_IFDIR_def two_names_def two_dir_def)
  moreover have "live_entries sb0 two_names two_dir 0 1 = [([97], 2, 2)]"
    using two_slots by (simp add: live_entries_def new_entry_def RESERVED_INO_def)
  ultimately show ?thesis
    using readdir_resume [of env0 sb0 two_names 1 two_dir 1 "\<lambda>_ _. True" 1] two_dir_inv by simp
qed

end
