(* ===== verification/Yaf_File.thy ===== *)
theory Yaf_File
  imports Yaf_DirDelete Yaf_Readdir
begin

text \<open>
  Regular files: \<open>yaf_get_block\<close>, which maps a block of a file to a block of the device and
  extends the block list, and the address space operations around it, all of
  \<open>driver/file.c\<close>. The generic functions of the kernel that these operations call are
  parameters.
\<close>

section \<open>Operations\<close>

text \<open>The loop that finds the first unused entry of the block list, from entry \<open>dbnr\<close>.\<close>

function used_blocks :: "u32 list \<Rightarrow> nat \<Rightarrow> nat" where
  "used_blocks ib dbnr =
     (if dbnr < YAF_IBLOCKS \<and> ib ! dbnr \<noteq> RESERVED_DNO then used_blocks ib (Suc dbnr) else dbnr)"
  by pat_completeness auto
termination
  by (relation "measure (\<lambda>(ib, dbnr). YAF_IBLOCKS - dbnr)") auto

declare used_blocks.simps [simp del]

text \<open>The loop that allocates the entries from \<open>dbnr\<close> up to \<open>n\<close>: 0 or an error code.\<close>

function extend_blocks :: "env \<Rightarrow> Yaf_Sb_Info \<Rightarrow> u64 \<Rightarrow> nat \<Rightarrow> nat \<Rightarrow> int kc" where
  "extend_blocks E sb ino dbnr n =
     (if dbnr \<le> n then
        bnd (yaf_get_free_dblock E sb) (\<lambda>dno.
        if dno = RESERVED_DNO then bnd (mark_inode_dirty ino) (\<lambda>_. ret (- ENOSPC))
        else
          bnd (upd_inode ino (\<lambda>v. v\<lparr>i_block := (i_block v)[dbnr := dno]\<rparr>)) (\<lambda>_.
          extend_blocks E sb ino (Suc dbnr) n))
      else ret 0)"
  by pat_completeness auto
termination
  by (relation "measure (\<lambda>(E, sb, ino, dbnr, n). Suc n - dbnr)") auto

declare extend_blocks.simps [simp del]

text \<open>The result with the block \<open>map_bh\<close> maps the buffer head to, if it is reached.\<close>

definition map_block :: "Yaf_Sb_Info \<Rightarrow> u64 \<Rightarrow> nat \<Rightarrow> (int \<times> u64 option) kc" where
  "map_block sb ino n =
     bnd (get_inode ino) (\<lambda>v. bnd (iblock v n) (\<lambda>dno. ret (0, Some (DNO2BID sb dno))))"

definition yaf_get_block ::
  "env \<Rightarrow> Yaf_Sb_Info \<Rightarrow> u64 \<Rightarrow> u64 \<Rightarrow> bool \<Rightarrow> (int \<times> u64 option) kc" where
  "yaf_get_block E sb ino blk create =
     (if of_nat YAF_IBLOCKS \<le> blk then ret (- EFBIG, None)
      else
        bnd (get_inode ino) (\<lambda>v.
        let dbnr = used_blocks (i_block v) 0 in
        if dbnr \<le> unat blk then
          if \<not> create then ret (0, None)
          else
            bnd (extend_blocks E sb ino dbnr (unat blk)) (\<lambda>r.
            if r < 0 then ret (r, None)
            else bnd (mark_inode_dirty ino) (\<lambda>_. map_block sb ino (unat blk)))
        else map_block sb ino (unat blk)))"

type_synonym get_block = "u64 \<Rightarrow> bool \<Rightarrow> (int \<times> u64 option) kc"

text \<open>
  \<open>mpage_readahead\<close> and \<open>block_write_full_page\<close> of the kernel, as functions of the callback
  they are given.
\<close>

definition yaf_readahead :: "(get_block \<Rightarrow> unit kc) \<Rightarrow> env \<Rightarrow> Yaf_Sb_Info \<Rightarrow> u64 \<Rightarrow> unit kc" where
  "yaf_readahead mpage_readahead E sb ino = mpage_readahead (yaf_get_block E sb ino)"

definition yaf_writepage :: "(get_block \<Rightarrow> int kc) \<Rightarrow> env \<Rightarrow> Yaf_Sb_Info \<Rightarrow> u64 \<Rightarrow> int kc" where
  "yaf_writepage block_write_full_page E sb ino = block_write_full_page (yaf_get_block E sb ino)"

definition yaf_write_begin ::
  "(get_block \<Rightarrow> nat \<Rightarrow> u32 \<Rightarrow> int kc) \<Rightarrow> env \<Rightarrow> Yaf_Sb_Info \<Rightarrow> u64 \<Rightarrow> nat \<Rightarrow> u32 \<Rightarrow> int kc" where
  "yaf_write_begin block_write_begin E sb ino off len =
     (if MAX_FILESIZE < off + unat len then ret (- ENOSPC)
      else
        bnd (block_write_begin (yaf_get_block E sb ino) off len) (\<lambda>r.
        if r < 0 then ret r else ret r))"

text \<open>
  The test \<open>ret < len\<close> of \<open>yaf_write_end\<close> compares an \<open>int\<close> with an \<open>unsigned int\<close>, that is
  as unsigned words.
\<close>

definition yaf_write_end ::
  "(nat \<Rightarrow> u32 \<Rightarrow> u32 \<Rightarrow> int kc) \<Rightarrow> env \<Rightarrow> u64 \<Rightarrow> nat \<Rightarrow> u32 \<Rightarrow> u32 \<Rightarrow> int kc" where
  "yaf_write_end generic_write_end E ino off len copied =
     bnd (generic_write_end off len copied) (\<lambda>r.
     if (of_int r :: u32) < len then ret r
     else
       bnd (current_time E) (\<lambda>cur.
       bnd (upd_inode ino (\<lambda>v. v\<lparr>i_ctime := cur, i_mtime := cur\<rparr>)) (\<lambda>_.
       bnd (mark_inode_dirty ino) (\<lambda>_.
       ret r))))"

section \<open>The block list of a file\<close>

text \<open>
  The first \<open>n\<close> entries of the block list are distinct data blocks of the device that are
  marked used, the others are unused.
\<close>

definition file_blocks :: "Yaf_Sb_Info \<Rightarrow> kst \<Rightarrow> Yaf_Inode_Info \<Rightarrow> nat \<Rightarrow> bool" where
  "file_blocks sb s v n \<longleftrightarrow> n \<le> YAF_IBLOCKS \<and> length (i_block v) = YAF_IBLOCKS \<and>
     (\<forall>j<n. i_block v ! j < nr_d sb \<and> unat (i_block v ! j) \<in> used_bits (disk s (BID_DBP_MIN sb))) \<and>
     (\<forall>j<YAF_IBLOCKS. n \<le> j \<longrightarrow> i_block v ! j = RESERVED_DNO) \<and>
     inj_on (\<lambda>j. i_block v ! j) {..<n}"

text \<open>
  The data blocks the allocator can still hand out. Only the first 32768 of the device count, those of
  the first data bitmap block: when it is full the allocator fails, whatever the other blocks of
  the bitmap have left.
\<close>

definition free_dblocks :: "Yaf_Sb_Info \<Rightarrow> kst \<Rightarrow> nat set" where
  "free_dblocks sb s =
     {..<min (unat (nr_d sb)) BITS_PER_BLOCK} - used_bits (disk s (BID_DBP_MIN sb))"

lemma used_blocks_run:
  "n \<le> 8 \<Longrightarrow> k \<le> n \<Longrightarrow> (\<And>j. j < n \<Longrightarrow> ib ! j \<noteq> RESERVED_DNO) \<Longrightarrow> (n < 8 \<Longrightarrow> ib ! n = RESERVED_DNO) \<Longrightarrow>
   used_blocks ib k = n"
proof (induction "n - k" arbitrary: k)
  case 0
  then show ?case by (subst used_blocks.simps) auto
next
  case (Suc m)
  then have "used_blocks ib (Suc k) = n" "k < 8" "ib ! k \<noteq> RESERVED_DNO" by simp_all
  then show ?case by (subst used_blocks.simps) simp
qed

lemma used_bits_not_reserved: "unat x \<in> used_bits blk \<Longrightarrow> x \<noteq> RESERVED_DNO"
  by (auto simp: used_bits_def)

lemma file_blocks_count: "file_blocks sb s v n \<Longrightarrow> used_blocks (i_block v) 0 = n"
  unfolding file_blocks_def layout_consts
  by (intro used_blocks_run) (blast intro: used_bits_not_reserved dest: used_bits_not_reserved | simp)+

lemma free_alloc:
  assumes "free_dblocks sb s \<noteq> {}"
  shows "\<exists>k. alloc_result (disk s (BID_DBP_MIN sb)) = of_nat k \<and>
    unat (alloc_result (disk s (BID_DBP_MIN sb))) = k \<and> k \<in> free_dblocks sb s \<and>
    alloc_block (disk s (BID_DBP_MIN sb)) = mark_bit k (disk s (BID_DBP_MIN sb))"
proof -
  let ?u = "used_bits (disk s (BID_DBP_MIN sb))"
  obtain m where "m \<in> free_dblocks sb s" using assms by blast
  then have m: "m < min (unat (nr_d sb)) BITS_PER_BLOCK" "m \<notin> ?u" by (simp_all add: free_dblocks_def)
  then have "?u \<noteq> {..<BITS_PER_BLOCK}" by auto
  then obtain k where k: "alloc_result (disk s (BID_DBP_MIN sb)) = of_nat k"
      "unat (alloc_result (disk s (BID_DBP_MIN sb))) = k" "k \<notin> ?u" "{..<k} \<subseteq> ?u" "k < BITS_PER_BLOCK"
      "alloc_block (disk s (BID_DBP_MIN sb)) = mark_bit k (disk s (BID_DBP_MIN sb))"
    using alloc_run_cases(1) by blast
  have "k \<le> m" using k(4) m(2) by (metis lessThan_iff not_le subsetD)
  with k m show ?thesis by (auto simp: free_dblocks_def)
qed

text \<open>What the allocation of the entries \<open>n\<close> to \<open>m\<close> leaves behind.\<close>

definition extended :: "Yaf_Sb_Info \<Rightarrow> u64 \<Rightarrow> kst \<Rightarrow> Yaf_Inode_Info \<Rightarrow> kst \<Rightarrow> u32 list \<Rightarrow> nat \<Rightarrow> nat \<Rightarrow> bool" where
  "extended sb ino s v s' ib n m \<longleftrightarrow>
     icache s' = (icache s)(ino := Some (v\<lparr>i_block := ib\<rparr>)) \<and> length ib = YAF_IBLOCKS \<and>
     (\<forall>j. j < n \<or> m < j \<longrightarrow> ib ! j = i_block v ! j) \<and>
     (\<forall>j\<in>{n..m}. unat (ib ! j) \<in> free_dblocks sb s) \<and> inj_on (\<lambda>j. ib ! j) {n..m} \<and>
     used_bits (disk s' (BID_DBP_MIN sb)) =
       used_bits (disk s (BID_DBP_MIN sb)) \<union> (\<lambda>j. unat (ib ! j)) ` {n..m} \<and>
     (\<forall>b. b \<noteq> BID_DBP_MIN sb \<longrightarrow> disk s' b = disk s b) \<and> refs s' = refs s \<and> inew s' = inew s \<and>
     dcache s' = dcache s \<and> changes_marked s s' \<and> idirty s \<subseteq> idirty s'"

text \<open>One allocation, as long as a block is free.\<close>

lemma free_dblock_run:
  assumes "sb_ok sb" and "\<forall>t. bread_ok E t (BID_DBP_MIN sb)" and "free_dblocks sb s \<noteq> {}"
  obtains k dno s1 where "yaf_get_free_dblock E sb s = Run dno s1" and "k \<in> free_dblocks sb s" and "unat dno = k"
    and "dno \<noteq> RESERVED_DNO" and "disk s1 = (disk s)(BID_DBP_MIN sb := mark_bit k (disk s (BID_DBP_MIN sb)))"
    and "free_dblocks sb s1 = free_dblocks sb s - {k}"
    and "used_bits (disk s1 (BID_DBP_MIN sb)) = insert k (used_bits (disk s (BID_DBP_MIN sb)))"
    and "icache s1 = icache s" and "refs s1 = refs s" and "inew s1 = inew s" and "dcache s1 = dcache s"
    and "changes_marked s s1" and "idirty s1 = idirty s"
proof -
  let ?b = "BID_DBP_MIN sb"
  obtain k where k: "alloc_result (disk s ?b) = of_nat k" "unat (alloc_result (disk s ?b)) = k"
      "k \<in> free_dblocks sb s" "alloc_block (disk s ?b) = mark_bit k (disk s ?b)"
    using free_alloc assms(3) by blast
  let ?s1 = "s\<lparr>disk := (disk s)(?b := mark_bit k (disk s ?b)), bdirty := insert ?b (bdirty s),
         loose := (if refs s ?b = 0 then insert ?b (loose s) else loose s), tick := tick s + 1\<rparr>"
  have used: "used_bits (disk ?s1 ?b) = insert k (used_bits (disk s ?b))"
    using k(3) by (auto simp: used_bits_def free_dblocks_def simp del: layout_consts)
  show thesis
  proof (rule that [of "alloc_result (disk s ?b)" ?s1 k])
    show "yaf_get_free_dblock E sb s = Run (alloc_result (disk s ?b)) ?s1"
      using get_free_dblock_run [of sb E s] assms(1,2) k(4) by simp
    show "free_dblocks sb ?s1 = free_dblocks sb s - {k}" using used by (auto simp: free_dblocks_def)
    show "alloc_result (disk s ?b) \<noteq> RESERVED_DNO" using k(2,3) by (auto simp: free_dblocks_def)
  qed (use k used in \<open>auto simp: changes_marked_def\<close>)
qed

text \<open>One block more at the front of the blocks that are allocated.\<close>

lemma extended_Cons:
  assumes k: "k \<in> free_dblocks sb s" "unat dno = k" and n: "n \<le> m" "m < 8" "length (i_block v) = 8"
    and s2: "icache s2 = (icache s)(ino := Some (v\<lparr>i_block := (i_block v)[n := dno]\<rparr>))"
      "used_bits (disk s2 (BID_DBP_MIN sb)) = insert k (used_bits (disk s (BID_DBP_MIN sb)))"
      "free_dblocks sb s2 = free_dblocks sb s - {k}"
      "(\<forall>b. b \<noteq> BID_DBP_MIN sb \<longrightarrow> disk s2 b = disk s b) \<and> refs s2 = refs s \<and> inew s2 = inew s \<and>
       dcache s2 = dcache s \<and> changes_marked s s2 \<and> idirty s2 = idirty s"
    and ext: "extended sb ino s2 (v\<lparr>i_block := (i_block v)[n := dno]\<rparr>) s' ib (Suc n) m"
  shows "extended sb ino s v s' ib n m"
proof -
  let ?b = "BID_DBP_MIN sb"
  have e: "icache s' = (icache s)(ino := Some (v\<lparr>i_block := ib\<rparr>))" "length ib = YAF_IBLOCKS"
      "\<And>j. j < Suc n \<or> m < j \<Longrightarrow> ib ! j = (i_block v)[n := dno] ! j"
      "\<And>j. j \<in> {Suc n..m} \<Longrightarrow> unat (ib ! j) \<in> free_dblocks sb s - {k}" "inj_on (\<lambda>j. ib ! j) {Suc n..m}"
      "used_bits (disk s' ?b) = insert k (used_bits (disk s ?b)) \<union> (\<lambda>j. unat (ib ! j)) ` {Suc n..m}"
      "\<And>b. b \<noteq> ?b \<Longrightarrow> disk s' b = disk s2 b" "refs s' = refs s2" "inew s' = inew s2"
      "dcache s' = dcache s2" "changes_marked s2 s'" "idirty s2 \<subseteq> idirty s'"
    using ext unfolding extended_def s2(2,3) by (auto simp: s2(1))
  have cur: "ib ! n = dno" using e(3) [of n] n by simp
  have split: "{n..m} = insert n {Suc n..m}" using n(1) by auto
  have fresh: "dno \<notin> (\<lambda>j. ib ! j) ` {Suc n..m}" using e(4) k(2) by force
  show ?thesis
    unfolding extended_def
  proof (intro conjI)
    show "\<forall>j. j < n \<or> m < j \<longrightarrow> ib ! j = i_block v ! j" using e(3) n(1) by auto
    show "\<forall>j\<in>{n..m}. unat (ib ! j) \<in> free_dblocks sb s" using e(4) k(1,2) cur split by auto
    show "inj_on (\<lambda>j. ib ! j) {n..m}" using e(5) fresh cur unfolding split by auto
    show "used_bits (disk s' ?b) = used_bits (disk s ?b) \<union> (\<lambda>j. unat (ib ! j)) ` {n..m}"
      using e(6) cur k(2) unfolding split by auto
    show "\<forall>b. b \<noteq> ?b \<longrightarrow> disk s' b = disk s b" using e(7) s2(4) by simp
    show "changes_marked s s'" using s2(4) e(11) by (blast intro: changes_marked_trans)
  qed (use e s2(4) in simp_all)
qed

lemma extend_blocks_run:
  assumes sb: "sb_ok sb" and ok: "\<forall>t. bread_ok E t (BID_DBP_MIN sb)" and m: "m < 8"
  shows "icache s ino = Some v \<Longrightarrow> length (i_block v) = 8 \<Longrightarrow> n \<le> Suc m \<Longrightarrow>
    Suc m - n \<le> card (free_dblocks sb s) \<Longrightarrow>
    \<exists>s' ib. extend_blocks E sb ino n m s = Run 0 s' \<and> extended sb ino s v s' ib n m"
proof (induction "Suc m - n" arbitrary: n s v)
  case 0
  then have "n = Suc m" by simp
  with 0 show ?case
    by (intro exI [of _ s] exI [of _ "i_block v"])
      (subst extend_blocks.simps, auto simp: extended_def changes_marked_def fun_upd_idem)
next
  case (Suc l)
  let ?b = "BID_DBP_MIN sb"
  have n: "n \<le> m" "Suc m - Suc n = l" "Suc n \<le> Suc m" using Suc.hyps(2) by simp_all
  have "free_dblocks sb s \<noteq> {}" using Suc.prems(4) Suc.hyps(2) by auto
  then obtain k dno s1 where s1: "yaf_get_free_dblock E sb s = Run dno s1" "icache s1 = icache s"
      "disk s1 = (disk s)(?b := mark_bit k (disk s ?b))" "refs s1 = refs s" "inew s1 = inew s"
      "dcache s1 = dcache s" "changes_marked s s1" "idirty s1 = idirty s"
    and kb: "k \<in> free_dblocks sb s" "unat dno = k" "dno \<noteq> RESERVED_DNO"
    and bits: "used_bits (disk s1 ?b) = insert k (used_bits (disk s ?b))" "free_dblocks sb s1 = free_dblocks sb s - {k}"
    by (rule free_dblock_run [OF sb ok])
  let ?v = "v\<lparr>i_block := (i_block v)[n := dno]\<rparr>"
  let ?s2 = "s1\<lparr>icache := (icache s)(ino := Some ?v)\<rparr>"
  have step: "extend_blocks E sb ino n m s = extend_blocks E sb ino (Suc n) m ?s2"
    using n(1) s1(1,2) Suc.prems(1) kb(3) by (subst extend_blocks.simps) (simp add: yaf_exec)
  have used: "used_bits (disk ?s2 ?b) = insert k (used_bits (disk s ?b))" using bits(1) by simp
  have free: "free_dblocks sb ?s2 = free_dblocks sb s - {k}"
    using bits(2) by (simp add: free_dblocks_def)
  have "finite (free_dblocks sb s)" by (simp add: free_dblocks_def)
  then have "Suc m - Suc n \<le> card (free_dblocks sb ?s2)"
    using free kb(1) Suc.prems(4) n(1) by (simp add: card_Diff_singleton)
  then obtain s' ib where run: "extend_blocks E sb ino (Suc n) m ?s2 = Run 0 s'"
      and ext: "extended sb ino ?s2 ?v s' ib (Suc n) m"
    using Suc.hyps(1) [of "Suc n" ?s2 ?v] n Suc.prems(2) by auto
  have "extended sb ino s v s' ib n m"
    by (rule extended_Cons [OF kb(1,2) n(1) m _ _ used free _ ext]) (use s1 Suc.prems(2) in \<open>simp_all add: changes_marked_def\<close>)
  then show ?case using step run by auto
qed

section \<open>Mapping a block\<close>

lemma get_block_present:
  assumes "file_blocks sb s v n" and "icache s ino = Some v" and "unat blk < n"
  shows "yaf_get_block E sb ino blk create s = Run (0, Some (DNO2BID sb (i_block v ! unat blk))) s"
proof -
  have "unat blk < 8" "length (i_block v) = 8" using assms by (simp_all add: file_blocks_def)
  then show ?thesis
    using assms file_blocks_count [OF assms(1)]
    by (simp add: yaf_get_block_def map_block_def yaf_exec iblock_def word_le_nat_alt Let_def)
qed

lemma get_block_create:
  assumes sb: "sb_ok sb" and ok: "\<forall>t. bread_ok E t (BID_DBP_MIN sb)" and fb: "file_blocks sb s v n"
    and v: "icache s ino = Some v" and blk: "unat blk < 8" "n \<le> unat blk"
    and free: "Suc (unat blk) - n \<le> card (free_dblocks sb s)"
  shows "\<exists>s' ib. yaf_get_block E sb ino blk True s = Run (0, Some (DNO2BID sb (ib ! unat blk))) s' \<and>
    extended sb ino s v s' ib n (unat blk) \<and> ino \<in> idirty s'"
proof -
  have len: "length (i_block v) = 8" using fb by (simp add: file_blocks_def)
  obtain s1 ib where run: "extend_blocks E sb ino n (unat blk) s = Run 0 s1"
      and ext: "extended sb ino s v s1 ib n (unat blk)"
    using extend_blocks_run [OF sb ok blk(1) v len _ free] blk(2) by auto
  have ic: "icache s1 ino = Some (v\<lparr>i_block := ib\<rparr>)" "length ib = 8"
    using ext by (simp_all add: extended_def)
  have "extended sb ino s v (s1\<lparr>idirty := insert ino (idirty s1)\<rparr>) ib n (unat blk)"
    using ext by (simp add: extended_def changes_marked_def subset_insertI2)
  moreover have "yaf_get_block E sb ino blk True s =
      Run (0, Some (DNO2BID sb (ib ! unat blk))) (s1\<lparr>idirty := insert ino (idirty s1)\<rparr>)"
    using v blk run ic file_blocks_count [OF fb]
    by (simp add: yaf_get_block_def map_block_def yaf_exec iblock_def word_le_nat_alt Let_def)
  ultimately show ?thesis
    by (intro exI [of _ "s1\<lparr>idirty := insert ino (idirty s1)\<rparr>"] exI [of _ ib]) simp
qed

lemma extended_file_blocks:
  assumes fb: "file_blocks sb s v n" and ext: "extended sb ino s v s' ib n m" and m: "n \<le> m" "m < 8"
  shows "file_blocks sb s' (v\<lparr>i_block := ib\<rparr>) (Suc m)"
proof -
  let ?u = "used_bits (disk s (BID_DBP_MIN sb))"
  have e: "\<And>j. j < n \<or> m < j \<Longrightarrow> ib ! j = i_block v ! j" "length ib = 8"
      "\<And>j. j \<in> {n..m} \<Longrightarrow> unat (ib ! j) \<in> free_dblocks sb s" "inj_on (\<lambda>j. ib ! j) {n..m}"
      "used_bits (disk s' (BID_DBP_MIN sb)) = ?u \<union> (\<lambda>j. unat (ib ! j)) ` {n..m}"
    using ext unfolding extended_def by auto
  have f: "\<And>j. j < n \<Longrightarrow> i_block v ! j < nr_d sb \<and> unat (i_block v ! j) \<in> ?u"
      "\<And>j. j < 8 \<Longrightarrow> n \<le> j \<Longrightarrow> i_block v ! j = RESERVED_DNO" "inj_on (\<lambda>j. i_block v ! j) {..<n}"
    using fb by (simp_all add: file_blocks_def)
  have split: "{..<Suc m} = {..<n} \<union> {n..m}" using m by auto
  have "inj_on (\<lambda>j. ib ! j) {..<n}" using f(3) e(1) by (auto simp: inj_on_def)
  moreover have "(\<lambda>j. ib ! j) ` {..<n} \<inter> (\<lambda>j. ib ! j) ` {n..m} = {}"
    using f(1) e(1,3) unfolding free_dblocks_def by force
  ultimately have "inj_on (\<lambda>j. ib ! j) {..<Suc m}"
    unfolding split using e(4) by (subst inj_on_Un) blast
  moreover have "ib ! j < nr_d sb \<and> unat (ib ! j) \<in> used_bits (disk s' (BID_DBP_MIN sb))" if "j < Suc m" for j
  proof (cases "j < n")
    case True
    with e(1) [of j] f(1) [of j] e(5) show ?thesis by simp
  next
    case False
    then have j: "j \<in> {n..m}" using that by simp
    from e(3) [OF j] j e(5) show ?thesis by (auto simp: free_dblocks_def word_less_nat_alt)
  qed
  moreover have "ib ! j = RESERVED_DNO" if "j < 8" "Suc m \<le> j" for j
    using that e(1) [of j] f(2) [of j] m(1) by simp
  ultimately show ?thesis using e(2) m(2) by (simp add: file_blocks_def)
qed

lemma sample_free: "free_dblocks sb0 kst0 = {..<249}"
proof -
  have "BID_DBP_MIN sb0 = 2" by (simp add: BID_min_eqs sb0_def)
  moreover have "disk0 2 = zeros 2" by (rule ext) (simp add: disk0_def zeros_def)
  ultimately show ?thesis by (simp add: free_dblocks_def sb0_def)
qed

lemma sample_file_blocks: "file_blocks sb kst0 root0 0"
  by (simp add: file_blocks_def)

text \<open>A change of the bitmaps that only marks further data blocks leaves directories alone.\<close>

lemma dir_inv_marks:
  assumes "sb_ok sb" and "dir_inv sb s d"
    and "\<And>b. b \<noteq> BID_DBP_MIN sb \<Longrightarrow> b \<noteq> BID_IBP_MIN sb \<Longrightarrow> disk s' b = disk s b"
    and "used_bits (disk s (BID_DBP_MIN sb)) \<subseteq> used_bits (disk s' (BID_DBP_MIN sb))"
  shows "dir_inv sb s' d \<and> dir_map sb s' d = dir_map sb s d"
proof -
  have "dslot sb s' d = dslot sb s d" using assms(1,3) by (intro ext) (simp add: dslot_def)
  moreover have "blocks_marked sb s' d" using assms(2,4) by (auto simp: dir_inv_def blocks_marked_def)
  ultimately show ?thesis using assms(2) by (simp add: dir_inv_def dir_map_def)
qed

section \<open>Properties\<close>

text \<open>
  Extending a file. For a file whose block list has \<open>n\<close> entries in use, asked for a block
  at or beyond \<open>n\<close> with \<open>create\<close> and as many data blocks left as are missing,
  \<open>yaf_get_block\<close> returns 0 and maps the buffer to the entry asked for; the entries from \<open>n\<close>
  up to it are distinct data blocks that were unused and are now marked, the other entries
  and all blocks but the data bitmap are as before, the block list is again well formed, and
  the inode is dirty.
\<close>

theorem get_block_extends:
  assumes "sb_ok sb" and "\<forall>t. bread_ok E t (BID_DBP_MIN sb)" and "file_blocks sb s v n"
    and "icache s ino = Some v" and "unat blk < YAF_IBLOCKS" and "n \<le> unat blk"
    and "Suc (unat blk) - n \<le> card (free_dblocks sb s)"
  shows "\<exists>s' ib. yaf_get_block E sb ino blk True s = Run (0, Some (DNO2BID sb (ib ! unat blk))) s' \<and>
    icache s' = (icache s)(ino := Some (v\<lparr>i_block := ib\<rparr>)) \<and> ino \<in> idirty s' \<and>
    file_blocks sb s' (v\<lparr>i_block := ib\<rparr>) (Suc (unat blk)) \<and>
    (\<forall>j<n. ib ! j = i_block v ! j) \<and> (\<forall>j\<in>{n..unat blk}. unat (ib ! j) \<in> free_dblocks sb s) \<and>
    used_bits (disk s' (BID_DBP_MIN sb)) =
      used_bits (disk s (BID_DBP_MIN sb)) \<union> (\<lambda>j. unat (ib ! j)) ` {n..unat blk} \<and>
    (\<forall>b. b \<noteq> BID_DBP_MIN sb \<longrightarrow> disk s' b = disk s b) \<and> refs s' = refs s \<and> changes_marked s s'"
proof -
  have blk: "unat blk < 8" using assms(5) by simp
  obtain s' ib where run: "yaf_get_block E sb ino blk True s = Run (0, Some (DNO2BID sb (ib ! unat blk))) s'"
      "ino \<in> idirty s'" and ext: "extended sb ino s v s' ib n (unat blk)"
    using get_block_create [OF assms(1-4) blk assms(6,7)] by blast
  have "file_blocks sb s' (v\<lparr>i_block := ib\<rparr>) (Suc (unat blk))"
    by (rule extended_file_blocks [OF assms(3) ext assms(6) blk])
  then show ?thesis
    using run ext unfolding extended_def by (intro exI [of _ s'] exI [of _ ib]) simp
qed

theorem get_block_extends_witness:
  "\<exists>s' b. yaf_get_block env0 sb0 1 2 True kst0 = Run (0, Some b) s' \<and>
     (\<exists>v. icache s' 1 = Some v \<and> file_blocks sb0 s' v 3)"
proof -
  have "icache kst0 1 = Some root0" "Suc (unat (2 :: u64)) - 0 \<le> card (free_dblocks sb0 kst0)"
    by (simp_all add: sample_free)
  then show ?thesis
    using get_block_extends [OF sb_ok_sb0 _ sample_file_blocks, of env0 1 2] by auto
qed

text \<open>
  Mapping without allocation. An entry in use is mapped to its data block, whether
  \<open>create\<close> is set or not; a block beyond the entries in use stays unmapped without \<open>create\<close>
  (a hole, read as zeros); a block number from 8 on is answered with \<open>-EFBIG\<close>. In each case
  nothing changes.
\<close>

theorem get_block_maps:
  assumes "file_blocks sb s v n" and "icache s ino = Some v"
  shows "yaf_get_block E sb ino blk create s =
    (if YAF_IBLOCKS \<le> unat blk then Run (- EFBIG, None) s
     else if unat blk < n then Run (0, Some (DNO2BID sb (i_block v ! unat blk))) s
     else if \<not> create then Run (0, None) s
     else yaf_get_block E sb ino blk True s)"
proof -
  have "(8 :: u64) \<le> blk \<longleftrightarrow> 8 \<le> unat blk" by (simp add: word_le_nat_alt)
  then show ?thesis
    using assms get_block_present [OF assms, of blk E create] file_blocks_count [OF assms(1)]
    by (auto simp: yaf_get_block_def yaf_exec Let_def)
qed

theorem get_block_maps_witness:
  "yaf_get_block env0 sb0 1 3 False kst0 = Run (0, None) kst0"
proof -
  have "icache kst0 1 = Some root0" by simp
  from get_block_maps [OF sample_file_blocks this, of env0 sb0 3 False] show ?thesis by simp
qed

text \<open>
  No data block left. When the first block of the data bitmap has no unused index that
  belongs to a data block, \<open>yaf_get_block\<close> does not return \<open>-ENOSPC\<close>: it returns 0 and maps
  the file to a block beyond the end of the device, be it because the bitmap is longer than
  the data section or because the error code of a full bitmap is taken for an index.
\<close>

theorem get_block_beyond_device:
  assumes "sb_ok sb" and "\<forall>t. bread_ok E t (BID_DBP_MIN sb)" and "file_blocks sb s v n"
    and "icache s ino = Some v" and "n < YAF_IBLOCKS" and "free_dblocks sb s = {}"
  shows "\<exists>s' b. yaf_get_block E sb ino (of_nat n) True s = Run (0, Some b) s' \<and> BID_D_MAX sb < b"
proof -
  let ?b = "BID_DBP_MIN sb" and ?dno = "alloc_result (disk s (BID_DBP_MIN sb))"
  have n: "unat (of_nat n :: u64) = n" using assms(5) by (simp add: unat_of_nat)
  have len: "length (i_block v) = 8" using assms(3) by (simp add: file_blocks_def)
  have big: "unat (nr_d sb) \<le> unat ?dno \<and> ?dno \<noteq> RESERVED_DNO"
  proof (cases "used_bits (disk s ?b) = {..<BITS_PER_BLOCK}")
    case True
    then have "unat ?dno = 4294967294" using alloc_run_cases(2) by simp
    moreover have "unat (nr_d sb) \<le> 4294967294" using assms(1) by (simp add: sb_ok_def)
    ultimately show ?thesis by auto
  next
    case False
    then obtain k where k: "unat ?dno = k" "k < BITS_PER_BLOCK" "k \<notin> used_bits (disk s ?b)"
      using alloc_run_cases(1) by blast
    then have "k \<notin> {..<min (unat (nr_d sb)) BITS_PER_BLOCK}"
      using assms(6) by (auto simp: free_dblocks_def)
    with k show ?thesis by auto
  qed
  obtain s1 where s1: "yaf_get_free_dblock E sb s = Run ?dno s1" "icache s1 = icache s"
    using get_free_dblock_run [of sb E s] assms(1,2) by auto
  have "extend_blocks E sb ino n n s =
      Run 0 (s1\<lparr>icache := (icache s)(ino := Some (v\<lparr>i_block := (i_block v)[n := ?dno]\<rparr>))\<rparr>)"
    using s1 big assms(4) by (subst extend_blocks.simps) (simp add: yaf_exec extend_blocks.simps)
  then have "\<exists>s'. yaf_get_block E sb ino (of_nat n) True s = Run (0, Some (DNO2BID sb ?dno)) s'"
    using assms(4,5) n len file_blocks_count [OF assms(3)]
    by (simp add: yaf_get_block_def map_block_def yaf_exec iblock_def word_le_nat_alt Let_def)
  moreover have "BID_D_MAX sb < DNO2BID sb ?dno"
    using big by (simp add: word_less_nat_alt yaf_layout)
  ultimately show ?thesis by blast
qed

theorem get_block_beyond_device_witness:
  "\<exists>s' b. yaf_get_block env0 sb0 1 0 True ((kst_of (\<lambda>b off. - 1))\<lparr>icache := [1 \<mapsto> root0]\<rparr>) = Run (0, Some b) s' \<and>
     BID_D_MAX sb0 < b"
proof -
  let ?s = "(kst_of (\<lambda>b off. - 1))\<lparr>icache := [1 \<mapsto> root0]\<rparr>"
  have "file_blocks sb0 ?s root0 0" "free_dblocks sb0 ?s = {}"
    by (auto simp: file_blocks_def free_dblocks_def)
  then show ?thesis using get_block_beyond_device [of sb0 env0 ?s root0 0 1] by simp
qed

text \<open>
  Blocks beyond the size are lost. When blocks are allocated to an empty file and its
  size stays 0 (the write that asked for them fails later), unlinking the file releases the
  inode but none of these blocks: they stay marked with no inode that holds them.
\<close>

theorem unlink_leaks_blocks_beyond_size:
  assumes "sb_ok sb" and "device_ok E sb" and "icache s dir = Some d" and "dir_inv sb s d"
    and "valid_name nm" and "dir_map sb s d nm \<noteq> None" and "dcache s (dir, nm) = Some (Some ino)"
    and "icache s ino = Some v" and "ino \<noteq> dir" and "i_nlink v = 1" and "i_size v = 0"
    and "file_blocks sb s v 0" and "unat (ucast ino :: u32) \<in> used_bits (disk s (BID_IBP_MIN sb))"
    and "unat blk < YAF_IBLOCKS" and "Suc (unat blk) \<le> card (free_dblocks sb s)"
  shows "\<exists>s' s'' b B. yaf_get_block E sb ino blk True s = Run (0, Some b) s' \<and>
    yaf_unlink E sb dir nm s' = Run 0 s'' \<and> B \<subseteq> free_dblocks sb s \<and> card B = Suc (unat blk) \<and>
    used_bits (disk s'' (BID_DBP_MIN sb)) = used_bits (disk s (BID_DBP_MIN sb)) \<union> B"
proof -
  have ok: "\<forall>t. bread_ok E t (BID_DBP_MIN sb)" using device_readable(2) [OF assms(2,1)] by blast
  obtain s' ib where run: "yaf_get_block E sb ino blk True s = Run (0, Some (DNO2BID sb (ib ! unat blk))) s'"
      and ext: "extended sb ino s v s' ib 0 (unat blk)"
    using get_block_create [OF assms(1) ok assms(12,8), of blk] assms(14,15) by auto
  let ?v = "v\<lparr>i_block := ib\<rparr>" and ?B = "(\<lambda>j. unat (ib ! j)) ` {0..unat blk}"
  have e: "icache s' = (icache s)(ino := Some ?v)" "length ib = 8"
      "used_bits (disk s' (BID_DBP_MIN sb)) = used_bits (disk s (BID_DBP_MIN sb)) \<union> ?B"
      "\<And>b. b \<noteq> BID_DBP_MIN sb \<Longrightarrow> disk s' b = disk s b" "dcache s' = dcache s"
      "?B \<subseteq> free_dblocks sb s" "inj_on (\<lambda>j. ib ! j) {0..unat blk}"
    using ext unfolding extended_def by auto
  have inv: "dir_inv sb s' d \<and> dir_map sb s' d = dir_map sb s d"
    by (rule dir_inv_marks [OF assms(1,4)]) (use e(3,4) in auto)
  have none: "dblocks_from 0 ?v = {}" using assms(11) by (simp add: dblocks_from_def)
  have own: "owns_dblocks sb s' ?v" using assms(11) e(2) by (simp add: owns_dblocks_def)
  have d: "icache s' dir = Some d" "icache s' ino = Some ?v" "i_nlink ?v = 1"
    using e(1) assms(3,9,10) by auto
  have ib: "disk s' (BID_IBP_MIN sb) = disk s (BID_IBP_MIN sb)" using e(4) assms(1) by simp
  have "\<exists>s''. yaf_unlink E sb dir nm s' = Run 0 s'' \<and>
      used_bits (disk s'' (BID_DBP_MIN sb)) = used_bits (disk s' (BID_DBP_MIN sb)) - dblocks_from 0 ?v"
    using delete_ok [OF assms(1,2) d(1) _ assms(5) _ _ d(2) assms(9) d(3) own, of yaf_unlink]
      inv assms(5,6,7,13) none e(5) ib by auto
  moreover have "card ?B = Suc (unat blk)"
  proof -
    have "inj_on (\<lambda>j. unat (ib ! j)) {0..unat blk}"
      using e(7) by (auto simp: inj_on_def dest: word_unatI)
    then show ?thesis by (simp add: card_image)
  qed
  ultimately show ?thesis using run e(3,6) none by auto
qed

text \<open>The sample directory with its first name bound to an empty file in memory.\<close>

definition empty_file :: kst where
  "empty_file = two_names\<lparr>disk := (disk two_names)(BID_IBP_MIN sb0 := mark_bit 2 (disk0 1)),
     icache := [1 \<mapsto> two_dir, 2 \<mapsto> root0], dcache := [(1, [97]) \<mapsto> Some 2]\<rparr>"

theorem unlink_leaks_blocks_beyond_size_witness:
  "\<exists>s' s'' b B. yaf_get_block env0 sb0 2 0 True empty_file = Run (0, Some b) s' \<and>
     yaf_unlink env0 sb0 1 [97] s' = Run 0 s'' \<and> card B = 1 \<and>
     used_bits (disk s'' (BID_DBP_MIN sb0)) = used_bits (disk empty_file (BID_DBP_MIN sb0)) \<union> B"
proof -
  have bid: "BID_IBP_MIN sb0 = 1" "BID_DBP_MIN sb0 = 2" "(2 :: u64) \<noteq> DNO2BID sb0 0" "unat (nr_d sb0) = 249"
    using DNO2BID_sections(4) [OF sb_ok_sb0, of 0] by (simp_all add: BID_min_eqs sb0_def)
  have inv: "dir_inv sb0 empty_file two_dir \<and> dir_map sb0 empty_file two_dir = dir_map sb0 two_names two_dir"
    by (rule dir_inv_marks [OF sb_ok_sb0 two_dir_inv(2)]) (simp_all add: empty_file_def bid)
  have "live_as [97] (dslot sb0 two_names two_dir 0)"
    using two_slots(1) by (simp add: live_as_def new_entry_def RESERVED_INO_def)
  then have name: "dir_map sb0 empty_file two_dir [97] \<noteq> None"
    using inv two_dir_inv(1) by (auto simp: dir_map_def entry_map_None intro!: exI [of _ "0 :: nat"])
  have "used_bits (disk0 2) = {}"
    by (simp add: used_bits_def test_bit_at_def disk0_def)
  then have "used_bits (mark_bit 0 (disk0 2)) = {0}" by (auto simp: used_bits_def)
  then have "free_dblocks sb0 empty_file = {..<249} - {0}"
    by (simp add: free_dblocks_def empty_file_def two_names_def bid)
  then have free: "Suc (unat (0 :: u64)) \<le> card (free_dblocks sb0 empty_file)"
    by (simp add: card_Diff_singleton)
  have ib: "unat (ucast (2 :: u64) :: u32) \<in> used_bits (disk empty_file (BID_IBP_MIN sb0))"
    by (simp add: empty_file_def bid used_bits_def)
  have fb: "file_blocks sb0 empty_file root0 0" by (simp add: file_blocks_def)
  have st: "icache empty_file 1 = Some two_dir" "icache empty_file 2 = Some root0"
    "dcache empty_file (1, [97]) = Some (Some 2)" by (simp_all add: empty_file_def)
  show ?thesis
    using unlink_leaks_blocks_beyond_size [OF sb_ok_sb0 _ st(1) conjunct1 [OF inv] _ name st(3,2) _ _ _ fb ib _ free,
        of env0] by auto
qed

text \<open>
  Bounds of a write. \<open>yaf_write_begin\<close> refuses a write that ends beyond the eight blocks of
  a file with \<open>-ENOSPC\<close> before anything changes and passes any other on. \<open>yaf_write_end\<close>
  updates the change and modification times of the inode and marks it dirty when the whole
  length was copied; a shorter count is returned without the update, but a negative error code
  passes the unsigned comparison and is returned with the times updated.
\<close>

theorem write_bounds:
  assumes "icache s ino = Some v" and "gwe off len copied s = Run r s" and "r < 2 ^ 31" and "-4096 < r"
    and "len < 2 ^ 31"
  shows "yaf_write_begin bwb E sb ino off len s =
      (if 32768 < off + unat len then Run (- ENOSPC) s else bwb (yaf_get_block E sb ino) off len s) \<and>
    yaf_write_end gwe E ino off len copied s =
      (if 0 \<le> r \<and> r < uint len then Run r s
       else Run r (s\<lparr>icache := (icache s)(ino := Some (v\<lparr>i_ctime := now E (tick s), i_mtime := now E (tick s)\<rparr>)),
                     idirty := insert ino (idirty s)\<rparr>))"
proof -
  have len: "uint len < 2 ^ 31" using assms(5) by (simp add: word_less_def)
  have "(of_int r :: u32) < len \<longleftrightarrow> 0 \<le> r \<and> r < uint len"
  proof (cases "0 \<le> r")
    case True
    then have "uint (of_int r :: u32) = r" using assms(3) by (simp add: uint_word_of_int take_bit_int_eq_self)
    with True show ?thesis by (simp add: word_less_def)
  next
    case False
    have "r mod 2 ^ 32 = r + 2 ^ 32"
    proof -
      have "r mod 2 ^ 32 = (r + 2 ^ 32) mod 2 ^ 32" by simp
      also have "\<dots> = r + 2 ^ 32" using False assms(4) by (intro mod_pos_pos_trivial) simp_all
      finally show ?thesis .
    qed
    then have "uint (of_int r :: u32) = r + 2 ^ 32" by (simp add: uint_word_of_int take_bit_eq_mod)
    with False len assms(4) show ?thesis by (simp add: word_less_def)
  qed
  moreover have "bnd (bwb (yaf_get_block E sb ino) off len) (\<lambda>r. if r < 0 then ret r else ret r) s =
      bwb (yaf_get_block E sb ino) off len s"
    by (simp add: bnd_def split: outcome.split)
  ultimately show ?thesis
    using assms(1,2) by (simp add: yaf_write_begin_def yaf_write_end_def yaf_exec del: if_cancel)
qed

theorem write_bounds_witness:
  "yaf_write_end (\<lambda>off len copied. ret (- EIO)) env0 1 0 10 10 kst0 =
     Run (- EIO) (kst0\<lparr>icache := (icache kst0)(1 := Some (root0\<lparr>i_ctime := 1, i_mtime := 1\<rparr>)), idirty := {1}\<rparr>)"
proof -
  have "icache kst0 1 = Some root0" by simp
  from write_bounds [OF this, of "\<lambda>off len copied. ret (- EIO)" 0 10 10 "- EIO"
      "\<lambda>_ _ _. ret 0" env0 sb0]
  show ?thesis by (simp add: EIO_def)
qed

end
