(* ===== verification/Yaf_Spec.thy ===== *)
theory Yaf_Spec
  imports Yaf_Layout
begin

text \<open>
  The abstract file system: a map from inode numbers to directories, which are maps from names
  to inode numbers, and regular files, which are lists of bytes. The operations change
  these maps; \<open>tree_ok\<close> states that the map is a tree below the root directory, and every
  operation preserves it.
\<close>

section \<open>States and steps\<close>

datatype anode = Dir "name \<Rightarrow> u32 option" | File "byte list"

type_synonym afs = "u64 \<Rightarrow> anode option"

definition links :: "afs \<Rightarrow> u64 \<Rightarrow> name \<Rightarrow> u32 \<Rightarrow> bool" where
  "links a dir nm i \<longleftrightarrow> (\<exists>m. a dir = Some (Dir m) \<and> m nm = Some i)"

inductive a_step :: "afs \<Rightarrow> afs \<Rightarrow> bool" where
  a_create: "a dir = Some (Dir m) \<Longrightarrow> m nm = None \<Longrightarrow> a (ucast i) = None \<Longrightarrow>
     node = File [] \<or> node = Dir Map.empty \<Longrightarrow>
     a_step a (a(dir := Some (Dir (m(nm := Some i))), ucast i := Some node))"
| a_remove: "a dir = Some (Dir m) \<Longrightarrow> m nm = Some i \<Longrightarrow>
     a (ucast i) = Some (Dir Map.empty) \<or> (\<exists>n. a (ucast i) = Some (File n)) \<Longrightarrow>
     a_step a (a(dir := Some (Dir (m(nm := None))), ucast i := None))"
| a_write: "a i = Some (File n) \<Longrightarrow> a_step a (a(i := Some (File n')))"
| a_stay: "a_step a a"

section \<open>Trees\<close>

inductive below :: "afs \<Rightarrow> u64 \<Rightarrow> bool" for a where
  root: "below a ROOT_INO"
| entry: "below a dir \<Longrightarrow> links a dir nm i \<Longrightarrow> below a (ucast i)"

definition tree_ok :: "afs \<Rightarrow> bool" where
  "tree_ok a \<longleftrightarrow> (\<exists>m. a ROOT_INO = Some (Dir m)) \<and>
     (\<forall>dir nm i. links a dir nm i \<longrightarrow> a (ucast i) \<noteq> None \<and> ucast i \<noteq> ROOT_INO) \<and>
     (\<forall>dir nm dir' nm' i. links a dir nm i \<longrightarrow> links a dir' nm' i \<longrightarrow> dir' = dir \<and> nm' = nm) \<and>
     (\<forall>i. a i \<noteq> None \<longrightarrow> below a i)"

lemma tree_okD:
  assumes "tree_ok a"
  shows "\<exists>m. a ROOT_INO = Some (Dir m)" "links a dir nm i \<Longrightarrow> a (ucast i) \<noteq> None"
    "links a dir nm i \<Longrightarrow> ucast i \<noteq> ROOT_INO"
    "links a dir nm i \<Longrightarrow> links a dir' nm' i \<Longrightarrow> dir' = dir \<and> nm' = nm"
    "a i64 \<noteq> None \<Longrightarrow> below a i64"
  using assms unfolding tree_ok_def by blast+

lemma links_create:
  assumes "a dir = Some (Dir m)" and "m nm = None" and "a (ucast i) = None"
    and "node = File [] \<or> node = Dir Map.empty"
  shows "links (a(dir := Some (Dir (m(nm := Some i))), ucast i := Some node)) d n j \<longleftrightarrow>
    links a d n j \<or> d = dir \<and> n = nm \<and> j = i"
proof -
  have "dir \<noteq> ucast i" using assms(1,3) by auto
  then show ?thesis using assms by (auto simp: links_def)
qed

lemma links_remove:
  assumes "a dir = Some (Dir m)" and "m nm = Some i" and "\<And>d n j. links a d n j \<Longrightarrow> d \<noteq> ucast i"
  shows "links (a(dir := Some (Dir (m(nm := None))), ucast i := None)) d n j \<longleftrightarrow>
    links a d n j \<and> (d, n) \<noteq> (dir, nm)"
proof -
  have "dir \<noteq> ucast i" using assms(3) [of dir nm i] assms(1,2) by (auto simp: links_def)
  moreover have "a (ucast i) = Some (Dir m') \<Longrightarrow> m' n = None" for m'
    using assms(3) [of "ucast i" n] by (cases "m' n") (auto simp: links_def)
  ultimately show ?thesis using assms(1,2) by (auto simp: links_def)
qed

lemma below_mono: "below a i \<Longrightarrow> (\<And>d n j. links a d n j \<Longrightarrow> links a' d n j) \<Longrightarrow> below a' i"
  by (induction rule: below.induct) (auto intro: below.intros)

lemma tree_create:
  assumes t: "tree_ok a" and s: "a dir = Some (Dir m)" "m nm = None" "a (ucast i) = None"
    and n: "node = File [] \<or> node = Dir Map.empty"
  shows "tree_ok (a(dir := Some (Dir (m(nm := Some i))), ucast i := Some node))" (is "tree_ok ?a")
  unfolding tree_ok_def
proof (intro conjI allI impI)
  note lk = links_create [of a, OF s n]
  have ne: "dir \<noteq> ucast i" using s by auto
  have new: "\<not> links a d n' i" for d n' using tree_okD(2) [OF t, of d n' i] s(3) by auto
  show "\<exists>m. ?a ROOT_INO = Some (Dir m)" using tree_okD(1) [OF t] s by auto
  fix d n' j assume l: "links ?a d n' j"
  show "?a (ucast j) \<noteq> None" using l tree_okD(2) [OF t, of d n' j] unfolding lk by auto
  have "ucast i \<noteq> ROOT_INO" using tree_okD(1) [OF t] s(3) by auto
  then show "ucast j \<noteq> ROOT_INO" using l tree_okD(3) [OF t, of d n' j] unfolding lk by auto
  fix d' n'' assume "links ?a d' n'' j"
  with l show "d' = d" "n'' = n'" using new tree_okD(4) [OF t, of d n' j d' n''] unfolding lk by auto
next
  fix j assume "?a j \<noteq> None"
  then have j: "a j \<noteq> None \<or> j = ucast i" using s(1) by (auto split: if_splits)
  have old: "below ?a k" if "a k \<noteq> None" for k
    using tree_okD(5) [OF t that] by (rule below_mono) (simp add: links_create [of a, OF s n])
  have "links ?a dir nm i" by (simp add: links_create [of a, OF s n])
  with old [of dir] s(1) have "below ?a (ucast i)" by (auto intro: below.entry)
  with j old show "below ?a j" by blast
qed

lemma tree_remove:
  assumes t: "tree_ok a" and s: "a dir = Some (Dir m)" "m nm = Some i"
    and leaf: "a (ucast i) = Some (Dir Map.empty) \<or> (\<exists>n. a (ucast i) = Some (File n))"
  shows "tree_ok (a(dir := Some (Dir (m(nm := None))), ucast i := None))" (is "tree_ok ?a")
proof -
  have l: "links a dir nm i" using s by (simp add: links_def)
  have empty: "d \<noteq> ucast i" if "links a d n j" for d n j
    using that leaf by (auto simp: links_def)
  have lk: "links ?a d n j \<longleftrightarrow> links a d n j \<and> (d, n) \<noteq> (dir, nm)" for d n j
    by (rule links_remove [of a dir m nm i, OF s]) (use empty in blast)
  have ne: "dir \<noteq> ucast i" using empty [OF l] .
  have only: "j \<noteq> i" if "links ?a d n j" for d n j
    using that tree_okD(4) [OF t l, of d n] unfolding lk by auto
  have keep: "below a j \<Longrightarrow> j \<noteq> ucast i \<Longrightarrow> below ?a j" for j
  proof (induction rule: below.induct)
    case root
    show ?case by (rule below.root)
  next
    case (entry d n j)
    then have "below ?a d" using empty by blast
    moreover have "links ?a d n j" using entry s unfolding lk by (auto simp: links_def)
    ultimately show ?case by (rule below.entry)
  qed
  show ?thesis
    unfolding tree_ok_def
  proof (intro conjI allI impI)
    show "\<exists>m. ?a ROOT_INO = Some (Dir m)" using tree_okD(1) [OF t] tree_okD(3) [OF t l] s by auto
    fix d n j assume la: "links ?a d n j"
    then have la': "links a d n j" unfolding lk by simp
    show "?a (ucast j) \<noteq> None"
      using only [OF la] tree_okD(2) [OF t la'] by auto
    show "ucast j \<noteq> ROOT_INO" using tree_okD(3) [OF t la'] .
    fix d' n' assume "links ?a d' n' j"
    then show "d' = d" "n' = n" using tree_okD(4) [OF t la', of d' n'] unfolding lk by simp_all
  next
    fix j assume "?a j \<noteq> None"
    then have "a j \<noteq> None" "j \<noteq> ucast i" using s(1) by (auto split: if_splits)
    then show "below ?a j" using keep tree_okD(5) [OF t] by blast
  qed
qed

lemma links_write: "a i = Some (File n) \<Longrightarrow> links (a(i := Some (File n'))) d nm j \<longleftrightarrow> links a d nm j"
  by (auto simp: links_def)

lemma tree_write:
  assumes t: "tree_ok a" and s: "a i = Some (File n)"
  shows "tree_ok (a(i := Some (File n')))" (is "tree_ok ?a")
proof -
  note lk = links_write [of a i n, OF s]
  have "below ?a j" if "a j \<noteq> None" for j
    using tree_okD(5) [OF t that] by (rule below_mono) (simp add: lk)
  then show ?thesis
    using tree_okD(1-4) [OF t] s unfolding tree_ok_def lk by (auto split: if_splits)
qed

text \<open>No directory is an entry of itself.\<close>

lemma tree_no_loop:
  assumes t: "tree_ok a" and l: "links a dir nm i"
  shows "ucast i \<noteq> dir"
proof -
  have "below a x \<Longrightarrow> links a x n j \<Longrightarrow> ucast j \<noteq> x" for x n j
  proof (induction arbitrary: n j rule: below.induct)
    case root
    then show ?case by (rule tree_okD(3) [OF t])
  next
    case (entry p n' k)
    show ?case
    proof
      assume "(ucast j :: u64) = ucast k"
      then have "j = k" by simp
      with entry.prems have loop: "links a (ucast k) n k" by simp
      then have "p = ucast k" using tree_okD(4) [OF t loop entry.hyps(2)] by blast
      with loop entry.IH [of n k] show False by simp
    qed
  qed
  moreover have "below a dir" using l by (intro tree_okD(5) [OF t]) (auto simp: links_def)
  ultimately show ?thesis using l by blast
qed

text \<open>Every abstract operation turns a tree into a tree.\<close>

lemma tree_step: "a_step a a' \<Longrightarrow> tree_ok a \<Longrightarrow> tree_ok a'"
  by (induction rule: a_step.induct) (auto intro: tree_create tree_remove tree_write)

lemma tree_empty: "tree_ok [ROOT_INO \<mapsto> Dir Map.empty]"
  unfolding tree_ok_def by (auto simp: links_def intro: below.root split: if_splits)

end
