(* ===== verification/Yaf_Node.thy ===== *)
theory Yaf_Node
  imports Yaf_File Yaf_Spec
begin

text \<open>
  The file system as a whole. A logical inode is the one in memory, or the one on disk when
  none is in memory; it is live when its bit is set in the inode bitmap. The abstract file
  system is the view of the live inodes. The last part shows how an operation that changes a
  few inodes leaves the others as they are.
\<close>

section \<open>Logical inodes\<close>

definition live :: "Yaf_Sb_Info \<Rightarrow> kst \<Rightarrow> u64 \<Rightarrow> bool" where
  "live sb s ino \<longleftrightarrow> 0 < unat ino \<and> unat ino \<in> used_bits (disk s (BID_IBP_MIN sb))"

definition disk_node :: "Yaf_Sb_Info \<Rightarrow> kst \<Rightarrow> u64 \<Rightarrow> Yaf_Inode_Info" where
  "disk_node sb s ino = fill_inode (dinode_at sb s ino) inode0"

definition node :: "Yaf_Sb_Info \<Rightarrow> kst \<Rightarrow> u64 \<Rightarrow> Yaf_Inode_Info" where
  "node sb s ino = (case icache s ino of Some v \<Rightarrow> v | None \<Rightarrow> disk_node sb s ino)"

text \<open>The fields that decide the meaning of an inode, and the data blocks it holds.\<close>

definition core :: "Yaf_Inode_Info \<Rightarrow> u16 \<times> u32 \<times> nat \<times> u32 list" where
  "core v = (i_mode v, i_nlink v, i_size v, i_block v)"

definition held :: "Yaf_Inode_Info \<Rightarrow> u32 set" where
  "held v = set (i_block v) - {RESERVED_DNO}"

definition file_ok :: "Yaf_Sb_Info \<Rightarrow> kst \<Rightarrow> Yaf_Inode_Info \<Rightarrow> bool" where
  "file_ok sb s v \<longleftrightarrow> (\<exists>n. file_blocks sb s v n \<and> i_size v \<le> YAF_BLOCK_SIZE * n) \<and> i_nlink v = 1"

definition node_ok :: "Yaf_Sb_Info \<Rightarrow> kst \<Rightarrow> Yaf_Inode_Info \<Rightarrow> bool" where
  "node_ok sb s v \<longleftrightarrow> (if S_ISDIR (i_mode v) then dir_inv sb s v else file_ok sb s v)"

text \<open>The content of a regular file, byte by byte, where its block list says it is.\<close>

definition file_data :: "Yaf_Sb_Info \<Rightarrow> kst \<Rightarrow> Yaf_Inode_Info \<Rightarrow> byte list" where
  "file_data sb s v = map (\<lambda>k. disk s (DNO2BID sb (i_block v ! (k div YAF_BLOCK_SIZE))) (k mod YAF_BLOCK_SIZE))
     [0..<i_size v]"

definition view :: "Yaf_Sb_Info \<Rightarrow> kst \<Rightarrow> Yaf_Inode_Info \<Rightarrow> anode" where
  "view sb s v = (if S_ISDIR (i_mode v) then Dir (dir_map sb s v) else File (file_data sb s v))"

text \<open>The abstract file system of a state.\<close>

definition afs_of :: "Yaf_Sb_Info \<Rightarrow> kst \<Rightarrow> afs" where
  "afs_of sb s ino = (if live sb s ino then Some (view sb s (node sb s ino)) else None)"

lemma coreD:
  assumes "core v' = core v"
  shows "i_mode v' = i_mode v" "i_nlink v' = i_nlink v" "i_size v' = i_size v" "i_block v' = i_block v"
    "held v' = held v" "nslots v' = nslots v"
  using assms by (simp_all add: core_def held_def nslots_def)

lemma node_cached: "icache s ino = Some v \<Longrightarrow> node sb s ino = v"
  by (simp add: node_def)

lemma node_uncached: "icache s ino = None \<Longrightarrow> node sb s ino = disk_node sb s ino"
  by (simp add: node_def)

section \<open>The blocks an inode holds\<close>

lemma not_reserved: "x < nr_d sb \<Longrightarrow> x \<noteq> RESERVED_DNO"
  using unat_u32_le [of "nr_d sb"] by (auto simp: word_less_nat_alt)

lemma held_dir:
  assumes "dir_wf sb v"
  shows "x \<in> held v \<longleftrightarrow> (\<exists>j<8. 128 * j < nslots v \<and> x = i_block v ! j)"
proof
  assume "x \<in> held v"
  then obtain j where j: "j < 8" "x = i_block v ! j" "x \<noteq> RESERVED_DNO"
    using dir_wfD(3) [OF assms] by (auto simp: held_def in_set_conv_nth)
  then have "128 * j < nslots v" using dir_wfD(5) [OF assms, of j] by (meson not_le)
  with j show "\<exists>j<8. 128 * j < nslots v \<and> x = i_block v ! j" by blast
next
  assume "\<exists>j<8. 128 * j < nslots v \<and> x = i_block v ! j"
  then obtain j where j: "j < 8" "128 * j < nslots v" "x = i_block v ! j" by blast
  then have "x \<noteq> RESERVED_DNO" using not_reserved dir_wfD(4) [OF assms j(1,2)] by simp
  then show "x \<in> held v" using j dir_wfD(3) [OF assms] by (simp add: held_def)
qed

lemma held_file:
  assumes "file_blocks sb s v n"
  shows "held v = (\<lambda>j. i_block v ! j) ` {..<n}"
proof -
  have fb: "n \<le> 8" "length (i_block v) = 8" "\<And>j. j < n \<Longrightarrow> i_block v ! j < nr_d sb"
      "\<And>j. j < 8 \<Longrightarrow> n \<le> j \<Longrightarrow> i_block v ! j = RESERVED_DNO"
    using assms by (simp_all add: file_blocks_def)
  have "x \<in> held v \<longleftrightarrow> (\<exists>j<n. x = i_block v ! j)" for x
  proof
    assume "x \<in> held v"
    then obtain j where "j < 8" "x = i_block v ! j" "x \<noteq> RESERVED_DNO"
      using fb(2) by (auto simp: held_def in_set_conv_nth)
    moreover from this fb(4) [of j] have "j < n" by (meson not_le)
    ultimately show "\<exists>j<n. x = i_block v ! j" by blast
  next
    assume "\<exists>j<n. x = i_block v ! j"
    then obtain j where "j < n" "x = i_block v ! j" by blast
    with fb(1,2) fb(3) [of j] not_reserved show "x \<in> held v" by (auto simp: held_def)
  qed
  then show ?thesis by auto
qed

lemma node_ok_held:
  assumes "node_ok sb s v" and "x \<in> held v"
  shows "x < nr_d sb" "unat x \<in> used_bits (disk s (BID_DBP_MIN sb))"
proof -
  have "x < nr_d sb \<and> unat x \<in> used_bits (disk s (BID_DBP_MIN sb))"
  proof (cases "S_ISDIR (i_mode v)")
    case True
    then have inv: "dir_wf sb v" "blocks_marked sb s v"
      using assms(1) by (simp_all add: node_ok_def dir_inv_def)
    then obtain j where "j < 8" "128 * j < nslots v" "x = i_block v ! j"
      using assms(2) held_dir by blast
    then show ?thesis using dir_wfD(4) [OF inv(1)] inv(2) by (simp add: blocks_marked_def)
  next
    case False
    then obtain n where "file_blocks sb s v n" using assms(1) by (auto simp: node_ok_def file_ok_def)
    then show ?thesis using assms(2) held_file [of sb s v n] by (auto simp: file_blocks_def)
  qed
  then show "x < nr_d sb" "unat x \<in> used_bits (disk s (BID_DBP_MIN sb))" by blast+
qed

lemma node_ok_length: "node_ok sb s v \<Longrightarrow> length (i_block v) = 8 \<and> i_size v \<le> 32768"
proof (cases "S_ISDIR (i_mode v)")
  case True
  moreover assume "node_ok sb s v"
  ultimately have wf: "dir_wf sb v" by (simp add: node_ok_def dir_inv_def)
  show ?thesis using dir_wfD(1-3) [OF wf] by simp
next
  case False
  moreover assume "node_ok sb s v"
  ultimately obtain n where "n \<le> 8" "length (i_block v) = 8" "i_size v \<le> 4096 * n"
    by (auto simp: node_ok_def file_ok_def file_blocks_def)
  then show ?thesis by simp
qed

section \<open>Frames\<close>

text \<open>
  The meaning of an inode depends on its core, on the content of the blocks it holds and on
  their marks.
\<close>

definition same_blocks :: "Yaf_Sb_Info \<Rightarrow> kst \<Rightarrow> kst \<Rightarrow> Yaf_Inode_Info \<Rightarrow> bool" where
  "same_blocks sb s s' v \<longleftrightarrow>
     (\<forall>x\<in>held v. disk s' (DNO2BID sb x) = disk s (DNO2BID sb x) \<and> unat x \<in> used_bits (disk s' (BID_DBP_MIN sb)))"

lemma file_data_eq:
  assumes "file_blocks sb s v n" and "i_size v \<le> 4096 * n" and "i_size v' = i_size v"
    and "\<And>j. j < n \<Longrightarrow> i_block v' ! j = i_block v ! j"
    and "\<And>x. x \<in> held v \<Longrightarrow> disk s' (DNO2BID sb x) = disk s (DNO2BID sb x)"
  shows "file_data sb s' v' = file_data sb s v"
proof -
  have "k div 4096 < n" if "k < i_size v" for k using that assms(2) by (simp add: less_mult_imp_div_less)
  then show ?thesis using assms(3-5) held_file [OF assms(1)] by (auto simp: file_data_def)
qed

lemma entry_map_cong:
  assumes "\<And>k. k < n \<Longrightarrow> f k = g k"
  shows "entry_map f n = entry_map g n"
proof
  fix nm
  have same: "first_idx (\<lambda>k. live_as nm (f k)) n = first_idx (\<lambda>k. live_as nm (g k)) n"
    by (rule first_idx_cong) (simp add: assms)
  have "k < n" if "first_idx (\<lambda>k. live_as nm (g k)) n = Some k" for k
    using that by (simp add: first_idx_Some)
  with same show "entry_map f n nm = entry_map g n nm"
    using assms by (cases "first_idx (\<lambda>k. live_as nm (g k)) n") (simp_all add: entry_map_def)
qed

text \<open>What a directory stands for depends on its block list and the blocks it holds.\<close>

lemma dir_frame:
  assumes inv: "dir_inv sb s v" and c: "core v' = core v" and b: "same_blocks sb s s' v"
  shows "dir_inv sb s' v'" "dir_map sb s' v' = dir_map sb s v"
proof -
  note cD = coreD [OF c]
  have wf: "dir_wf sb v" using inv by (simp add: dir_inv_def)
  have slots: "dslot sb s' v' k = dslot sb s v k" if "k < nslots v" for k
  proof -
    have "k div 128 < 8" "128 * (k div 128) < nslots v" using slot_block [OF wf that] that by auto
    then have "i_block v ! (k div 128) \<in> held v" using held_dir [OF wf] by blast
    then show ?thesis
      using b dir_same_shape(2) [of v' v] cD by (simp add: dslot_def same_blocks_def)
  qed
  have "blocks_marked sb s' v"
    unfolding blocks_marked_def
  proof (intro allI impI)
    fix j assume "j < YAF_IBLOCKS" "DENTRYS_PER_BLOCK * j < nslots v"
    then have "i_block v ! j \<in> held v" using held_dir [OF wf] by auto
    then show "unat (i_block v ! j) \<in> used_bits (disk s' (BID_DBP_MIN sb))"
      using b by (simp add: same_blocks_def)
  qed
  moreover have map: "entry_map (dslot sb s' v') (nslots v) = entry_map (dslot sb s v) (nslots v)"
    using slots by (rule entry_map_cong)
  moreover have "live_count (dslot sb s' v') (nslots v) = live_count (dslot sb s v) (nslots v)"
    using slots by (simp add: live_count_def cong: conj_cong)
  moreover have "names_unique (dslot sb s' v') (nslots v)" "lengths_ok (dslot sb s' v') (nslots v)"
    using inv slots by (simp_all add: dir_inv_def names_unique_def lengths_ok_def)
  ultimately show "dir_inv sb s' v'" "dir_map sb s' v' = dir_map sb s v"
    using inv cD dir_same_shape(1,3,4) [of v' v] by (simp_all add: dir_inv_def dir_map_def)
qed

lemma node_frame:
  assumes ok: "node_ok sb s v" and c: "core v' = core v" and b: "same_blocks sb s s' v"
  shows "node_ok sb s' v'" "view sb s' v' = view sb s v"
proof -
  note cD = coreD [OF c]
  have "node_ok sb s' v' \<and> view sb s' v' = view sb s v"
  proof (cases "S_ISDIR (i_mode v)")
    case True
    then have "dir_inv sb s v" using ok by (simp add: node_ok_def)
    from dir_frame [OF this c b] True show ?thesis using cD by (simp add: node_ok_def view_def)
  next
    case False
    then obtain n where n: "file_blocks sb s v n" "i_size v \<le> 4096 * n" "i_nlink v = 1"
      using ok by (auto simp: node_ok_def file_ok_def)
    have "file_blocks sb s' v' n"
      using n(1) b held_file [OF n(1)] cD(4) by (auto simp: file_blocks_def same_blocks_def)
    moreover have "file_data sb s' v' = file_data sb s v"
      using b cD by (intro file_data_eq [OF n(1,2)]) (simp_all add: same_blocks_def)
    ultimately show ?thesis using n False cD by (auto simp: node_ok_def view_def file_ok_def)
  qed
  then show "node_ok sb s' v'" "view sb s' v' = view sb s v" by blast+
qed

text \<open>An inode that an operation leaves alone.\<close>

definition untouched :: "Yaf_Sb_Info \<Rightarrow> kst \<Rightarrow> kst \<Rightarrow> u64 \<Rightarrow> bool" where
  "untouched sb s s' i \<longleftrightarrow> live sb s' i = live sb s i \<and>
     (live sb s i \<longrightarrow> core (node sb s' i) = core (node sb s i) \<and> same_blocks sb s s' (node sb s i))"

text \<open>
  The invariant of the live inodes: each is in the inode table and well formed, and no two hold
  the same data block.
\<close>

definition nodes_ok :: "Yaf_Sb_Info \<Rightarrow> kst \<Rightarrow> bool" where
  "nodes_ok sb s \<longleftrightarrow> (\<forall>i. live sb s i \<longrightarrow> ino_ok sb i \<and> node_ok sb s (node sb s i)) \<and>
     (\<forall>i j. live sb s i \<longrightarrow> live sb s j \<longrightarrow> i \<noteq> j \<longrightarrow> held (node sb s i) \<inter> held (node sb s j) = {})"

lemma nodes_okD:
  assumes "nodes_ok sb s" and "live sb s i"
  shows "ino_ok sb i" "node_ok sb s (node sb s i)"
    "live sb s j \<Longrightarrow> i \<noteq> j \<Longrightarrow> held (node sb s i) \<inter> held (node sb s j) = {}"
  using assms unfolding nodes_ok_def by blast+

lemma untouched_node:
  assumes "nodes_ok sb s" and "untouched sb s s' i"
  shows "afs_of sb s' i = afs_of sb s i"
    "live sb s' i \<Longrightarrow> ino_ok sb i \<and> node_ok sb s' (node sb s' i) \<and> held (node sb s' i) = held (node sb s i)"
proof -
  have l: "live sb s' i = live sb s i" using assms(2) by (simp add: untouched_def)
  have n: "core (node sb s' i) = core (node sb s i)" "same_blocks sb s s' (node sb s i)" if "live sb s i"
    using assms(2) that by (simp_all add: untouched_def)
  show "afs_of sb s' i = afs_of sb s i"
    using node_frame(2) [OF nodes_okD(2) [OF assms(1)] n] l by (simp add: afs_of_def)
  show "live sb s' i \<Longrightarrow> ino_ok sb i \<and> node_ok sb s' (node sb s' i) \<and> held (node sb s' i) = held (node sb s i)"
    using node_frame(1) [OF nodes_okD(2) [OF assms(1)] n] nodes_okD(1) [OF assms(1)] coreD(5) [OF n(1)] l
    by blast
qed

text \<open>
  An operation that changes the inodes of \<open>C\<close> only keeps the invariant when it holds for these
  again and each block they hold is one they held before or was not held.
\<close>

lemma nodes_update:
  assumes ok: "nodes_ok sb s" and rest: "\<And>i. i \<notin> C \<Longrightarrow> untouched sb s s' i"
    and new: "\<And>i. i \<in> C \<Longrightarrow> live sb s' i \<Longrightarrow> ino_ok sb i \<and> node_ok sb s' (node sb s' i)"
    and fresh: "\<And>i j. i \<in> C \<Longrightarrow> live sb s' i \<Longrightarrow> j \<notin> C \<Longrightarrow> live sb s j \<Longrightarrow>
      held (node sb s' i) \<inter> held (node sb s j) = {}"
    and apart: "\<And>i j. i \<in> C \<Longrightarrow> j \<in> C \<Longrightarrow> live sb s' i \<Longrightarrow> live sb s' j \<Longrightarrow> i \<noteq> j \<Longrightarrow>
      held (node sb s' i) \<inter> held (node sb s' j) = {}"
  shows "nodes_ok sb s'"
proof -
  have keep: "live sb s i \<and> held (node sb s' i) = held (node sb s i)" if "i \<notin> C" "live sb s' i" for i
    using untouched_node(2) [OF ok rest [OF that(1)] that(2)] rest [OF that(1)] that(2)
    by (simp add: untouched_def)
  have "ino_ok sb i \<and> node_ok sb s' (node sb s' i)" if "live sb s' i" for i
    using that new untouched_node(2) [OF ok rest, of i] by (cases "i \<in> C") auto
  moreover have "held (node sb s' i) \<inter> held (node sb s' j) = {}"
    if l: "live sb s' i" "live sb s' j" and ne: "i \<noteq> j" for i j
  proof -
    consider "i \<in> C" "j \<in> C" | "i \<in> C" "j \<notin> C" | "i \<notin> C" "j \<in> C" | "i \<notin> C" "j \<notin> C" by blast
    then show ?thesis
    proof cases
      case 1 then show ?thesis using apart l ne by blast
    next
      case 2 then show ?thesis using fresh [of i j] keep [of j] l by simp
    next
      case 3 then show ?thesis using fresh [of j i] keep [of i] l by (simp add: Int_commute)
    next
      case 4 then show ?thesis using nodes_okD(3) [OF ok, of i j] keep [of i] keep [of j] l ne by simp
    qed
  qed
  ultimately show ?thesis by (simp add: nodes_ok_def)
qed

section \<open>Blocks of the inode table\<close>

lemma INO2BID_sections:
  assumes "sb_ok sb" and "ino_ok sb ino"
  shows "INO2BID sb ino \<noteq> BID_IBP_MIN sb" "INO2BID sb ino \<noteq> BID_DBP_MIN sb"
    "INO2BID sb ino \<noteq> DNO2BID sb x"
proof -
  have "unat ino div 64 < unat (nr_i sb)" using assms(2) by (simp add: ino_ok_def less_mult_imp_div_less)
  moreover have "0 < unat (nr_ibp sb)" "0 < unat (nr_dbp sb)"
    using assms(1) by (simp_all add: sb_ok_def word_less_nat_alt)
  ultimately have "unat (INO2BID sb ino) \<noteq> unat (BID_IBP_MIN sb)"
    "unat (INO2BID sb ino) \<noteq> unat (BID_DBP_MIN sb)" "unat (INO2BID sb ino) \<noteq> unat (DNO2BID sb x)"
    unfolding unat_INO2BID unat_BID(1,2) unat_DNO2BID by linarith+
  then show "INO2BID sb ino \<noteq> BID_IBP_MIN sb" "INO2BID sb ino \<noteq> BID_DBP_MIN sb"
    "INO2BID sb ino \<noteq> DNO2BID sb x" by metis+
qed

lemma disk_node_frame:
  "disk s' (INO2BID sb ino) = disk s (INO2BID sb ino) \<Longrightarrow> disk_node sb s' ino = disk_node sb s ino"
  by (simp add: disk_node_def dinode_at_def)

end
