(* ===== verification/Yaf_Super.thy ===== *)
theory Yaf_Super
  imports Yaf_DirCreate
begin

text \<open>
  Mounting: the on-disk superblock of \<open>include/super.h\<close>, \<open>yaf_fill_super\<close> and the inode
  memory of \<open>driver/super.c\<close>, and the module entry points of \<open>driver/fs.c\<close>.
\<close>

section \<open>The on-disk superblock\<close>

text \<open>\<open>MAGIC\<close> is the string "yaf" with its terminating NUL, four bytes.\<close>

definition MAGIC :: "nat \<Rightarrow> byte" where
  "MAGIC = cstr [121, 97, 102]"

definition SIZEOF_MAGIC :: nat where "SIZEOF_MAGIC = 4"
definition SIZEOF_SB_INFO :: nat where "SIZEOF_SB_INFO = 16"
definition MAGIC_LEN :: nat where "MAGIC_LEN = YAF_BLOCK_SIZE - SIZEOF_SB_INFO"

lemma super_consts [simp]: "SIZEOF_MAGIC = 4" "SIZEOF_SB_INFO = 16" "MAGIC_LEN = 4080"
  by (simp_all add: SIZEOF_MAGIC_def SIZEOF_SB_INFO_def MAGIC_LEN_def)

definition sb_load :: "block \<Rightarrow> Yaf_Sb_Info" where
  "sb_load blk = \<lparr>nr_ibp = le32_load blk 0, nr_dbp = le32_load blk 4,
     nr_i = le32_load blk 8, nr_d = le32_load blk 12\<rparr>"

text \<open>The loop that compares the magic area, from index \<open>idx\<close>.\<close>

function magic_ok :: "block \<Rightarrow> nat \<Rightarrow> bool" where
  "magic_ok blk idx =
     (if idx < MAGIC_LEN then
        if memcmp0 SIZEOF_MAGIC (\<lambda>i. blk (SIZEOF_SB_INFO + idx + i)) MAGIC
        then magic_ok blk (idx + SIZEOF_MAGIC) else False
      else True)"
  by pat_completeness auto
termination
  by (relation "measure (\<lambda>(blk, idx). MAGIC_LEN - idx)") auto

declare magic_ok.simps [simp del]

section \<open>Mounting\<close>

text \<open>
  What \<open>yaf_fill_super\<close> changes besides the kernel state \<open>ks\<close>: the block size of the device and
  whether the operations of superblocks are in place, the private data attached to
  the superblock and whether its memory was freed since, the references it holds on the root
  inode, and the root dentry.
\<close>

record mount =
  ks :: kst
  s_blocksize :: nat
  s_op_set :: bool
  s_fs_info :: "Yaf_Sb_Info option"
  fs_info_freed :: bool
  root_refs :: int
  s_root :: "u64 option"

definition on_ks :: "'a kc \<Rightarrow> mount \<Rightarrow> ('a, mount) outcome" where
  "on_ks c m = (case c (ks m) of Run x s \<Rightarrow> Run x (m\<lparr>ks := s\<rparr>) | Stop e \<Rightarrow> Stop e)"

definition upd :: "(mount \<Rightarrow> mount) \<Rightarrow> mount \<Rightarrow> (unit, mount) outcome" where
  "upd f m = Run () (f m)"

text \<open>
  \<open>d_make_root\<close> gives the reference on the inode to the new dentry or, when it cannot make
  one, drops it and returns NULL.
\<close>

definition d_make_root :: "bool \<Rightarrow> u64 \<Rightarrow> mount \<Rightarrow> (u64 option, mount) outcome" where
  "d_make_root mem root m =
     (if mem then Run (Some root) m else Run None (m\<lparr>root_refs := root_refs m - 1\<rparr>))"

text \<open>
  \<open>sb_set_blocksize\<close>, on a device whose hardware has blocks of at most 4096 bytes. On another it
  fails, which \<open>yaf_fill_super\<close> does not notice, and every block the driver reads afterwards has
  the wrong size; such devices are outside of this model.
\<close>

definition sb_set_blocksize :: "nat \<Rightarrow> mount \<Rightarrow> (unit, mount) outcome" where
  "sb_set_blocksize bytes = upd (\<lambda>m. m\<lparr>s_blocksize := bytes\<rparr>)"

text \<open>The labels \<open>release_bh\<close> and \<open>free_ysi\<close>, left with result \<open>r\<close>.\<close>

definition release_bh :: "u64 \<Rightarrow> int \<Rightarrow> mount \<Rightarrow> (int, mount) outcome" where
  "release_bh bh r = bnd (on_ks (brelse bh)) (\<lambda>_. ret r)"

definition free_ysi :: "u64 \<Rightarrow> int \<Rightarrow> mount \<Rightarrow> (int, mount) outcome" where
  "free_ysi bh r = bnd (upd (\<lambda>m. m\<lparr>fs_info_freed := True\<rparr>)) (\<lambda>_. release_bh bh r)"

text \<open>
  \<open>yaf_fill_super\<close>: \<open>kz\<close> tells whether \<open>kzalloc\<close> succeeds and \<open>dm\<close> whether there is memory for
  the root dentry. \<open>BID_SB_MIN\<close> does not depend on the counts, which are not known yet.
\<close>

definition yaf_fill_super :: "env \<Rightarrow> bool \<Rightarrow> bool \<Rightarrow> mount \<Rightarrow> (int, mount) outcome" where
  "yaf_fill_super E kz dm =
     bnd (sb_set_blocksize YAF_BLOCK_SIZE) (\<lambda>_.
     bnd (upd (\<lambda>m. m\<lparr>s_op_set := True\<rparr>)) (\<lambda>_.
     bnd (on_ks (sb_bread E (BID_SB_MIN \<lparr>nr_ibp = 0, nr_dbp = 0, nr_i = 0, nr_d = 0\<rparr>))) (\<lambda>bh.
     case bh of
       None \<Rightarrow> ret (- EIO)
     | Some bh \<Rightarrow>
         bnd (on_ks (b_data bh)) (\<lambda>ysb.
         if \<not> magic_ok ysb 0 then release_bh bh (- EINVAL)
         else if \<not> kz then release_bh bh (- ENOMEM)
         else
           let ysi = sb_load ysb in
           bnd (upd (\<lambda>m. m\<lparr>s_fs_info := Some ysi, fs_info_freed := False\<rparr>)) (\<lambda>_.
           bnd (on_ks (yaf_iget E ysi ROOT_INO)) (\<lambda>root.
           case root of
             Inl e \<Rightarrow> free_ysi bh e
           | Inr root \<Rightarrow>
               bnd (upd (\<lambda>m. m\<lparr>root_refs := root_refs m + 1\<rparr>)) (\<lambda>_.
               bnd (d_make_root dm root) (\<lambda>d.
               bnd (upd (\<lambda>m. m\<lparr>s_root := d\<rparr>)) (\<lambda>_.
               if d = None then
                 bnd (upd (\<lambda>m. m\<lparr>root_refs := root_refs m - 1\<rparr>)) (\<lambda>_. free_ysi bh (- ENOMEM))
               else release_bh bh 0)))))))))"

text \<open>
  Around it: \<open>yaf_mount\<close> hands \<open>yaf_fill_super\<close> to the kernel's \<open>mount_bdev\<close>, which answers with
  the root dentry or an error, and \<open>yaf_kill_sb\<close> calls the kernel's \<open>kill_block_super\<close> and
  nothing else.
\<close>

definition yaf_mount ::
  "((mount \<Rightarrow> (int, mount) outcome) \<Rightarrow> mount \<Rightarrow> (int + u64, mount) outcome) \<Rightarrow>
   env \<Rightarrow> bool \<Rightarrow> bool \<Rightarrow> mount \<Rightarrow> (int + u64, mount) outcome" where
  "yaf_mount mount_bdev E kz dm =
     bnd (mount_bdev (yaf_fill_super E kz dm)) (\<lambda>r.
     case r of Inl e \<Rightarrow> ret (Inl e) | Inr root \<Rightarrow> ret (Inr root))"

definition yaf_kill_sb :: "(mount \<Rightarrow> (unit, mount) outcome) \<Rightarrow> mount \<Rightarrow> (unit, mount) outcome" where
  "yaf_kill_sb kill_block_super = kill_block_super"

text \<open>
  The memory of an inode, from and to the slab cache; a \<open>struct inode\<close> stands for the
  \<open>Yaf_Inode_Info\<close> it is embedded in. \<open>Inl e\<close> is the pointer \<open>ERR_PTR(e)\<close>, which the kernel takes
  for an inode, because it tests the result of this operation against NULL.
\<close>

definition yaf_alloc_inode :: "('m \<Rightarrow> ('p option, 'm) outcome) \<Rightarrow> 'm \<Rightarrow> (int + 'p, 'm) outcome" where
  "yaf_alloc_inode kmem_cache_alloc =
     bnd kmem_cache_alloc (\<lambda>yii.
     case yii of None \<Rightarrow> ret (Inl (- ENOMEM)) | Some yii \<Rightarrow> ret (Inr yii))"

definition yaf_destroy_inode :: "('p \<Rightarrow> 'm \<Rightarrow> (unit, 'm) outcome) \<Rightarrow> 'p \<Rightarrow> 'm \<Rightarrow> (unit, 'm) outcome" where
  "yaf_destroy_inode kmem_cache_free inode = kmem_cache_free inode"

section \<open>The module\<close>

text \<open>Whether the inode cache exists and the file system is registered.\<close>

record modstate =
  cachep :: bool
  registered :: bool

type_synonym 'a mc = "modstate \<Rightarrow> 'a \<times> modstate"

definition yaf_init_inode_cache :: "bool \<Rightarrow> int mc" where
  "yaf_init_inode_cache created m =
     (if \<not> created then (- ENOMEM, m\<lparr>cachep := False\<rparr>) else (0, m\<lparr>cachep := True\<rparr>))"

definition yaf_fini_inode_cache :: "unit mc" where
  "yaf_fini_inode_cache m = ((), m\<lparr>cachep := False\<rparr>)"

text \<open>\<open>register_filesystem\<close> and \<open>unregister_filesystem\<close> return \<open>r\<close>, 0 for success.\<close>

definition register_filesystem :: "int \<Rightarrow> int mc" where
  "register_filesystem r m = (r, if r = 0 then m\<lparr>registered := True\<rparr> else m)"

definition unregister_filesystem :: "int \<Rightarrow> int mc" where
  "unregister_filesystem r m = (r, if r = 0 then m\<lparr>registered := False\<rparr> else m)"

definition yaf_init :: "bool \<Rightarrow> int \<Rightarrow> int mc" where
  "yaf_init created reg m0 =
     (let (r, m1) = yaf_init_inode_cache created m0 in
      if r \<noteq> 0 then (r, m1)
      else
        let (r, m2) = register_filesystem reg m1 in
        if r \<noteq> 0 then (r, snd (yaf_fini_inode_cache m2)) else (r, m2))"

definition yaf_exit :: "int \<Rightarrow> unit mc" where
  "yaf_exit unreg m0 =
     (let (r, m1) = unregister_filesystem unreg m0 in
      if r \<noteq> 0 then ((), m1) else yaf_fini_inode_cache m1)"

text \<open>
  The life of the module: it is unloaded only after a successful load, and the kernel
  unregisters a file system that is registered.
\<close>

datatype phase = Unloaded | Loaded

inductive mod_step :: "phase \<times> modstate \<Rightarrow> phase \<times> modstate \<Rightarrow> bool" where
  load_ok: "yaf_init created reg m = (0, m') \<Longrightarrow> mod_step (Unloaded, m) (Loaded, m')"
| load_fail: "yaf_init created reg m = (r, m') \<Longrightarrow> r \<noteq> 0 \<Longrightarrow> mod_step (Unloaded, m) (Unloaded, m')"
| unload: "yaf_exit unreg m = ((), m') \<Longrightarrow> (registered m \<Longrightarrow> unreg = 0) \<Longrightarrow> mod_step (Loaded, m) (Unloaded, m')"

inductive_cases mod_stepE: "mod_step (p, m) (p', m')"

inductive mod_reach :: "phase \<times> modstate \<Rightarrow> bool" where
  start: "mod_reach (Unloaded, \<lparr>cachep = False, registered = False\<rparr>)"
| step: "mod_reach s \<Longrightarrow> mod_step s s' \<Longrightarrow> mod_reach s'"

section \<open>Properties\<close>

lemma on_ks_Run: "c (ks m) = Run x s \<Longrightarrow> on_ks c m = Run x (m\<lparr>ks := s\<rparr>)"
  by (simp add: on_ks_def)

lemmas mount_run = bnd_run sb_set_blocksize_def on_ks_Run upd_def d_make_root_def release_bh_def free_ysi_def

lemma memcmp_magic:
  "memcmp0 4 (\<lambda>i. blk (16 + 4 * k + i)) MAGIC \<longleftrightarrow> (\<forall>i<4. blk (16 + (4 * k + i)) = MAGIC ((4 * k + i) mod 4))"
  by (simp add: memcmp0_iff add.assoc)

lemma magic_ok_from:
  "k \<le> 1020 \<Longrightarrow> magic_ok blk (4 * k) \<longleftrightarrow> (\<forall>i<4080. 4 * k \<le> i \<longrightarrow> blk (16 + i) = MAGIC (i mod 4))"
proof (induction "1020 - k" arbitrary: k)
  case 0
  then show ?case by (subst magic_ok.simps) simp
next
  case (Suc n)
  then have k: "k < 1020" and IH: "magic_ok blk (4 * Suc k) \<longleftrightarrow>
      (\<forall>i<4080. 4 * Suc k \<le> i \<longrightarrow> blk (16 + i) = MAGIC (i mod 4))"
    using Suc.hyps(1) [of "Suc k"] Suc.hyps(2) by simp_all
  have split: "(\<forall>i<4080. 4 * k \<le> i \<longrightarrow> Q i) \<longleftrightarrow> (\<forall>i<4. Q (4 * k + i)) \<and> (\<forall>i<4080. 4 * Suc k \<le> i \<longrightarrow> Q i)" for Q
  proof (intro iffI conjI allI impI)
    fix i assume a: "(\<forall>i<4. Q (4 * k + i)) \<and> (\<forall>i<4080. 4 * Suc k \<le> i \<longrightarrow> Q i)" and i: "i < 4080" "4 * k \<le> i"
    show "Q i"
    proof (cases "i < 4 * k + 4")
      case True
      with i have "i - 4 * k < 4" "4 * k + (i - 4 * k) = i" by auto
      with a show ?thesis by metis
    qed (use a i in auto)
  qed (use k in auto)
  have "magic_ok blk (4 * k) \<longleftrightarrow> memcmp0 4 (\<lambda>i. blk (16 + 4 * k + i)) MAGIC \<and> magic_ok blk (4 * Suc k)"
    using k by (subst magic_ok.simps) (simp add: add.commute)
  then show ?case unfolding memcmp_magic IH split by blast
qed

lemma magic_ok_iff: "magic_ok blk 0 \<longleftrightarrow> (\<forall>i<4080. blk (16 + i) = MAGIC (i mod 4))"
  using magic_ok_from [of 0 blk] by simp

text \<open>
  The magic check accepts exactly the superblocks whose last 4080 bytes repeat the four
  bytes of the magic string, and on any other \<open>yaf_fill_super\<close> returns \<open>-EINVAL\<close>, attaching
  nothing and giving the buffer back; only the block size and the operations of the superblock
  have been set.
\<close>

theorem magic_check:
  "magic_ok blk 0 = (\<forall>i<MAGIC_LEN. blk (SIZEOF_SB_INFO + i) = MAGIC (i mod SIZEOF_MAGIC)) \<and>
   (bread_ok E (tick (ks m)) 0 \<and> \<not> magic_ok (disk (ks m) 0) 0 \<longrightarrow>
      yaf_fill_super E kz dm m = Run (- EINVAL) (m\<lparr>s_blocksize := YAF_BLOCK_SIZE, s_op_set := True, ks := (ks m)\<lparr>tick := tick (ks m) + 1\<rparr>\<rparr>))"
  by (auto simp: magic_ok_iff yaf_fill_super_def mount_run sb_bread_run kernel_run BID_min_eqs)

text \<open>A mount record over a kernel state, with nothing attached.\<close>

definition unmounted :: "kst \<Rightarrow> mount" where
  "unmounted s = \<lparr>ks = s, s_blocksize = 0, s_op_set = False, s_fs_info = None, fs_info_freed = False, root_refs = 0, s_root = None\<rparr>"

theorem magic_check_witness:
  "yaf_fill_super env0 True True (unmounted kst0) =
     Run (- EINVAL) ((unmounted (kst0\<lparr>tick := 1\<rparr>))\<lparr>s_blocksize := 4096, s_op_set := True\<rparr>)"
proof -
  have "\<not> magic_ok (disk0 0) 0"
    unfolding magic_ok_iff by (auto intro!: exI [of _ "0 :: nat"] simp: disk0_def MAGIC_def cstr_def)
  then show ?thesis
    using magic_check [of _ env0 "unmounted kst0" True True] by (simp add: unmounted_def)
qed

lemma fill_super_ok:
  assumes "bread_ok E (tick (ks m)) 0" and "magic_ok (disk (ks m) 0) 0"
    and "\<And>t. bread_ok E t (INO2BID (sb_load (disk (ks m) 0)) ROOT_INO)" and "\<And>t. iget_ok E t ROOT_INO"
    and "ino_ok (sb_load (disk (ks m) 0)) ROOT_INO" and "ROOT_INO \<notin> inew (ks m)"
    and "icache (ks m) ROOT_INO = None"
  shows "\<exists>w m'. yaf_fill_super E True dm m = Run (if dm then 0 else - ENOMEM) m' \<and>
    s_blocksize m' = YAF_BLOCK_SIZE \<and> s_op_set m' \<and>
    s_fs_info m' = Some (sb_load (disk (ks m) 0)) \<and> fs_info_freed m' = (\<not> dm) \<and>
    s_root m' = (if dm then Some ROOT_INO else None) \<and>
    root_refs m' = (if dm then root_refs m + 1 else root_refs m - 1) \<and>
    icache (ks m') = (icache (ks m))(ROOT_INO :=
      Some (fill_inode (dinode_at (sb_load (disk (ks m) 0)) (ks m) ROOT_INO) w)) \<and>
    disk (ks m') = disk (ks m) \<and> refs (ks m') = refs (ks m) \<and> inew (ks m') = inew (ks m) \<and>
    idirty (ks m') = idirty (ks m) \<and> dcache (ks m') = dcache (ks m)"
proof -
  let ?sb = "sb_load (disk (ks m) 0)"
  let ?s = "(ks m)\<lparr>tick := tick (ks m) + 1, refs := (refs (ks m))(0 := refs (ks m) 0 + 1)\<rparr>"
  have "yaf_iget E ?sb ROOT_INO ?s = Run (Inr ROOT_INO)
      (?s\<lparr>icache := (icache ?s)(ROOT_INO :=
         Some (fill_inode (dinode_at ?sb ?s ROOT_INO) (slab_inode E (tick ?s)))), tick := tick ?s + 2\<rparr>)"
    by (rule iget_fresh_run) (use assms in simp_all)
  moreover have "dinode_at ?sb ?s ROOT_INO = dinode_at ?sb (ks m) ROOT_INO" by (simp add: dinode_at_def)
  ultimately show ?thesis
    using assms(1,2)
    by (intro exI [of _ "slab_inode E (Suc (tick (ks m)))"], cases dm) (simp_all add: yaf_fill_super_def mount_run sb_bread_run kernel_run BID_min_eqs Let_def)
qed

text \<open>
  C30. Mounting. On a readable device with a valid magic area whose superblock has a root
  inode, \<open>yaf_fill_super\<close> returns 0, attaches the four counts of the superblock, loads inode 1
  from disk as the root with one reference, and gives its buffers back. When the root dentry
  cannot be allocated it returns \<open>-ENOMEM\<close>, but it drops the reference on the root inode twice
  (\<open>d_make_root\<close> has dropped it already) and leaves the private data attached after freeing it.
\<close>

theorem fill_super_correct:
  assumes "bread_ok E (tick (ks m)) 0" and "magic_ok (disk (ks m) 0) 0"
    and "\<And>t. bread_ok E t (INO2BID (sb_load (disk (ks m) 0)) ROOT_INO)" and "\<And>t. iget_ok E t ROOT_INO"
    and "ino_ok (sb_load (disk (ks m) 0)) ROOT_INO" and "ROOT_INO \<notin> inew (ks m)"
    and "icache (ks m) ROOT_INO = None"
  shows "\<exists>w m'. yaf_fill_super E True dm m = Run (if dm then 0 else - ENOMEM) m' \<and>
    s_blocksize m' = YAF_BLOCK_SIZE \<and> s_op_set m' \<and>
    s_fs_info m' = Some (sb_load (disk (ks m) 0)) \<and> fs_info_freed m' = (\<not> dm) \<and>
    s_root m' = (if dm then Some ROOT_INO else None) \<and>
    root_refs m' = (if dm then root_refs m + 1 else root_refs m - 1) \<and>
    icache (ks m') = (icache (ks m))(ROOT_INO :=
      Some (fill_inode (dinode_at (sb_load (disk (ks m) 0)) (ks m) ROOT_INO) w)) \<and>
    disk (ks m') = disk (ks m) \<and> refs (ks m') = refs (ks m) \<and> inew (ks m') = inew (ks m) \<and>
    idirty (ks m') = idirty (ks m) \<and> dcache (ks m') = dcache (ks m)"
  using fill_super_ok [OF assms] .

text \<open>A superblock with \<open>k\<close> blocks in each section, and a device that holds nothing else.\<close>

definition super_of :: "byte \<Rightarrow> u64 \<Rightarrow> block" where
  "super_of k b off =
     (if b \<noteq> 0 then 0 else if off < 16 then (if off mod 4 = 0 then k else 0) else MAGIC (off mod 4))"

lemma super_of_ok:
  "magic_ok (super_of k 0) 0"
  "sb_load (super_of k 0) = \<lparr>nr_ibp = ucast k, nr_dbp = ucast k, nr_i = ucast k, nr_d = ucast k\<rparr>"
proof -
  have "(16 + i) mod 4 = i mod (4 :: nat)" for i by presburger
  then show "magic_ok (super_of k 0) 0" unfolding magic_ok_iff by (simp add: super_of_def)
  show "sb_load (super_of k 0) = \<lparr>nr_ibp = ucast k, nr_dbp = ucast k, nr_i = ucast k, nr_d = ucast k\<rparr>"
    by (simp add: sb_load_def le32_load_def super_of_def)
qed

theorem fill_super_correct_witness:
  "\<exists>m'. yaf_fill_super env0 True False (unmounted (kst_of (super_of 1))) = Run (- ENOMEM) m' \<and> root_refs m' = - 1"
proof -
  have "ino_ok (sb_load (disk (ks (unmounted (kst_of (super_of 1)))) 0)) ROOT_INO"
    by (simp add: unmounted_def super_of_ok ino_ok_def ROOT_INO_def)
  then show ?thesis
    using fill_super_correct [of env0 "unmounted (kst_of (super_of 1))" False] super_of_ok(1)
    by (auto simp: unmounted_def)
qed

lemma fill_super_no_root:
  assumes "bread_ok E (tick (ks m)) 0" and "magic_ok (disk (ks m) 0) 0"
    and "\<not> ino_ok (sb_load (disk (ks m) 0)) ROOT_INO"
  shows "\<exists>m'. yaf_fill_super E True dm m = Run (- EINVAL) m' \<and>
    s_fs_info m' = Some (sb_load (disk (ks m) 0)) \<and> fs_info_freed m' \<and> s_root m' = s_root m \<and>
    disk (ks m') = disk (ks m) \<and> refs (ks m') = refs (ks m)"
  using assms iget_range [OF assms(3)]
  by (simp add: yaf_fill_super_def mount_run sb_bread_run kernel_run BID_min_eqs Let_def)

text \<open>
  A root inode out of range. When the inode section of the superblock is empty, mounting
  returns \<open>-EINVAL\<close> and leaves the private data attached to the superblock although its memory
  has been freed.
\<close>

theorem fill_super_dangling:
  assumes "bread_ok E (tick (ks m)) 0" and "magic_ok (disk (ks m) 0) 0"
    and "\<not> ino_ok (sb_load (disk (ks m) 0)) ROOT_INO"
  shows "\<exists>m'. yaf_fill_super E True dm m = Run (- EINVAL) m' \<and>
    s_fs_info m' = Some (sb_load (disk (ks m) 0)) \<and> fs_info_freed m' \<and> s_root m' = s_root m \<and>
    disk (ks m') = disk (ks m) \<and> refs (ks m') = refs (ks m)"
  using fill_super_no_root [OF assms] .

theorem fill_super_dangling_witness:
  "\<exists>m'. yaf_fill_super env0 True True (unmounted (kst_of (super_of 0))) = Run (- EINVAL) m' \<and>
     s_fs_info m' \<noteq> None \<and> fs_info_freed m'"
proof -
  have "\<not> ino_ok (sb_load (disk (ks (unmounted (kst_of (super_of 0)))) 0)) ROOT_INO"
    by (simp add: unmounted_def super_of_ok ino_ok_def)
  then show ?thesis
    using fill_super_dangling [of env0 "unmounted (kst_of (super_of 0))" True] super_of_ok(1)
    by (auto simp: unmounted_def)
qed

text \<open>
  C31. The life cycle of the module. In every state the module can reach, the inode cache
  exists and the file system is registered when the module is loaded, and neither is left
  behind when it is not: each failing step of \<open>yaf_init\<close> undoes the steps before it.
\<close>

theorem module_lifecycle:
  "mod_reach (p, m) \<Longrightarrow> cachep m = (p = Loaded) \<and> registered m = (p = Loaded)"
proof (induction "(p, m)" arbitrary: p m rule: mod_reach.induct)
  case (step s)
  obtain q n where s: "s = (q, n)" by (cases s)
  with step have IH: "cachep n = (q = Loaded)" "registered n = (q = Loaded)" by auto
  from step(3) IH show ?case
    unfolding s by (elim mod_stepE)
      (auto simp: yaf_init_def yaf_exit_def yaf_init_inode_cache_def yaf_fini_inode_cache_def
        register_filesystem_def unregister_filesystem_def ENOMEM_def split: if_splits)
qed simp

theorem module_lifecycle_witness:
  "\<exists>m. mod_reach (Loaded, m) \<and> cachep m \<and> registered m"
proof -
  have reach: "mod_reach (Loaded, snd (yaf_init True 0 \<lparr>cachep = False, registered = False\<rparr>))"
    by (rule mod_reach.step [OF mod_reach.start], rule mod_step.load_ok [of True 0])
      (simp add: yaf_init_def yaf_init_inode_cache_def register_filesystem_def)
  with module_lifecycle [OF reach] show ?thesis by blast
qed

end
