(* ===== verification/Yaf_System.thy ===== *)
theory Yaf_System
  imports Yaf_Node Yaf_Super
begin

text \<open>
  The running file system: the invariant of its states, the steps by which the kernel drives
  the driver, and the proof that every step keeps the invariant and is a step of the abstract
  file system.
\<close>

section \<open>The invariant\<close>

text \<open>A cached inode that is not dirty agrees with the disk.\<close>

definition clean_ok :: "Yaf_Sb_Info \<Rightarrow> kst \<Rightarrow> bool" where
  "clean_ok sb s \<longleftrightarrow>
     (\<forall>i v. icache s i = Some v \<longrightarrow> i \<notin> idirty s \<longrightarrow> core (disk_node sb s i) = core v)"

text \<open>A cached dentry tells what the directory says, and its inodes are in memory.\<close>

definition dentry_in :: "afs \<Rightarrow> kst \<Rightarrow> u64 \<Rightarrow> name \<Rightarrow> u64 option \<Rightarrow> bool" where
  "dentry_in a s dir nm x \<longleftrightarrow> icache s dir \<noteq> None \<and>
     (\<exists>m. a dir = Some (Dir m) \<and> map_option ucast (m nm) = x) \<and> (\<forall>i. x = Some i \<longrightarrow> icache s i \<noteq> None)"

definition dentries_ok :: "Yaf_Sb_Info \<Rightarrow> kst \<Rightarrow> bool" where
  "dentries_ok sb s \<longleftrightarrow> (\<forall>dir nm x. dcache s (dir, nm) = Some x \<longrightarrow> dentry_in (afs_of sb s) s dir nm x)"

text \<open>
  Block 0 holds the superblock, and inode number 0, which stands for no inode, is marked as used, so
  that the allocator does not hand it out.
\<close>

definition super_ok :: "Yaf_Sb_Info \<Rightarrow> kst \<Rightarrow> bool" where
  "super_ok sb s \<longleftrightarrow> sb_load (disk s 0) = sb \<and> magic_ok (disk s 0) 0 \<and>
     0 \<in> used_bits (disk s (BID_IBP_MIN sb))"

definition fs_inv :: "Yaf_Sb_Info \<Rightarrow> kst \<Rightarrow> bool" where
  "fs_inv sb s \<longleftrightarrow> sb_ok sb \<and> super_ok sb s \<and> inew s = {} \<and> refs s = (\<lambda>_. 0) \<and>
     (\<forall>i. icache s i \<noteq> None \<longrightarrow> live sb s i) \<and> nodes_ok sb s \<and> clean_ok sb s \<and> dentries_ok sb s \<and>
     tree_ok (afs_of sb s)"

lemma fs_invD:
  assumes "fs_inv sb s"
  shows "sb_ok sb" "inew s = {}" "refs s = (\<lambda>_. 0)" "icache s i = Some v \<Longrightarrow> live sb s i"
    "nodes_ok sb s" "clean_ok sb s" "dentries_ok sb s" "tree_ok (afs_of sb s)"
    "super_ok sb s"
  using assms by (simp_all add: fs_inv_def)

lemma fs_invI:
  assumes "sb_ok sb" and "super_ok sb s" and "inew s = {}" and "refs s = (\<lambda>_. 0)" and "\<And>i. icache s i \<noteq> None \<Longrightarrow> live sb s i"
    and "nodes_ok sb s" and "clean_ok sb s" and "dentries_ok sb s" and "tree_ok (afs_of sb s)"
  shows "fs_inv sb s"
proof -
  have l: "\<forall>i. icache s i \<noteq> None \<longrightarrow> live sb s i" using assms(5) by simp
  show ?thesis unfolding fs_inv_def by (intro conjI) (fact assms l)+
qed

lemma zero_reserved: "fs_inv sb s \<Longrightarrow> 0 \<in> used_bits (disk s (BID_IBP_MIN sb))"
  using fs_invD(9) by (simp add: super_ok_def)

lemma dentries_okD: "dentries_ok sb s \<Longrightarrow> dcache s (dir, nm) = Some x \<Longrightarrow> dentry_in (afs_of sb s) s dir nm x"
  by (simp add: dentries_ok_def)

lemma dentry_inD:
  assumes "dentry_in a s dir nm x"
  shows "icache s dir \<noteq> None" "\<exists>m. a dir = Some (Dir m) \<and> map_option ucast (m nm) = x"
    "x = Some i \<Longrightarrow> icache s i \<noteq> None"
  using assms unfolding dentry_in_def by blast+

lemma dentry_in_mono:
  assumes "dentry_in a s dir nm x" and "\<And>i. icache s i \<noteq> None \<Longrightarrow> icache s' i \<noteq> None"
    and "\<And>m. a dir = Some (Dir m) \<Longrightarrow> \<exists>m'. a' dir = Some (Dir m') \<and> m' nm = m nm"
  shows "dentry_in a' s' dir nm x"
proof -
  obtain m where m: "a dir = Some (Dir m)" "map_option ucast (m nm) = x" using dentry_inD(2) [OF assms(1)] by blast
  obtain m' where "a' dir = Some (Dir m')" "m' nm = m nm" using assms(3) [OF m(1)] by blast
  with m(2) have "\<exists>m. a' dir = Some (Dir m) \<and> map_option ucast (m nm) = x" by simp
  then show ?thesis
    unfolding dentry_in_def using dentry_inD(1,3) [OF assms(1)] assms(2) by simp
qed

lemma view_dir: "S_ISDIR (i_mode d) \<Longrightarrow> view sb s d = Dir (dir_map sb s d)"
  by (simp add: view_def)

lemma cached_node:
  assumes "fs_inv sb s" and "icache s i = Some v"
  shows "live sb s i" "ino_ok sb i" "node_ok sb s v" "afs_of sb s i = Some (view sb s v)"
  using fs_invD(4) [OF assms] nodes_okD(1,2) [OF fs_invD(5) [OF assms(1)], of i] node_cached [of s i v sb] assms(2)
  by (simp_all add: afs_of_def)

lemma dentryD:
  assumes "fs_inv sb s" and "dcache s (dir, nm) = Some x" and "icache s dir = Some d"
  shows "S_ISDIR (i_mode d)" "map_option ucast (dir_map sb s d nm) = x" "x = Some i \<Longrightarrow> icache s i \<noteq> None"
proof -
  note dD = dentry_inD [OF dentries_okD [OF fs_invD(7) [OF assms(1)] assms(2)]]
  obtain m where m: "afs_of sb s dir = Some (Dir m)" "map_option ucast (m nm) = x" using dD(2) by blast
  have "view sb s d = Dir m" using cached_node(4) [OF assms(1,3)] m(1) by simp
  then have "S_ISDIR (i_mode d) \<and> dir_map sb s d = m" by (simp add: view_def split: if_splits)
  with m(2) dD(3) show "S_ISDIR (i_mode d)" "map_option ucast (dir_map sb s d nm) = x"
    "x = Some i \<Longrightarrow> icache s i \<noteq> None" by blast+
qed

section \<open>Frames of the operations\<close>

text \<open>A change of the bitmaps and of the data blocks in \<open>Y\<close> only.\<close>

definition changes_only :: "Yaf_Sb_Info \<Rightarrow> kst \<Rightarrow> kst \<Rightarrow> u32 set \<Rightarrow> bool" where
  "changes_only sb s s' Y \<longleftrightarrow>
     (\<forall>a. a \<notin> {BID_IBP_MIN sb, BID_DBP_MIN sb} \<union> DNO2BID sb ` Y \<longrightarrow> disk s' a = disk s a)"

lemma changes_only_table:
  assumes "sb_ok sb" and "ino_ok sb i" and "changes_only sb s s' Y"
  shows "disk_node sb s' i = disk_node sb s i"
proof (rule disk_node_frame)
  have "INO2BID sb i \<notin> {BID_IBP_MIN sb, BID_DBP_MIN sb} \<union> DNO2BID sb ` Y"
    using INO2BID_sections [OF assms(1,2)] by auto
  then show "disk s' (INO2BID sb i) = disk s (INO2BID sb i)"
    using assms(3) unfolding changes_only_def by blast
qed

lemma changes_only_super:
  assumes inv: "fs_inv sb s" and ch: "changes_only sb s s' Y" and zero: "0 \<in> used_bits (disk s' (BID_IBP_MIN sb))"
  shows "super_ok sb s'"
proof -
  have ne: "x \<noteq> 0" if "unat x \<noteq> 0" for x :: u64 using that by auto
  have "BID_IBP_MIN sb \<noteq> 0" by (rule ne) (simp only: unat_BID; simp)
  moreover have "BID_DBP_MIN sb \<noteq> 0" by (rule ne) (simp only: unat_BID; simp)
  moreover have "DNO2BID sb x \<noteq> 0" for x by (rule ne) (simp only: unat_DNO2BID; simp)
  ultimately have "0 \<notin> {BID_IBP_MIN sb, BID_DBP_MIN sb} \<union> DNO2BID sb ` Y" by (auto dest: sym)
  then have "disk s' 0 = disk s 0" using ch unfolding changes_only_def by blast
  then show ?thesis using fs_invD(9) [OF inv] zero by (simp add: super_ok_def)
qed

lemma untouchedI:
  assumes ok: "nodes_ok sb s" and sb: "sb_ok sb" and l: "live sb s' i = live sb s i"
    and ic: "icache s' i = icache s i" and ch: "changes_only sb s s' Y"
    and Y: "live sb s i \<Longrightarrow> held (node sb s i) \<inter> Y = {}"
    and m: "\<And>x. live sb s i \<Longrightarrow> x \<in> held (node sb s i) \<Longrightarrow> unat x \<in> used_bits (disk s' (BID_DBP_MIN sb))"
  shows "untouched sb s s' i"
  unfolding untouched_def
proof (intro conjI impI)
  show "live sb s' i = live sb s i" by (rule l)
  assume live: "live sb s i"
  have "node sb s' i = node sb s i"
    using ic changes_only_table [OF sb nodes_okD(1) [OF ok live] ch] by (simp add: node_def split: option.split)
  then show "core (node sb s' i) = core (node sb s i)" by simp
  have "disk s' (DNO2BID sb x) = disk s (DNO2BID sb x)" if "x \<in> held (node sb s i)" for x
  proof -
    have "x \<notin> Y" using Y [OF live] that by blast
    then have "DNO2BID sb x \<notin> {BID_IBP_MIN sb, BID_DBP_MIN sb} \<union> DNO2BID sb ` Y" using sb by auto
    then show ?thesis using ch unfolding changes_only_def by blast
  qed
  then show "same_blocks sb s s' (node sb s i)" using m [OF live] by (simp add: same_blocks_def)
qed

lemma clean_frame:
  assumes inv: "fs_inv sb s" and ch: "changes_only sb s s' Y"
    and ic: "\<And>i v. icache s' i = Some v \<Longrightarrow> i \<notin> idirty s' \<Longrightarrow> icache s i = Some v \<and> i \<notin> idirty s"
  shows "clean_ok sb s'"
  unfolding clean_ok_def
proof (intro allI impI)
  fix i v assume "icache s' i = Some v" "i \<notin> idirty s'"
  then have i: "icache s i = Some v" "i \<notin> idirty s" using ic by auto
  then have "core (disk_node sb s i) = core v"
    using fs_invD(6) [OF inv] by (simp add: clean_ok_def)
  then show "core (disk_node sb s' i) = core v"
    using changes_only_table [OF fs_invD(1) [OF inv] cached_node(2) [OF inv i(1)] ch] by simp
qed

lemma changes_onlyI:
  "(\<And>a. a \<notin> {BID_IBP_MIN sb, BID_DBP_MIN sb, DNO2BID sb y} \<Longrightarrow> disk s' a = disk s a) \<Longrightarrow> changes_only sb s s' {y}"
  by (auto simp: changes_only_def)

section \<open>Creation\<close>

text \<open>What the owner callback may change of the mode: not the type.\<close>

definition owner_ok :: "env \<Rightarrow> bool" where
  "owner_ok E \<longleftrightarrow> (\<forall>d m. fst (init_owner E d m) AND S_IFMT = m AND S_IFMT)"

text \<open>
  The kernel creates a name in a cached directory after a lookup that did not find it. The
  remaining conditions are the resources: an entry, an inode number and a data block.
\<close>

definition may_create :: "Yaf_Sb_Info \<Rightarrow> kst \<Rightarrow> u64 \<Rightarrow> name \<Rightarrow> u16 \<Rightarrow> bool" where
  "may_create sb s dir nm mode \<longleftrightarrow> dcache s (dir, nm) = Some None \<and> valid_name nm \<and> mode AND S_IFMT = 0 \<and>
     (\<exists>d. icache s dir = Some d \<and> has_room sb s d) \<and> (\<exists>ino. inode_available sb s ino) \<and> dblock_available sb s"

lemma new_mode:
  assumes "owner_ok E" and "mode AND S_IFMT = 0" and "fmt = S_IFREG \<or> fmt = S_IFDIR"
  shows "S_ISDIR (fst (init_owner E d (mode OR fmt))) \<longleftrightarrow> fmt = S_IFDIR"
proof -
  have "(mode OR fmt) AND S_IFMT = (mode AND S_IFMT) OR (fmt AND S_IFMT)"
    by (rule bit_word_eqI) (auto simp: bit_and_iff bit_or_iff)
  then have "(mode OR fmt) AND S_IFMT = fmt AND S_IFMT" using assms(2) by simp
  then show ?thesis
    using assms(1,3) by (auto simp: owner_ok_def S_ISDIR_def S_IFMT_def S_IFDIR_def S_IFREG_def)
qed

lemma live_ino: "live sb s i \<Longrightarrow> unat i < BITS_PER_BLOCK"
  by (simp add: live_def used_bits_def)

text \<open>
  What a creation leaves behind: the changed directory \<open>d'\<close>, the new inode \<open>v\<close> with number
  \<open>ino\<close> and view \<open>nd\<close>, and the blocks and marks of all others.
\<close>

definition created ::
  "Yaf_Sb_Info \<Rightarrow> kst \<Rightarrow> u64 \<Rightarrow> Yaf_Inode_Info \<Rightarrow> name \<Rightarrow> nat \<Rightarrow> anode \<Rightarrow> kst \<Rightarrow> Yaf_Inode_Info \<Rightarrow>
   Yaf_Inode_Info \<Rightarrow> bool" where
  "created sb s dir d nm ino nd s' d' v \<longleftrightarrow>
     icache s dir = Some d \<and> S_ISDIR (i_mode d) \<and> dir_map sb s d nm = None \<and>
     ino < BITS_PER_BLOCK \<and> ino \<notin> used_bits (disk s (BID_IBP_MIN sb)) \<and> 0 < ino \<and> ino_ok sb (of_nat ino) \<and>
     icache s' = (icache s)(dir := Some d', of_nat ino := Some v) \<and>
     dir_map sb s' d' = (dir_map sb s d)(nm \<mapsto> of_nat ino) \<and> dir_inv sb s' d' \<and> i_mode d' = i_mode d \<and>
     node_ok sb s' v \<and> view sb s' v = nd \<and> held v = {} \<and>
     used_bits (disk s' (BID_IBP_MIN sb)) = insert ino (used_bits (disk s (BID_IBP_MIN sb))) \<and>
     dcache s' = (dcache s)((dir, nm) := Some (Some (of_nat ino))) \<and> {dir, of_nat ino} \<subseteq> idirty s' \<and>
     (\<exists>j<8. changes_only sb s s' {i_block d' ! j}) \<and> refs s' = refs s \<and> inew s' = inew s \<and> grown sb s d s' d'"

lemma createdD:
  assumes "created sb s dir d nm ino nd s' d' v"
  shows "icache s dir = Some d" "S_ISDIR (i_mode d)" "dir_map sb s d nm = None"
    "ino < BITS_PER_BLOCK" "ino \<notin> used_bits (disk s (BID_IBP_MIN sb))" "0 < ino" "ino_ok sb (of_nat ino)"
    "icache s' = (icache s)(dir := Some d', of_nat ino := Some v)"
    "dir_map sb s' d' = (dir_map sb s d)(nm \<mapsto> of_nat ino)" "dir_inv sb s' d'" "i_mode d' = i_mode d"
    "node_ok sb s' v" "view sb s' v = nd" "held v = {}"
    "used_bits (disk s' (BID_IBP_MIN sb)) = insert ino (used_bits (disk s (BID_IBP_MIN sb)))"
    "dcache s' = (dcache s)((dir, nm) := Some (Some (of_nat ino)))" "{dir, of_nat ino} \<subseteq> idirty s'"
    "\<exists>j<8. changes_only sb s s' {i_block d' ! j}" "refs s' = refs s" "inew s' = inew s"
  using assms by (simp_all add: created_def)

lemma created_num:
  assumes "created sb s dir d nm ino nd s' d' v"
  shows "unat (of_nat ino :: u64) = ino" "ucast (of_nat ino :: u32) = (of_nat ino :: u64)"
  using createdD(4) [OF assms] small_ino_ucast [of ino] by (simp_all add: unat_of_nat)

lemma created_grown:
  assumes "created sb s dir d nm ino nd s' d' v"
  shows "j < 8 \<Longrightarrow> i_block d' ! j = i_block d ! j \<or> unat (i_block d' ! j) \<notin> used_bits (disk s (BID_DBP_MIN sb))"
    "used_bits (disk s (BID_DBP_MIN sb)) \<subseteq> used_bits (disk s' (BID_DBP_MIN sb))"
    "\<exists>x. used_bits (disk s' (BID_DBP_MIN sb)) \<subseteq> insert x (used_bits (disk s (BID_DBP_MIN sb)))"
    "idirty s \<subseteq> idirty s'"
  using assms by (simp_all add: created_def grown_def)

lemma created_live:
  assumes "created sb s dir d nm ino nd s' d' v"
  shows "live sb s' i \<longleftrightarrow> live sb s i \<or> i = of_nat ino" "\<not> live sb s (of_nat ino)"
proof -
  note c = createdD [OF assms] and num = created_num(1) [OF assms]
  have "unat i = ino \<longleftrightarrow> i = of_nat ino" using num by (metis word_unatI)
  then show "live sb s' i \<longleftrightarrow> live sb s i \<or> i = of_nat ino" using c(6,15) num by (auto simp: live_def)
  show "\<not> live sb s (of_nat ino)" using c(5) num by (simp add: live_def)
qed

text \<open>The blocks of the changed directory are held by no other inode.\<close>

lemma created_apart:
  assumes inv: "fs_inv sb s" and c: "created sb s dir d nm ino nd s' d' v"
    and i: "live sb s i" "i \<noteq> dir" and j: "j < 8"
  shows "i_block d' ! j \<notin> held (node sb s i)"
proof
  note nodes = fs_invD(5) [OF inv] and d = createdD(1) [OF c]
  note cn = cached_node [OF inv d]
  assume x: "i_block d' ! j \<in> held (node sb s i)"
  then have "unat (i_block d' ! j) \<in> used_bits (disk s (BID_DBP_MIN sb))"
    using node_ok_held(2) [OF nodes_okD(2) [OF nodes i(1)]] by blast
  then have "i_block d' ! j = i_block d ! j" using created_grown(1) [OF c j] by blast
  then have "i_block d' ! j \<in> held d" using x node_ok_length [OF cn(3)] j by (simp add: held_def)
  with x nodes_okD(3) [OF nodes i(1) cn(1) i(2)] node_cached [OF d] show False by auto
qed

lemma created_untouched:
  assumes inv: "fs_inv sb s" and c: "created sb s dir d nm ino nd s' d' v" and i: "i \<notin> {dir, of_nat ino}"
  shows "untouched sb s s' i"
proof -
  note nodes = fs_invD(5) [OF inv]
  obtain j where j: "j < 8" and ch: "changes_only sb s s' {i_block d' ! j}" using createdD(18) [OF c] by blast
  show ?thesis
  proof (rule untouchedI [OF nodes fs_invD(1) [OF inv] _ _ ch])
    show "live sb s' i = live sb s i" using created_live(1) [OF c] i by simp
    show "icache s' i = icache s i" using createdD(8) [OF c] i by simp
    show "held (node sb s i) \<inter> {i_block d' ! j} = {}" if "live sb s i"
      using created_apart [OF inv c that _ j] i by simp
    show "unat x \<in> used_bits (disk s' (BID_DBP_MIN sb))" if "live sb s i" "x \<in> held (node sb s i)" for x
      using created_grown(2) [OF c] node_ok_held(2) [OF nodes_okD(2) [OF nodes that(1)] that(2)] by blast
  qed
qed

lemma created_node:
  assumes "fs_inv sb s" and "created sb s dir d nm ino nd s' d' v"
  shows "dir \<noteq> of_nat ino" "node sb s' dir = d'" "node sb s' (of_nat ino) = v"
proof -
  show ne: "dir \<noteq> of_nat ino"
    using created_live(2) [OF assms(2)] cached_node(1) [OF assms(1) createdD(1) [OF assms(2)]] by auto
  show "node sb s' dir = d'" "node sb s' (of_nat ino) = v"
    using ne by (simp_all add: node_def createdD(8) [OF assms(2)])
qed

lemma created_nodes:
  assumes inv: "fs_inv sb s" and c: "created sb s dir d nm ino nd s' d' v"
  shows "nodes_ok sb s'"
proof -
  note n = created_node [OF inv c] and cD = createdD [OF c]
  have okd: "node_ok sb s' d'" using cD(2,10,11) by (simp add: node_ok_def)
  have hd: "held d' \<inter> held (node sb s i) = {}" if "live sb s i" "i \<noteq> dir" for i
  proof -
    have "length (i_block d') = 8" using cD(10) dir_wfD(3) [of sb d'] by (simp add: dir_inv_def)
    then have "\<exists>j<8. x = i_block d' ! j" if "x \<in> held d'" for x
      using that by (auto simp: held_def in_set_conv_nth)
    then show ?thesis using created_apart [OF inv c that] by blast
  qed
  show ?thesis
  proof (rule nodes_update [OF fs_invD(5) [OF inv] created_untouched [OF inv c]])
    show "ino_ok sb i \<and> node_ok sb s' (node sb s' i)" if "i \<in> {dir, of_nat ino}" for i
      using that n okd cD(7,12) cached_node(2) [OF inv cD(1)] by auto
    show "held (node sb s' i) \<inter> held (node sb s k) = {}" if "i \<in> {dir, of_nat ino}" "k \<notin> {dir, of_nat ino}" "live sb s k"
      for i k using that n cD(14) hd [of k] by auto
    show "held (node sb s' i) \<inter> held (node sb s' k) = {}" if "i \<in> {dir, of_nat ino}" "k \<in> {dir, of_nat ino}" "i \<noteq> k"
      for i k using that n cD(14) by auto
  qed
qed

lemma created_afs:
  assumes inv: "fs_inv sb s" and c: "created sb s dir d nm ino nd s' d' v"
  shows "afs_of sb s' = (afs_of sb s)(dir := Some (Dir ((dir_map sb s d)(nm := Some (of_nat ino)))),
      ucast (of_nat ino :: u32) := Some nd)" (is "_ = ?a")
    "afs_of sb s dir = Some (Dir (dir_map sb s d))" "afs_of sb s (ucast (of_nat ino :: u32)) = None"
proof -
  note n = created_node [OF inv c] and cD = createdD [OF c]
  show "afs_of sb s' = ?a"
  proof
    fix i
    show "afs_of sb s' i = ?a i"
      using untouched_node(1) [OF fs_invD(5) [OF inv] created_untouched [OF inv c], of i] created_live(1) [OF c, of i]
        n cD(2,9,11,13) created_num(2) [OF c] cached_node(1) [OF inv cD(1)]
      by (cases "i \<in> {dir, of_nat ino}") (auto simp: afs_of_def view_dir simp del: if_split)
  qed
  show "afs_of sb s dir = Some (Dir (dir_map sb s d))"
    using cached_node(4) [OF inv cD(1)] cD(2) by (simp add: view_def)
  have "afs_of sb s (of_nat ino) = None" using created_live(2) [OF c] by (simp only: afs_of_def if_False)
  then show "afs_of sb s (ucast (of_nat ino :: u32)) = None" unfolding created_num(2) [OF c] .
qed

lemma created_dentries:
  assumes inv: "fs_inv sb s" and c: "created sb s dir d nm ino nd s' d' v"
  shows "dentries_ok sb s'"
  unfolding dentries_ok_def
proof (intro allI impI)
  note n = created_node [OF inv c] and cD = createdD [OF c] and afs = created_afs [OF inv c]
  fix d2 n2 x assume x: "dcache s' (d2, n2) = Some x"
  show "dentry_in (afs_of sb s') s' d2 n2 x"
  proof (cases "(d2, n2) = (dir, nm)")
    case True
    then show ?thesis using x cD(8,16) created_num(2) [OF c] afs(1) n(1) by (auto simp: dentry_in_def)
  next
    case False
    then have "dcache s (d2, n2) = Some x" using x unfolding cD(16) by auto
    with fs_invD(7) [OF inv] have "dentry_in (afs_of sb s) s d2 n2 x" by (rule dentries_okD)
    then show ?thesis
    proof (rule dentry_in_mono)
      show "icache s' i \<noteq> None" if "icache s i \<noteq> None" for i using that unfolding cD(8) by simp
      fix m assume m: "afs_of sb s d2 = Some (Dir m)"
      then have new: "d2 \<noteq> ucast (of_nat ino :: u32)" using afs(3) by auto
      show "\<exists>m'. afs_of sb s' d2 = Some (Dir m') \<and> m' n2 = m n2"
      proof (cases "d2 = dir")
        case True
        then have "n2 \<noteq> nm" "m = dir_map sb s d" using False m afs(2) by simp_all
        then show ?thesis unfolding afs(1) using True new by simp
      next
        case False
        then show ?thesis unfolding afs(1) using new m by simp
      qed
    qed
  qed
qed

text \<open>Creation keeps the invariant and is a step of the abstract file system.\<close>

lemma created_inv:
  assumes inv: "fs_inv sb s" and c: "created sb s dir d nm ino nd s' d' v" and nd: "nd = File [] \<or> nd = Dir Map.empty"
  shows "fs_inv sb s'"
proof -
  note sb = fs_invD(1) [OF inv] and cD = createdD [OF c] and afs = created_afs [OF inv c]
  obtain j where ch: "changes_only sb s s' {i_block d' ! j}" using cD(18) by blast
  have step: "a_step (afs_of sb s) (afs_of sb s')" unfolding afs(1) using afs(2) cD(3) afs(3) nd by (rule a_create)
  have clean: "clean_ok sb s'"
    by (rule clean_frame [OF inv ch]) (use cD(8,17) created_grown(4) [OF c] in \<open>auto split: if_splits\<close>)
  have cached: "live sb s' i" if "icache s' i \<noteq> None" for i
  proof -
    have "icache s i \<noteq> None \<Longrightarrow> live sb s i" using fs_invD(4) [OF inv] by blast
    then show ?thesis
      using that cached_node(1) [OF inv cD(1)] unfolding created_live(1) [OF c] cD(8)
      by (cases "i = of_nat ino"; cases "i = dir") simp_all
  qed
  have zero: "0 \<in> used_bits (disk s' (BID_IBP_MIN sb))"
    using zero_reserved [OF inv] unfolding cD(15) by (rule insertI2)
  show ?thesis
    by (rule fs_invI [OF sb changes_only_super [OF inv ch zero] _ _ _ created_nodes [OF inv c] clean
          created_dentries [OF inv c] tree_step [OF step fs_invD(8) [OF inv]]])
      (erule cached | simp only: cD(19,20) fs_invD(2,3) [OF inv])+
qed

lemma create_created:
  assumes inv: "fs_inv sb s" and dev: "device_ok E sb" and own: "owner_ok E" and may: "may_create sb s dir nm mode"
    and op: "op = yaf_create \<and> fmt = S_IFREG \<or> op = yaf_mkdir \<and> fmt = S_IFDIR"
  shows "\<exists>s' d d' v ino. op E sb dir nm mode s = Run 0 s' \<and>
    created sb s dir d nm ino (if fmt = S_IFDIR then Dir Map.empty else File []) s' d' v"
proof -
  note sb = fs_invD(1) [OF inv]
  obtain d ino where d: "icache s dir = Some d" and room: "has_room sb s d" and av: "inode_available sb s ino"
      and nm: "valid_name nm" and dc: "dcache s (dir, nm) = Some None" and db: "dblock_available sb s"
      and mode: "mode AND S_IFMT = 0"
    using may by (auto simp: may_create_def)
  note dd = dentryD [OF inv dc d] and cn = cached_node [OF inv d]
  have dinv: "dir_inv sb s d" using dd(1) cn(3) by (simp add: node_ok_def)
  have none: "dir_map sb s d nm = None" using dd(2) by simp
  have ino: "ino < BITS_PER_BLOCK" "ino \<notin> used_bits (disk s (BID_IBP_MIN sb))" "0 < ino" "ino_ok sb (of_nat ino)"
    using av alloc_run_cases(1) by (fastforce simp: inode_available_def)+
  obtain s' d' v b d'' j where r: "op E sb dir nm mode s = Run 0 s'"
      "icache s' = (icache s)(dir := Some d', of_nat ino := Some v)"
      "dir_map sb s' d' = (dir_map sb s d)(nm \<mapsto> of_nat ino)" "dir_inv sb s' d'" "i_mode d' = i_mode d"
      and v: "i_nlink v = 1" "i_size v = 0" "i_block v = replicate YAF_IBLOCKS RESERVED_DNO" "dir_inv sb s' v"
        "dir_map sb s' v = Map.empty" "i_mode v = fst (init_owner E d'' (mode OR fmt))"
      and q: "used_bits (disk s' (BID_IBP_MIN sb)) = insert ino (used_bits (disk s (BID_IBP_MIN sb)))"
        "dcache s' = (dcache s)((dir, nm) := Some (Some (of_nat ino)))" "{dir, of_nat ino} \<subseteq> idirty s'"
      and b: "j < YAF_IBLOCKS" "b = DNO2BID sb (i_block d' ! j)"
        "\<forall>a. a \<notin> {BID_IBP_MIN sb, BID_DBP_MIN sb, b} \<longrightarrow> disk s' a = disk s a"
      and g: "refs s' = refs s" "inew s' = inew s" "grown sb s d s' d'"
    using create_run [OF sb dev d dinv room nm none av db op, of mode]
    by (elim exE conjE) (rule that, assumption+)
  have ch: "\<exists>j<8. changes_only sb s s' {i_block d' ! j}"
    by (rule exI [of _ j], rule conjI [OF _ changes_onlyI]) (use b in \<open>simp, blast\<close>)
  have vt: "S_ISDIR (i_mode v) \<longleftrightarrow> fmt = S_IFDIR" using v(6) new_mode [OF own mode, of fmt] op by auto
  have okv: "node_ok sb s' v"
  proof (cases "S_ISDIR (i_mode v)")
    case False
    have "file_blocks sb s' v 0" using v(3) by (simp add: file_blocks_def)
    with False v show ?thesis by (auto simp: node_ok_def file_ok_def)
  qed (use v in \<open>simp add: node_ok_def\<close>)
  have view: "view sb s' v = (if fmt = S_IFDIR then Dir Map.empty else File [])" "held v = {}"
    using v(2,3,5) vt by (simp_all add: view_def file_data_def held_def)
  have "created sb s dir d nm ino (if fmt = S_IFDIR then Dir Map.empty else File []) s' d' v"
    unfolding created_def by (intro conjI) (fact d dd(1) none ino r(2-5) okv view q ch g)+
  with r(1) show ?thesis by blast
qed

lemma create_system:
  assumes "fs_inv sb s" and "device_ok E sb" and "owner_ok E" and "may_create sb s dir nm mode"
    and "op = yaf_create \<and> fmt = S_IFREG \<or> op = yaf_mkdir \<and> fmt = S_IFDIR"
  shows "\<exists>s' m i. op E sb dir nm mode s = Run 0 s' \<and> fs_inv sb s' \<and> afs_of sb s dir = Some (Dir m) \<and>
    m nm = None \<and> afs_of sb s (ucast i) = None \<and>
    afs_of sb s' = (afs_of sb s)(dir := Some (Dir (m(nm := Some i))),
      ucast i := Some (if fmt = S_IFDIR then Dir Map.empty else File [])) \<and>
    dcache s' (dir, nm) = Some (Some (ucast i)) \<and>
    (\<exists>x. used_bits (disk s' (BID_DBP_MIN sb)) \<subseteq> insert x (used_bits (disk s (BID_DBP_MIN sb))))"
proof -
  obtain s' d d' v ino where run: "op E sb dir nm mode s = Run 0 s'"
      and c: "created sb s dir d nm ino (if fmt = S_IFDIR then Dir Map.empty else File []) s' d' v"
    using create_created [OF assms] by blast
  have "fs_inv sb s'" by (rule created_inv [OF assms(1) c]) simp
  moreover have "dcache s' (dir, nm) = Some (Some (ucast (of_nat ino :: u32)))"
    unfolding createdD(16) [OF c] created_num(2) [OF c] by simp
  ultimately show ?thesis
    using run created_afs [OF assms(1) c] createdD(3) [OF c] created_grown(3) [OF c] by blast
qed

end
