(* ===== verification/Yaf_Steps.thy ===== *)
theory Yaf_Steps
  imports Yaf_System
begin

text \<open>
  The remaining steps of the running file system: lookup, write-back, eviction, the operations
  on files and deletion, each with the proof that it keeps the invariant and which abstract
  step it is.
\<close>

section \<open>Steps that no one sees\<close>

text \<open>A step that leaves every inode alone leaves the abstract file system alone.\<close>

lemma unseen_step:
  assumes inv: "fs_inv sb s" and same: "\<And>i. untouched sb s s' i" and bufs: "inew s' = inew s" "refs s' = refs s"
    and super: "disk s' 0 = disk s 0" "disk s' (BID_IBP_MIN sb) = disk s (BID_IBP_MIN sb)"
    and cached: "\<And>i. icache s' i \<noteq> None \<Longrightarrow> live sb s i" and clean: "clean_ok sb s'"
    and dent: "\<And>dir nm x. dcache s' (dir, nm) = Some x \<Longrightarrow> dentry_in (afs_of sb s) s' dir nm x"
  shows "fs_inv sb s'" "afs_of sb s' = afs_of sb s"
proof -
  show afs: "afs_of sb s' = afs_of sb s" by (rule ext) (rule untouched_node(1) [OF fs_invD(5) [OF inv] same])
  have "nodes_ok sb s'" by (rule nodes_update [OF fs_invD(5) [OF inv], of "{}"]) (simp_all add: same)
  moreover have "dentries_ok sb s'" unfolding dentries_ok_def afs using dent by blast
  moreover have "live sb s' i" if "icache s' i \<noteq> None" for i
    using same [of i] cached [OF that] by (simp add: untouched_def)
  moreover have "super_ok sb s'" using fs_invD(9) [OF inv] super by (simp add: super_ok_def)
  ultimately show "fs_inv sb s'"
    using bufs fs_invD(2,3) [OF inv] fs_invD(8) [OF inv]
    by (intro fs_invI [OF fs_invD(1) [OF inv] _ _ _ _ _ clean]) (simp_all add: afs)
qed

lemma same_blocks_disk:
  assumes "nodes_ok sb s" and "live sb s i" and "disk s' = disk s"
  shows "same_blocks sb s s' (node sb s i)"
  using assms node_ok_held(2) [OF nodes_okD(2) [OF assms(1,2)]] by (simp add: same_blocks_def)

text \<open>On an unchanged disk, the cores decide.\<close>

lemma untouched_disk:
  assumes "nodes_ok sb s" and "disk s' = disk s" and "live sb s i \<Longrightarrow> core (node sb s' i) = core (node sb s i)"
  shows "untouched sb s s' i"
  unfolding untouched_def
proof (intro conjI impI)
  show "live sb s' i = live sb s i" using assms(2) by (simp add: live_def)
  assume l: "live sb s i"
  show "core (node sb s' i) = core (node sb s i)" by (rule assms(3) [OF l])
  show "same_blocks sb s s' (node sb s i)" by (rule same_blocks_disk [OF assms(1) l assms(2)])
qed

lemmas node_defs = node_def disk_node_def dinode_at_def

lemma core_atime: "core (d\<lparr>i_atime := t\<rparr>) = core d"
  by (simp add: core_def)

lemma core_fill: "core (fill_inode yi w) = core (fill_inode yi w')"
  by (simp add: core_def)

lemma core_load: "core (fill_inode (dinode_at sb s i) w) = core (disk_node sb s i)"
  unfolding disk_node_def by (rule core_fill)

text \<open>
  What may happen to an inode in memory while the disk stays as it is: it stays, it is loaded, it is
  loaded again while clean, it changes in ways that do not matter and is marked dirty, or it is dropped while clean. \<open>D\<close> is the set of
  inodes marked dirty afterwards.
\<close>

inductive cache_move :: "Yaf_Sb_Info \<Rightarrow> kst \<Rightarrow> u64 set \<Rightarrow> u64 \<Rightarrow> Yaf_Inode_Info option \<Rightarrow> bool" for sb s D i where
  stays: "cache_move sb s D i (icache s i)"
| loaded: "icache s i = None \<or> i \<notin> idirty s \<Longrightarrow> live sb s i \<Longrightarrow> cache_move sb s D i (Some (fill_inode (dinode_at sb s i) w))"
| touched: "icache s i = Some v \<Longrightarrow> core w = core v \<Longrightarrow> i \<in> D \<Longrightarrow> cache_move sb s D i (Some w)"
| dropped: "icache s i = Some v \<Longrightarrow> i \<notin> idirty s \<Longrightarrow> cache_move sb s D i None"

lemma cache_move_core:
  assumes "fs_inv sb s" and "cache_move sb s D i x"
  shows "core (case x of Some v \<Rightarrow> v | None \<Rightarrow> disk_node sb s i) = core (node sb s i)"
  using assms(2) fs_invD(6) [OF assms(1)]
  by cases (auto simp: node_def clean_ok_def core_load split: option.split)

lemma cache_move_clean:
  assumes "fs_inv sb s" and "cache_move sb s D i (Some v)" and "idirty s \<subseteq> D" and "i \<notin> D"
  shows "core (disk_node sb s i) = core v"
  using assms(2) fs_invD(6) [OF assms(1)] assms(3,4)
  by cases (auto simp: clean_ok_def core_load dest: sym [of "Some v"])

lemma cache_step:
  assumes inv: "fs_inv sb s" and same: "disk s' = disk s" "refs s' = refs s" "inew s' = inew s"
    and dirty: "idirty s \<subseteq> idirty s'" and move: "\<And>i. cache_move sb s (idirty s') i (icache s' i)"
    and dent: "\<And>dir nm x. dcache s' (dir, nm) = Some x \<Longrightarrow> dentry_in (afs_of sb s) s' dir nm x"
  shows "fs_inv sb s' \<and> afs_of sb s' = afs_of sb s"
proof -
  have dn: "disk_node sb s' i = disk_node sb s i" for i using same(1) by (simp add: disk_node_def dinode_at_def)
  have "untouched sb s s' i" for i
    using cache_move_core [OF inv move, of i]
    by (intro untouched_disk [OF fs_invD(5) [OF inv] same(1)]) (simp only: node_def dn)
  moreover have "clean_ok sb s'"
    unfolding clean_ok_def dn
    by (intro allI impI cache_move_clean [OF inv _ dirty]) (use move in metis)+
  moreover have "live sb s i" if "icache s' i \<noteq> None" for i
    using move [of i] that fs_invD(4) [OF inv] by cases auto
  ultimately show ?thesis
    using unseen_step [OF inv _ same(3,2) _ _ _ _ dent] same(1) by simp
qed

text \<open>Old dentries stay right as long as no inode is dropped from memory.\<close>

lemma old_dentry:
  assumes "fs_inv sb s" and "dcache s (dir, nm) = Some x" and "\<And>i. icache s i \<noteq> None \<Longrightarrow> icache s' i \<noteq> None"
  shows "dentry_in (afs_of sb s) s' dir nm x"
  using dentries_okD [OF fs_invD(7) [OF assms(1)] assms(2)] by (rule dentry_in_mono) (simp_all add: assms(3))

text \<open>
  The kernel marks the block of a file through the page it keeps it in, which holds a reference to
  the buffer as long as it lives.
\<close>

definition mark_page_dirty :: "u64 \<Rightarrow> unit kc" where
  "mark_page_dirty b s = Run () (s\<lparr>bdirty := insert b (bdirty s)\<rparr>)"

lemma bdirty_step:
  assumes inv: "fs_inv sb s"
  shows "fs_inv sb (s\<lparr>bdirty := X\<rparr>) \<and> afs_of sb (s\<lparr>bdirty := X\<rparr>) = afs_of sb s"
  by (rule cache_step [OF inv]) (auto intro: cache_move.stays old_dentry [OF inv])

lemma mark_step:
  assumes inv: "fs_inv sb s" and s': "mark_page_dirty b s = Run () s'"
  shows "fs_inv sb s' \<and> afs_of sb s' = afs_of sb s"
  using s' bdirty_step [OF inv] by (auto simp: mark_page_dirty_def)

text \<open>Dropping a dentry.\<close>

lemma drop_dentry_step:
  assumes inv: "fs_inv sb s" and s': "s' = s\<lparr>dcache := (dcache s)(k := None)\<rparr>"
  shows "fs_inv sb s' \<and> afs_of sb s' = afs_of sb s"
  by (rule cache_step [OF inv])
    (auto simp: s' intro: cache_move.stays old_dentry [OF inv] split: if_splits)

text \<open>
  Looking up a name. If the inode of the name is in memory, it must not be dirty: \<open>yaf_iget\<close> reads
  it again from the disk.
\<close>

lemma entry_live:
  assumes inv: "fs_inv sb s" and d: "icache s dir = Some d" "S_ISDIR (i_mode d)" and e: "dir_map sb s d nm = Some i"
  shows "live sb s (ucast i)" "ino_ok sb (ucast i)" "ucast i \<noteq> dir"
proof -
  have l: "links (afs_of sb s) dir nm i"
    using cached_node(4) [OF inv d(1)] view_dir [OF d(2)] e by (simp add: links_def)
  then have "afs_of sb s (ucast i) \<noteq> None" using tree_okD(2) [OF fs_invD(8) [OF inv]] by blast
  then show lv: "live sb s (ucast i)" by (simp add: afs_of_def split: if_splits)
  show "ino_ok sb (ucast i)" by (rule nodes_okD(1) [OF fs_invD(5) [OF inv] lv])
  show "ucast i \<noteq> dir" by (rule tree_no_loop [OF fs_invD(8) [OF inv] l])
qed

lemma lookup_found:
  assumes inv: "fs_inv sb s" and dev: "device_ok E sb" and d: "icache s dir = Some d" "S_ISDIR (i_mode d)"
    and nm: "valid_name nm" and fresh: "\<And>i. dir_map sb s d nm = Some i \<Longrightarrow> icache s (ucast i) = None \<or> ucast i \<notin> idirty s"
  shows "\<exists>s' t. yaf_lookup E sb dir nm s = Run 0 s' \<and> fs_inv sb s' \<and> afs_of sb s' = afs_of sb s \<and>
    disk s' = disk s \<and> dcache s' = (dcache s)((dir, nm) := Some (map_option ucast (dir_map sb s d nm))) \<and>
    (\<forall>i. dir_map sb s d nm = Some i \<longrightarrow> icache s' (ucast i) \<noteq> None) \<and>
    (dir_map sb s d nm = None \<longrightarrow> icache s' = (icache s)(dir := Some (d\<lparr>i_atime := t\<rparr>)))"
proof -
  have wf: "dir_wf sb d" using cached_node(3) [OF inv d(1)] d(2) by (simp add: node_ok_def dir_inv_def)
  have range: "ino_ok sb (ucast i) \<and> ucast i \<notin> inew s" if "dir_map sb s d nm = Some i" for i
    using entry_live(2) [OF inv d that] fs_invD(2) [OF inv] by simp
  obtain s' w t where run: "yaf_lookup E sb dir nm s = Run 0 s'"
      and dc: "dcache s' = (dcache s)((dir, nm) := Some (map_option ucast (dir_map sb s d nm)))"
      and found: "\<forall>i. dir_map sb s d nm = Some i \<longrightarrow> icache s' (ucast i) \<noteq> None"
      and none: "dir_map sb s d nm = None \<longrightarrow> icache s' = (icache s)(dir := Some (d\<lparr>i_atime := t\<rparr>))"
      and some: "\<forall>i. dir_map sb s d nm = Some i \<longrightarrow> ucast i \<noteq> dir \<longrightarrow>
        icache s' = (icache s)(ucast i := Some (fill_inode (dinode_at sb s (ucast i)) w), dir := Some (d\<lparr>i_atime := t\<rparr>))"
      and bufs: "disk s' = disk s" "refs s' = refs s" "inew s' = inew s" and dirty: "idirty s' = insert dir (idirty s)"
    by (rule exE [OF lookup_run [OF dev wf d(1) nm]], erule range, elim exE conjE) (rule that, assumption+)
  let ?d = "d\<lparr>i_atime := t\<rparr>"
  have ne: "ucast i \<noteq> dir" if "dir_map sb s d nm = Some i" for i using entry_live(3) [OF inv d that] .
  have ic: "icache s' i = (if i = dir then Some ?d
      else if \<exists>x. dir_map sb s d nm = Some x \<and> ucast x = i then Some (fill_inode (dinode_at sb s i) w)
      else icache s i)" for i
    using none some ne by (cases "dir_map sb s d nm") auto
  have move: "cache_move sb s (idirty s') i (icache s' i)" for i
  proof (cases "i = dir")
    case True
    then show ?thesis using ic d(1) dirty cache_move.touched [OF d(1) core_atime, of "idirty s'"] by simp
  next
    case False
    then show ?thesis
      using ic [of i] entry_live(1) [OF inv d] fresh cache_move.stays [of sb s _ i] by (auto intro: cache_move.loaded)
  qed
  have dent: "dentry_in (afs_of sb s) s' dir' nm' x" if x: "dcache s' (dir', nm') = Some x" for dir' nm' x
  proof (cases "(dir', nm') = (dir, nm)")
    case True
    then have "x = map_option ucast (dir_map sb s d nm)" using x dc by simp
    then show ?thesis
      using True ic cached_node(4) [OF inv d(1)] view_dir [OF d(2)] by (auto simp: dentry_in_def)
  next
    case False
    then show ?thesis using x ic unfolding dc by (intro old_dentry [OF inv]) (simp_all split: if_splits)
  qed
  have "fs_inv sb s' \<and> afs_of sb s' = afs_of sb s"
    by (rule cache_step [OF inv bufs _ move dent]) (use dirty in blast)
  with run dc found none bufs(1) show ?thesis by (intro exI [of _ s'] exI [of _ t]) simp
qed

lemma lookup_step:
  assumes "fs_inv sb s" and "device_ok E sb" and "icache s dir = Some d" "S_ISDIR (i_mode d)"
    and "valid_name nm" and "\<And>i. dir_map sb s d nm = Some i \<Longrightarrow> icache s (ucast i) = None \<or> ucast i \<notin> idirty s"
  shows "\<exists>s'. yaf_lookup E sb dir nm s = Run 0 s' \<and> fs_inv sb s' \<and> afs_of sb s' = afs_of sb s"
  using lookup_found [OF assms] by blast

text \<open>Writing an inode back.\<close>

definition sync_inode :: "env \<Rightarrow> Yaf_Sb_Info \<Rightarrow> u64 \<Rightarrow> int kc" where
  "sync_inode E sb ino =
     bnd (yaf_write_inode E sb ino) (\<lambda>r s. Run r (if r = 0 then s\<lparr>idirty := idirty s - {ino}\<rparr> else s))"

lemma core_to_disk:
  assumes "length (i_block v) = 8" and "i_size v < 2 ^ 32"
  shows "core (fill_inode (to_disk v) w) = core v"
  using assms by (simp add: core_def to_disk_def unat_of_nat_u32)

lemma sync_step:
  assumes inv: "fs_inv sb s" and dev: "device_ok E sb" and v: "icache s ino = Some v"
  shows "\<exists>s'. sync_inode E sb ino s = Run 0 s' \<and> fs_inv sb s' \<and> afs_of sb s' = afs_of sb s \<and>
    icache s' = icache s \<and> dcache s' = dcache s \<and> idirty s' = idirty s - {ino}"
proof -
  note sb = fs_invD(1) [OF inv] and cn = cached_node [OF inv v]
  have len: "length (i_block v) = YAF_IBLOCKS" "i_size v < 2 ^ 32" using node_ok_length [OF cn(3)] by simp_all
  let ?b = "INO2BID sb ino"
  let ?s' = "s\<lparr>disk := (disk s)(?b := inode_store (INO2BOFF ino) (to_disk v) (disk s ?b)),
      bdirty := insert ?b (bdirty s), tick := Suc (tick s), idirty := idirty s - {ino}\<rparr>"
  have run: "sync_inode E sb ino s = Run 0 ?s'"
    using write_inode_run [OF _ v] device_readable(4) [OF dev cn(2)] by (simp add: sync_inode_def bnd_run)
  have dn: "disk_node sb ?s' i = (if i = ino then fill_inode (to_disk v) inode0 else disk_node sb s i)" for i
    using dinode_at_write [OF len(1), of ?s' s sb ino i] by (simp add: disk_node_def)
  have nd: "node sb ?s' i = node sb s i" for i
    using v by (simp add: node_def dn split: option.split)
  have db: "disk ?s' (DNO2BID sb x) = disk s (DNO2BID sb x)" "disk ?s' (BID_IBP_MIN sb) = disk s (BID_IBP_MIN sb)"
      "disk ?s' (BID_DBP_MIN sb) = disk s (BID_DBP_MIN sb)" "disk ?s' 0 = disk s 0" for x
  proof -
    note ne = INO2BID_sections [OF sb cn(2)]
    have "unat ?b \<noteq> unat (0 :: u64)" unfolding unat_INO2BID by simp
    then have "?b \<noteq> 0" by metis
    then show "disk ?s' 0 = disk s 0" by simp
    show "disk ?s' (DNO2BID sb x) = disk s (DNO2BID sb x)" using ne(3) [of x] by auto
    show "disk ?s' (BID_IBP_MIN sb) = disk s (BID_IBP_MIN sb)" using ne(1) by auto
    show "disk ?s' (BID_DBP_MIN sb) = disk s (BID_DBP_MIN sb)" using ne(2) by auto
  qed
  have same: "untouched sb s ?s' i" for i
    unfolding untouched_def nd same_blocks_def
    using node_ok_held(2) [OF nodes_okD(2) [OF fs_invD(5) [OF inv], of i]] db(1-3) by (simp add: live_def del: fun_upd_apply)
  have clean: "clean_ok sb ?s'"
    unfolding clean_ok_def dn using fs_invD(6) [OF inv] v core_to_disk [of v] len by (simp add: clean_ok_def)
  have dent: "dentry_in (afs_of sb s) ?s' dir nm x" if "dcache ?s' (dir, nm) = Some x" for dir nm x
    using that by (intro old_dentry [OF inv]) simp_all
  have cached: "live sb s i" if "icache ?s' i \<noteq> None" for i
    using that fs_invD(4) [OF inv] by auto
  have "fs_inv sb ?s' \<and> afs_of sb ?s' = afs_of sb s"
    using unseen_step [OF inv same _ _ _ _ cached clean dent] db(2,4) by simp
  with run show ?thesis by (intro exI [of _ ?s']) simp
qed

text \<open>Dropping a clean inode that no dentry needs.\<close>

lemma evict_step:
  assumes inv: "fs_inv sb s" and v: "icache s ino = Some v" "ino \<notin> idirty s"
    and unused: "\<And>nm. dcache s (ino, nm) = None" "\<And>k. dcache s k \<noteq> Some (Some ino)"
    and s': "s' = s\<lparr>icache := (icache s)(ino := None)\<rparr>"
  shows "fs_inv sb s' \<and> afs_of sb s' = afs_of sb s"
proof (rule cache_step [OF inv])
  show "cache_move sb s (idirty s') i (icache s' i)" for i
    using cache_move.dropped [OF v] cache_move.stays [of sb s _ i] by (simp add: s')
  show "dentry_in (afs_of sb s) s' dir nm x" if x: "dcache s' (dir, nm) = Some x" for dir nm x
  proof -
    have "dcache s (dir, nm) = Some x" using x by (simp add: s')
    moreover from this have "dir \<noteq> ino" "x \<noteq> Some ino" using unused by auto
    ultimately show ?thesis
      using dentries_okD [OF fs_invD(7) [OF inv], of dir nm x] by (auto simp: dentry_in_def s')
  qed
qed (simp_all add: s')

end
