(* ===== verification/Yaf_Change.thy ===== *)
theory Yaf_Change
  imports Yaf_Steps
begin

text \<open>
  The steps that change the file system besides creation: allocation of blocks to a file, its
  size and its data, and the removal of names.
\<close>

section \<open>Files\<close>

text \<open>
  A change of one file: its inode, the marks of its blocks and the content of blocks it held.
\<close>

lemma file_nodes:
  assumes inv: "fs_inv sb s" and v: "icache s ino = Some v" "\<not> S_ISDIR (i_mode v)"
    and ic: "icache s' = (icache s)(ino := Some v')" and md: "i_mode v' = i_mode v" and ok: "file_ok sb s' v'"
    and ch: "changes_only sb s s' Y" "Y \<subseteq> held v"
    and lv: "\<And>i. live sb s' i = live sb s i"
    and dbp: "used_bits (disk s (BID_DBP_MIN sb)) \<subseteq> used_bits (disk s' (BID_DBP_MIN sb))"
    and fresh: "\<And>x. x \<in> held v' \<Longrightarrow> x \<in> held v \<or> unat x \<notin> used_bits (disk s (BID_DBP_MIN sb))"
  shows "nodes_ok sb s'" and "afs_of sb s' = (afs_of sb s)(ino := Some (File (file_data sb s' v')))"
proof -
  note sb = fs_invD(1) [OF inv] and nodes = fs_invD(5) [OF inv] and cn = cached_node [OF inv v(1)]
  have apart: "held v \<inter> held (node sb s i) = {}" if "live sb s i" "i \<noteq> ino" for i
    using nodes_okD(3) [OF nodes cn(1) that(1)] node_cached [OF v(1)] that(2) by simp
  have same: "untouched sb s s' i" if "i \<notin> {ino}" for i
  proof (rule untouchedI [OF nodes sb lv _ ch(1)])
    show "icache s' i = icache s i" using ic that by simp
    show "held (node sb s i) \<inter> Y = {}" if "live sb s i"
      using apart [OF that] \<open>i \<notin> {ino}\<close> ch(2) by blast
    show "unat x \<in> used_bits (disk s' (BID_DBP_MIN sb))" if "live sb s i" "x \<in> held (node sb s i)" for x
      using dbp node_ok_held(2) [OF nodes_okD(2) [OF nodes that(1)] that(2)] by blast
  qed
  have nd: "node sb s' ino = v'" using ic by (simp add: node_def)
  show "nodes_ok sb s'"
  proof (rule nodes_update [OF nodes same])
    show "ino_ok sb i \<and> node_ok sb s' (node sb s' i)" if "i \<in> {ino}" for i
      using that nd ok cn(2) md v(2) by (simp add: node_ok_def)
    show "held (node sb s' i) \<inter> held (node sb s k) = {}" if "i \<in> {ino}" "k \<notin> {ino}" "live sb s k" for i k
    proof -
      have "x \<notin> held (node sb s k)" if "x \<in> held v'" for x
        using fresh [OF that] apart [OF \<open>live sb s k\<close>] \<open>k \<notin> {ino}\<close>
          node_ok_held(2) [OF nodes_okD(2) [OF nodes \<open>live sb s k\<close>]] by blast
      then show ?thesis using that(1) nd by auto
    qed
  qed auto
  show "afs_of sb s' = (afs_of sb s)(ino := Some (File (file_data sb s' v')))"
  proof
    fix i
    show "afs_of sb s' i = ((afs_of sb s)(ino := Some (File (file_data sb s' v')))) i"
      using untouched_node(1) [OF nodes same, of i] cn(1) lv nd md v(2)
      by (cases "i = ino") (simp_all add: afs_of_def view_def)
  qed
qed

text \<open>Dentries only depend on the directories.\<close>

lemma file_dentries:
  assumes inv: "fs_inv sb s" and at: "afs_of sb s ino = Some (File b)" and afs: "afs_of sb s' = (afs_of sb s)(ino := Some nd)"
    and same: "dcache s' = dcache s" and ic: "\<And>i. icache s i \<noteq> None \<Longrightarrow> icache s' i \<noteq> None"
  shows "dentries_ok sb s'"
  unfolding dentries_ok_def same
proof (intro allI impI)
  fix dir nm x assume "dcache s (dir, nm) = Some x"
  with fs_invD(7) [OF inv] have "dentry_in (afs_of sb s) s dir nm x" by (rule dentries_okD)
  then show "dentry_in (afs_of sb s') s' dir nm x"
  proof (rule dentry_in_mono)
    fix m assume "afs_of sb s dir = Some (Dir m)"
    moreover from this at have "dir \<noteq> ino" by auto
    ultimately show "\<exists>m'. afs_of sb s' dir = Some (Dir m') \<and> m' nm = m nm" unfolding afs by simp
  qed (simp add: ic)
qed

lemma file_step:
  assumes inv: "fs_inv sb s" and v: "icache s ino = Some v" "\<not> S_ISDIR (i_mode v)"
    and ic: "icache s' = (icache s)(ino := Some v')" and md: "i_mode v' = i_mode v" and ok: "file_ok sb s' v'"
    and ch: "changes_only sb s s' Y" "Y \<subseteq> held v"
    and ibp: "disk s' (BID_IBP_MIN sb) = disk s (BID_IBP_MIN sb)"
    and dbp: "used_bits (disk s (BID_DBP_MIN sb)) \<subseteq> used_bits (disk s' (BID_DBP_MIN sb))"
    and fresh: "\<And>x. x \<in> held v' \<Longrightarrow> x \<in> held v \<or> unat x \<notin> used_bits (disk s (BID_DBP_MIN sb))"
    and dirty: "idirty s \<subseteq> idirty s'" "ino \<in> idirty s' \<or> v' = v"
    and rest: "inew s' = inew s" "refs s' = refs s" "dcache s' = dcache s"
  shows "fs_inv sb s' \<and> afs_of sb s' = (afs_of sb s)(ino := Some (File (file_data sb s' v')))"
proof -
  note sb = fs_invD(1) [OF inv] and cn = cached_node [OF inv v(1)]
  have lv: "live sb s' i = live sb s i" for i using ibp by (simp add: live_def)
  have new: "nodes_ok sb s'" "afs_of sb s' = (afs_of sb s)(ino := Some (File (file_data sb s' v')))"
    by (rule file_nodes [OF inv v ic md ok ch lv dbp], erule fresh)+
  have at: "afs_of sb s ino = Some (File (file_data sb s v))" using cn(4) v(2) by (simp add: view_def)
  have step: "a_step (afs_of sb s) (afs_of sb s')" unfolding new(2) using at by (rule a_write)
  have clean: "clean_ok sb s'"
  proof (rule clean_frame [OF inv ch(1)])
    fix i w assume "icache s' i = Some w" "i \<notin> idirty s'"
    then show "icache s i = Some w \<and> i \<notin> idirty s" using ic dirty v(1) by (cases "i = ino") auto
  qed
  have dent: "dentries_ok sb s'"
    by (rule file_dentries [OF inv at new(2) rest(3)]) (simp add: ic)
  have cached: "live sb s' i" if "icache s' i \<noteq> None" for i
    using that cn(1) fs_invD(4) [OF inv, of i] unfolding lv ic by (cases "i = ino") auto
  have zero: "0 \<in> used_bits (disk s' (BID_IBP_MIN sb))" using zero_reserved [OF inv] unfolding ibp .
  have "fs_inv sb s'"
    by (rule fs_invI [OF sb changes_only_super [OF inv ch(1) zero] _ _ _ new(1) clean dent tree_step [OF step fs_invD(8) [OF inv]]])
      (erule cached | simp only: rest fs_invD(2,3) [OF inv])+
  with new(2) show ?thesis by blast
qed

text \<open>\<open>yaf_get_block\<close> with \<open>create\<close>, when there are blocks enough.\<close>

text \<open>The blocks of an extended file are its old ones and ones that were free.\<close>

lemma extended_held:
  assumes fb: "file_blocks sb s v n" and ext: "extended sb ino s v s' ib n m"
    and fb': "file_blocks sb s' (v\<lparr>i_block := ib\<rparr>) (Suc m)" and x: "x \<in> held (v\<lparr>i_block := ib\<rparr>)"
  shows "x \<in> held v \<or> unat x \<notin> used_bits (disk s (BID_DBP_MIN sb))"
proof -
  have "x \<in> (\<lambda>j. ib ! j) ` {..<Suc m}" using x held_file [OF fb'] by simp
  then obtain j where j: "j < Suc m" "x = ib ! j" by blast
  show ?thesis
  proof (cases "j < n")
    case True
    then have "ib ! j = i_block v ! j" using ext unfolding extended_def by blast
    then show ?thesis using True j(2) held_file [OF fb] by auto
  next
    case False
    then have "unat (ib ! j) \<in> free_dblocks sb s" using ext j(1) unfolding extended_def by auto
    then show ?thesis using j(2) by (simp add: free_dblocks_def)
  qed
qed

lemma get_block_step:
  assumes inv: "fs_inv sb s" and dev: "device_ok E sb" and v: "icache s ino = Some v" "\<not> S_ISDIR (i_mode v)"
    and blk: "unat blk < YAF_IBLOCKS"
    and free: "Suc (unat blk) - used_blocks (i_block v) 0 \<le> card (free_dblocks sb s)"
  shows "\<exists>s' v'. yaf_get_block E sb ino blk True s = Run (0, Some (DNO2BID sb (i_block v' ! unat blk))) s' \<and>
    fs_inv sb s' \<and> afs_of sb s' = afs_of sb s \<and> icache s' ino = Some v' \<and> i_mode v' = i_mode v \<and>
    i_size v' = i_size v \<and> unat blk < used_blocks (i_block v') 0 \<and>
    (\<forall>x. disk s' (DNO2BID sb x) = disk s (DNO2BID sb x))"
proof -
  note sb = fs_invD(1) [OF inv] and cn = cached_node [OF inv v(1)]
  have at: "(afs_of sb s)(ino := Some (File (file_data sb s v))) = afs_of sb s"
    using cn(4) v(2) by (simp add: view_def fun_upd_idem)
  obtain n where fb: "file_blocks sb s v n" and sz: "i_size v \<le> 4096 * n" "i_nlink v = 1"
    using cn(3) v(2) by (auto simp: node_ok_def file_ok_def)
  show ?thesis
  proof (cases "unat blk < n")
    case True
    then show ?thesis
      using get_block_present [OF fb v(1) True] inv v(1) file_blocks_count [OF fb]
      by (intro exI [of _ s] exI [of _ v]) simp
  next
    case False
    have ok: "\<forall>t. bread_ok E t (BID_DBP_MIN sb)" using device_readable(2) [OF dev sb] by blast
    have b: "unat blk < 8" "n \<le> unat blk" using blk False by simp_all
    obtain s' ib where run: "yaf_get_block E sb ino blk True s = Run (0, Some (DNO2BID sb (ib ! unat blk))) s'"
        and ext: "extended sb ino s v s' ib n (unat blk)" and d: "ino \<in> idirty s'"
      using get_block_create [OF sb ok fb v(1) b] free file_blocks_count [OF fb] by auto
    let ?v = "v\<lparr>i_block := ib\<rparr>" and ?u = "used_bits (disk s (BID_DBP_MIN sb))"
    have e: "icache s' = (icache s)(ino := Some ?v)" "\<And>j. j < n \<or> unat blk < j \<Longrightarrow> ib ! j = i_block v ! j"
        "\<And>j. j \<in> {n..unat blk} \<Longrightarrow> unat (ib ! j) \<in> free_dblocks sb s" "?u \<subseteq> used_bits (disk s' (BID_DBP_MIN sb))"
        "\<And>a. a \<noteq> BID_DBP_MIN sb \<Longrightarrow> disk s' a = disk s a" "refs s' = refs s" "inew s' = inew s"
        "dcache s' = dcache s" "idirty s \<subseteq> idirty s'"
      using ext unfolding extended_def by auto
    have fb': "file_blocks sb s' ?v (Suc (unat blk))" by (rule extended_file_blocks [OF fb ext b(2,1)])
    have data: "file_data sb s' ?v = file_data sb s v"
      using e(2,5) sb by (intro file_data_eq [OF fb sz(1)]) simp_all
    have "fs_inv sb s' \<and> afs_of sb s' = (afs_of sb s)(ino := Some (File (file_data sb s' ?v)))"
    proof (rule file_step [OF inv v e(1) _ _ _ _ _ e(4) extended_held [OF fb ext fb'] e(9) _ e(7,6,8)])
      show "file_ok sb s' ?v"
        unfolding file_ok_def using fb' sz b(2) by (intro conjI exI [of _ "Suc (unat blk)"]) simp_all
      show "changes_only sb s s' {}" using e(5) by (simp add: changes_only_def)
      show "disk s' (BID_IBP_MIN sb) = disk s (BID_IBP_MIN sb)" using e(5) sb by simp
    qed (use d in simp_all)
    then show ?thesis
      using run at e(1,5) file_blocks_count [OF fb'] sb unfolding data
      by (intro exI [of _ s'] exI [of _ ?v]) simp
  qed
qed

text \<open>
  The kernel sets the size of a file after a write into its blocks. Bytes beyond the old size
  are what the blocks hold there.
\<close>

definition set_size :: "u64 \<Rightarrow> nat \<Rightarrow> unit kc" where
  "set_size ino sz = bnd (upd_inode ino (\<lambda>v. v\<lparr>i_size := sz\<rparr>)) (\<lambda>_. mark_inode_dirty ino)"

lemma set_size_step:
  assumes inv: "fs_inv sb s" and v: "icache s ino = Some v" "\<not> S_ISDIR (i_mode v)"
    and sz: "sz \<le> YAF_BLOCK_SIZE * used_blocks (i_block v) 0"
  shows "\<exists>s'. set_size ino sz s = Run () s' \<and> fs_inv sb s' \<and> 
    (\<exists>d'. length d' = sz \<and> take (i_size v) d' = take sz (file_data sb s v) \<and>
      afs_of sb s' = (afs_of sb s)(ino := Some (File d')))"
proof -
  let ?v = "v\<lparr>i_size := sz\<rparr>"
  let ?s' = "s\<lparr>icache := (icache s)(ino := Some ?v), idirty := insert ino (idirty s)\<rparr>"
  obtain n where fb: "file_blocks sb s v n" "i_nlink v = 1"
    using cached_node(3) [OF inv v(1)] v(2) by (auto simp: node_ok_def file_ok_def)
  have "file_blocks sb ?s' ?v n" using fb(1) by (simp add: file_blocks_def)
  then have ok: "file_ok sb ?s' ?v"
    unfolding file_ok_def using sz fb file_blocks_count [OF fb(1)] by (intro conjI exI [of _ n]) simp_all
  have "fs_inv sb ?s' \<and> afs_of sb ?s' = (afs_of sb s)(ino := Some (File (file_data sb ?s' ?v)))"
  proof (rule file_step [OF inv v _ _ ok])
    show "changes_only sb s ?s' {}" by (simp add: changes_only_def)
    show "x \<in> held v \<or> unat x \<notin> used_bits (disk s (BID_DBP_MIN sb))" if "x \<in> held ?v" for x
      using that by (simp add: held_def)
  qed auto
  moreover have "set_size ino sz s = Run () ?s'" using v(1) by (simp add: set_size_def yaf_exec)
  moreover have "take (i_size v) (file_data sb ?s' ?v) = take sz (file_data sb s v)"
    by (intro nth_equalityI) (auto simp: file_data_def)
  moreover have "length (file_data sb ?s' ?v) = sz" by (simp add: file_data_def)
  ultimately show ?thesis by blast
qed

text \<open>The kernel stores file data in a block of the file.\<close>

definition put_block :: "nat \<Rightarrow> block \<Rightarrow> byte list \<Rightarrow> byte list" where
  "put_block j blk d = map (\<lambda>k. if k div YAF_BLOCK_SIZE = j then blk (k mod YAF_BLOCK_SIZE) else d ! k) [0..<length d]"

lemma data_step:
  assumes inv: "fs_inv sb s" and v: "icache s ino = Some v" "\<not> S_ISDIR (i_mode v)"
    and j: "j < used_blocks (i_block v) 0" and s': "set_b_data (DNO2BID sb (i_block v ! j)) blk s = Run () s'"
  shows "fs_inv sb s' \<and> afs_of sb s' = (afs_of sb s)(ino := Some (File (put_block j blk (file_data sb s v))))"
proof -
  note sb = fs_invD(1) [OF inv]
  have eq: "s' = s\<lparr>disk := (disk s)(DNO2BID sb (i_block v ! j) := blk)\<rparr>" using s' by (simp add: kernel_run)
  obtain n where fb: "file_blocks sb s v n" "i_size v \<le> 4096 * n" "i_nlink v = 1"
    using cached_node(3) [OF inv v(1)] v(2) by (auto simp: node_ok_def file_ok_def)
  have h: "i_block v ! j \<in> held v" using j file_blocks_count [OF fb(1)] held_file [OF fb(1)] by auto
  have same: "disk s' (BID_DBP_MIN sb) = disk s (BID_DBP_MIN sb)" "disk s' (BID_IBP_MIN sb) = disk s (BID_IBP_MIN sb)"
    using sb by (simp_all add: eq)
  have "file_data sb s' v = put_block j blk (file_data sb s v)"
  proof (rule nth_equalityI)
    fix k assume "k < length (file_data sb s' v)"
    then have k: "k < i_size v" by (simp add: file_data_def)
    then have "k div 4096 < n" using fb(2) by (simp add: less_mult_imp_div_less)
    moreover have "j < n" using j file_blocks_count [OF fb(1)] by simp
    ultimately have "i_block v ! (k div 4096) = i_block v ! j \<longleftrightarrow> k div 4096 = j"
      using fb(1) by (auto simp: file_blocks_def inj_on_def)
    then show "file_data sb s' v ! k = put_block j blk (file_data sb s v) ! k"
      using k by (simp add: file_data_def put_block_def eq)
  qed (simp add: file_data_def put_block_def)
  moreover have "fs_inv sb s' \<and> afs_of sb s' = (afs_of sb s)(ino := Some (File (file_data sb s' v)))"
  proof (rule file_step [OF inv v])
    show "icache s' = (icache s)(ino := Some v)" using v(1) by (simp add: eq fun_upd_idem)
    show "file_ok sb s' v" using fb same by (auto simp: file_ok_def file_blocks_def)
    show "changes_only sb s s' {i_block v ! j}" by (simp add: changes_only_def eq)
    show "{i_block v ! j} \<subseteq> held v" using h by simp
  qed (use same in \<open>simp_all add: eq\<close>)
  ultimately show ?thesis by simp
qed

section \<open>Removal\<close>

lemma node_dblocks:
  assumes "node_ok sb s v"
  shows "owns_dblocks sb s v" "dblocks_from 0 v \<subseteq> unat ` held v"
proof -
  have len: "length (i_block v) = 8" "i_size v \<le> 32768" using node_ok_length [OF assms] by simp_all
  have "\<exists>U. (\<forall>j<8. 4096 * j < i_size v \<longrightarrow> j \<in> U) \<and> inj_on (\<lambda>j. i_block v ! j) U \<and> (\<lambda>j. i_block v ! j) ` U = held v"
  proof (cases "S_ISDIR (i_mode v)")
    case True
    then have wf: "dir_wf sb v" using assms by (simp add: node_ok_def dir_inv_def)
    let ?U = "{j. j < 8 \<and> 128 * j < nslots v}"
    have "inj_on (\<lambda>j. i_block v ! j) ?U" by (rule inj_onI) (use dir_wfD(6) [OF wf] in blast)
    moreover have "(\<lambda>j. i_block v ! j) ` ?U = held v" using held_dir [OF wf] by auto
    moreover have "\<forall>j<8. 4096 * j < i_size v \<longrightarrow> j \<in> ?U" using dir_wfD(1) [OF wf] by simp
    ultimately show ?thesis by blast
  next
    case False
    then obtain n where fb: "file_blocks sb s v n" "i_size v \<le> 4096 * n"
      using assms by (auto simp: node_ok_def file_ok_def)
    have "inj_on (\<lambda>j. i_block v ! j) {..<n}" using fb(1) by (simp add: file_blocks_def)
    moreover have "\<forall>j<8. 4096 * j < i_size v \<longrightarrow> j \<in> {..<n}" using fb(2) by auto
    ultimately show ?thesis using held_file [OF fb(1)] by metis
  qed
  then obtain U where U: "\<And>j. j < 8 \<Longrightarrow> 4096 * j < i_size v \<Longrightarrow> j \<in> U" "inj_on (\<lambda>j. i_block v ! j) U"
      "(\<lambda>j. i_block v ! j) ` U = held v" by blast
  have h: "i_block v ! j \<in> held v" if "4096 * j < i_size v" for j
  proof -
    have "j < 8" using that len(2) by simp
    then show ?thesis using U(1) [OF _ that] U(3) by blast
  qed
  have "i = j" if "i < 8" "j < 8" "4096 * i < i_size v" "4096 * j < i_size v" "i_block v ! i = i_block v ! j" for i j
    using inj_onD [OF U(2) that(5)] U(1) that by blast
  then show "owns_dblocks sb s v"
    using len h node_ok_held(2) [OF assms] by (simp add: owns_dblocks_def)
  show "dblocks_from 0 v \<subseteq> unat ` held v" using h by (auto simp: dblocks_from_def)
qed

lemma dir_inv_disk: "disk s' = disk s \<Longrightarrow> dir_inv sb s' d = dir_inv sb s d"
proof -
  assume "disk s' = disk s"
  moreover from this have "dslot sb s' d = dslot sb s d" by (intro ext) (simp add: dslot_def)
  ultimately show ?thesis by (simp add: dir_inv_def blocks_marked_def)
qed

text \<open>
  After a removal the kernel turns the dentry into a negative one, drops the dentries below the
  inode, and drops the inode, which has no link left.
\<close>

definition forget :: "u64 \<Rightarrow> name \<Rightarrow> u64 \<Rightarrow> kst \<Rightarrow> kst" where
  "forget dir nm ino s = s\<lparr>icache := (icache s)(ino := None), idirty := idirty s - {ino},
     dcache := (\<lambda>k. if fst k = ino then None else if k = (dir, nm) then Some None else dcache s k)\<rparr>"

lemma forget_simps [simp]:
  "disk (forget dir nm ino s) = disk s" "refs (forget dir nm ino s) = refs s"
  "inew (forget dir nm ino s) = inew s" "icache (forget dir nm ino s) = (icache s)(ino := None)"
  "idirty (forget dir nm ino s) = idirty s - {ino}"
  by (simp_all add: forget_def)

text \<open>
  What a removal leaves behind once the kernel has forgotten the inode: the changed directory
  \<open>d'\<close>, the marks without those of the inode \<open>ino\<close> and its blocks, and the rest as it was.
\<close>

definition removed ::
  "Yaf_Sb_Info \<Rightarrow> kst \<Rightarrow> u64 \<Rightarrow> Yaf_Inode_Info \<Rightarrow> name \<Rightarrow> u32 \<Rightarrow> u64 \<Rightarrow> Yaf_Inode_Info \<Rightarrow> kst \<Rightarrow> Yaf_Inode_Info \<Rightarrow> bool" where
  "removed sb s dir d nm i ino v s' d' \<longleftrightarrow>
     icache s dir = Some d \<and> S_ISDIR (i_mode d) \<and> icache s ino = Some v \<and>
     dir_map sb s d nm = Some i \<and> ucast i = ino \<and> ino \<noteq> dir \<and>
     (view sb s v = Dir Map.empty \<or> (\<exists>n. view sb s v = File n)) \<and>
     icache s' = (icache s)(dir := Some d', ino := None) \<and> dir_map sb s' d' = (dir_map sb s d)(nm := None) \<and>
     node_ok sb s' d' \<and> i_mode d' = i_mode d \<and> held d' = held d \<and>
     used_bits (disk s' (BID_IBP_MIN sb)) = used_bits (disk s (BID_IBP_MIN sb)) - {unat ino} \<and>
     used_bits (disk s (BID_DBP_MIN sb)) \<subseteq> used_bits (disk s' (BID_DBP_MIN sb)) \<union> unat ` held v \<and>
     refs s' = refs s \<and> inew s' = inew s \<and> dir \<in> idirty s' \<and> idirty s - {ino} \<subseteq> idirty s' \<and>
     (\<exists>x. x \<notin> \<Union> (held ` node sb s ` ({k. live sb s k} - {dir})) \<and> changes_only sb s s' {x}) \<and>
     dcache s' = (\<lambda>k. if fst k = ino then None else if k = (dir, nm) then Some None else dcache s k)"

lemma removedD:
  assumes "removed sb s dir d nm i ino v s' d'"
  shows "icache s dir = Some d" "S_ISDIR (i_mode d)" "icache s ino = Some v"
    "dir_map sb s d nm = Some i" "ucast i = ino" "ino \<noteq> dir"
    "view sb s v = Dir Map.empty \<or> (\<exists>n. view sb s v = File n)"
    "icache s' = (icache s)(dir := Some d', ino := None)" "dir_map sb s' d' = (dir_map sb s d)(nm := None)"
    "node_ok sb s' d'" "i_mode d' = i_mode d" "held d' = held d"
    "used_bits (disk s' (BID_IBP_MIN sb)) = used_bits (disk s (BID_IBP_MIN sb)) - {unat ino}"
    "used_bits (disk s (BID_DBP_MIN sb)) \<subseteq> used_bits (disk s' (BID_DBP_MIN sb)) \<union> unat ` held v"
    "refs s' = refs s" "inew s' = inew s" "dir \<in> idirty s'" "idirty s - {ino} \<subseteq> idirty s'"
    "\<exists>x. x \<notin> \<Union> (held ` node sb s ` ({k. live sb s k} - {dir})) \<and> changes_only sb s s' {x}"
    "dcache s' = (\<lambda>k. if fst k = ino then None else if k = (dir, nm) then Some None else dcache s k)"
  using assms [unfolded removed_def] by - (elim conjE, assumption)+

lemma removed_live:
  "removed sb s dir d nm i ino v s' d' \<Longrightarrow> live sb s' k \<longleftrightarrow> live sb s k \<and> k \<noteq> ino"
proof -
  assume r: "removed sb s dir d nm i ino v s' d'"
  have "unat k = unat ino \<longleftrightarrow> k = ino" by (metis word_unatI)
  then show ?thesis using removedD(13) [OF r] by (auto simp: live_def)
qed

text \<open>The blocks of every other inode stay marked.\<close>

lemma removed_marks:
  assumes inv: "fs_inv sb s" and r: "removed sb s dir d nm i ino v s' d'"
    and k: "live sb s k" "k \<noteq> ino" "x \<in> held (node sb s k)"
  shows "unat x \<in> used_bits (disk s' (BID_DBP_MIN sb))"
proof -
  note nodes = fs_invD(5) [OF inv] and v = removedD(3) [OF r]
  have "held v \<inter> held (node sb s k) = {}"
    using nodes_okD(3) [OF nodes cached_node(1) [OF inv v] k(1)] node_cached [OF v] k(2) by simp
  then have "unat x \<notin> unat ` held v" using k(3) by (auto dest!: word_unatI)
  then show ?thesis using removedD(14) [OF r] node_ok_held(2) [OF nodes_okD(2) [OF nodes k(1)] k(3)] by blast
qed

lemma removed_untouched:
  assumes inv: "fs_inv sb s" and r: "removed sb s dir d nm i ino v s' d'" and k: "k \<notin> {dir, ino}"
  shows "untouched sb s s' k"
proof -
  obtain x where x: "x \<notin> \<Union> (held ` node sb s ` ({k. live sb s k} - {dir}))" and ch: "changes_only sb s s' {x}"
    using removedD(19) [OF r] by blast
  show ?thesis
  proof (rule untouchedI [OF fs_invD(5) [OF inv] fs_invD(1) [OF inv] _ _ ch])
    show "live sb s' k = live sb s k" using removed_live [OF r] k by simp
    show "icache s' k = icache s k" using removedD(8) [OF r] k by simp
    show "held (node sb s k) \<inter> {x} = {}" if "live sb s k" using x k that by blast
    show "unat y \<in> used_bits (disk s' (BID_DBP_MIN sb))" if "live sb s k" "y \<in> held (node sb s k)" for y
      using removed_marks [OF inv r that(1) _ that(2)] k by simp
  qed
qed

lemma removed_nodes:
  assumes inv: "fs_inv sb s" and r: "removed sb s dir d nm i ino v s' d'"
  shows "nodes_ok sb s'" "node sb s' dir = d'"
proof -
  note rD = removedD [OF r]
  show nd: "node sb s' dir = d'" using rD(6,8) by (simp add: node_def)
  have C: "k = dir" if "k \<in> {dir, ino}" "live sb s' k" for k using that removed_live [OF r] by auto
  have apart: "held d \<inter> held (node sb s k) = {}" if "live sb s k" "k \<noteq> dir" for k
    using nodes_okD(3) [OF fs_invD(5) [OF inv] cached_node(1) [OF inv rD(1)] that(1)] node_cached [OF rD(1)] that(2)
    by simp
  show "nodes_ok sb s'"
  proof (rule nodes_update [OF fs_invD(5) [OF inv] removed_untouched [OF inv r]])
    fix k assume k: "k \<in> {dir, ino}" "live sb s' k"
    show "ino_ok sb k \<and> node_ok sb s' (node sb s' k)"
      unfolding C [OF k] nd using rD(10) cached_node(2) [OF inv rD(1)] by simp
    fix l assume "l \<notin> {dir, ino}" "live sb s l"
    then show "held (node sb s' k) \<inter> held (node sb s l) = {}"
      unfolding C [OF k] nd rD(12) using apart by simp
  next
    fix k l assume "k \<in> {dir, ino}" "l \<in> {dir, ino}" "live sb s' k" "live sb s' l" "k \<noteq> l"
    then show "held (node sb s' k) \<inter> held (node sb s' l) = {}" using C by blast
  qed
qed

lemma removed_afs:
  assumes inv: "fs_inv sb s" and r: "removed sb s dir d nm i ino v s' d'"
  shows "afs_of sb s' = (afs_of sb s)(dir := Some (Dir ((dir_map sb s d)(nm := None))), ucast i := None)" (is "_ = ?a")
    "afs_of sb s dir = Some (Dir (dir_map sb s d))" "afs_of sb s ino = Some (view sb s v)"
proof -
  note rD = removedD [OF r]
  show "afs_of sb s' = ?a"
  proof
    fix k
    show "afs_of sb s' k = ?a k"
      using untouched_node(1) [OF fs_invD(5) [OF inv] removed_untouched [OF inv r], of k] removed_live [OF r, of k]
        removed_nodes(2) [OF inv r] rD(2,5,6,9,11) cached_node(1) [OF inv rD(1)]
      by (cases "k \<in> {dir, ino}") (auto simp: afs_of_def view_def)
  qed
  show "afs_of sb s dir = Some (Dir (dir_map sb s d))" using cached_node(4) [OF inv rD(1)] rD(2) by (simp add: view_def)
  show "afs_of sb s ino = Some (view sb s v)" by (rule cached_node(4) [OF inv rD(3)])
qed

lemma removed_dentries:
  assumes inv: "fs_inv sb s" and r: "removed sb s dir d nm i ino v s' d'"
  shows "dentries_ok sb s'"
  unfolding dentries_ok_def
proof (intro allI impI)
  note rD = removedD [OF r] and afs = removed_afs [OF inv r]
  fix d2 n2 x assume x: "dcache s' (d2, n2) = Some x"
  then have ne2: "d2 \<noteq> ino" unfolding rD(20) by (auto split: if_splits)
  show "dentry_in (afs_of sb s') s' d2 n2 x"
  proof (cases "(d2, n2) = (dir, nm)")
    case True
    then have "x = None" using x ne2 unfolding rD(20) by simp
    then show ?thesis using True afs(1) rD(5,6,8) by (simp add: dentry_in_def)
  next
    case False
    then have "dcache s (d2, n2) = Some x" using x ne2 unfolding rD(20) by (auto split: if_splits)
    then have din: "dentry_in (afs_of sb s) s d2 n2 x" by (rule dentries_okD [OF fs_invD(7) [OF inv]])
    obtain m where m: "afs_of sb s d2 = Some (Dir m)" "map_option ucast (m n2) = x"
      using dentry_inD(2) [OF din] by blast
    have nx: "x \<noteq> Some ino"
    proof
      assume "x = Some ino"
      with m(2) rD(5) have "m n2 = Some i" by auto
      with m(1) have "links (afs_of sb s) d2 n2 i" by (simp add: links_def)
      moreover have "links (afs_of sb s) dir nm i" using afs(2) rD(4) by (simp add: links_def)
      ultimately show False using tree_okD(4) [OF fs_invD(8) [OF inv]] False by blast
    qed
    have "\<exists>m. afs_of sb s' d2 = Some (Dir m) \<and> map_option ucast (m n2) = x"
    proof (cases "d2 = dir")
      case True
      then have "n2 \<noteq> nm" "m = dir_map sb s d" using False m(1) afs(2) by simp_all
      then show ?thesis unfolding afs(1) using True rD(5,6) m(2) by simp
    next
      case False
      then show ?thesis unfolding afs(1) using ne2 rD(5) m by simp
    qed
    moreover have "icache s' d2 \<noteq> None" using dentry_inD(1) [OF din] ne2 unfolding rD(8) by simp
    moreover have "icache s' k \<noteq> None" if "x = Some k" for k
      using dentry_inD(3) [OF din that] nx that unfolding rD(8) by auto
    ultimately show ?thesis by (simp add: dentry_in_def)
  qed
qed

text \<open>Removal keeps the invariant and is a step of the abstract file system.\<close>

lemma removed_inv:
  assumes inv: "fs_inv sb s" and r: "removed sb s dir d nm i ino v s' d'"
  shows "fs_inv sb s'"
proof -
  note rD = removedD [OF r] and afs = removed_afs [OF inv r]
  obtain x where ch: "changes_only sb s s' {x}" using rD(19) by blast
  have "afs_of sb s (ucast i) = Some (Dir Map.empty) \<or> (\<exists>n. afs_of sb s (ucast i) = Some (File n))"
    using afs(3) rD(5,7) by simp
  then have step: "a_step (afs_of sb s) (afs_of sb s')"
    unfolding afs(1) using afs(2) rD(4) by (intro a_remove)
  have clean: "clean_ok sb s'"
    by (rule clean_frame [OF inv ch]) (use rD(8,17,18) in \<open>auto split: if_splits\<close>)
  have cached: "live sb s' k" if "icache s' k \<noteq> None" for k
    using that cached_node(1) [OF inv rD(1)] fs_invD(4) [OF inv, of k] rD(6,8) unfolding removed_live [OF r]
    by (cases "k = dir") (auto split: if_splits)
  have zero: "0 \<in> used_bits (disk s' (BID_IBP_MIN sb))"
    using zero_reserved [OF inv] cached_node(1) [OF inv rD(3)] by (simp add: rD(13) live_def)
  show ?thesis
    by (rule fs_invI [OF fs_invD(1) [OF inv] changes_only_super [OF inv ch zero] _ _ _ removed_nodes(1) [OF inv r] clean
          removed_dentries [OF inv r] tree_step [OF step fs_invD(8) [OF inv]]])
      (erule cached | simp only: rD(15,16) fs_invD(2,3) [OF inv])+
qed

text \<open>An inode that may be removed is a leaf of the tree and has one link.\<close>

lemma removable:
  assumes ok: "node_ok sb s v" and leaf: "S_ISDIR (i_mode v) \<Longrightarrow> i_nlink v \<le> 1"
  shows "i_nlink v = 1" "view sb s v = Dir Map.empty \<or> (\<exists>n. view sb s v = File n)"
proof -
  show nl: "i_nlink v = 1"
  proof (cases "S_ISDIR (i_mode v)")
    case True
    then have "unat (i_nlink v) = Suc (live_count (dslot sb s v) (nslots v))" "i_nlink v \<le> 1"
      using ok leaf by (auto simp: node_ok_def dir_inv_def)
    then have "unat (i_nlink v) = 1" by (simp add: word_le_nat_alt)
    then show ?thesis by (metis unat_1 word_unatI)
  next
    case False
    then show ?thesis using ok by (simp add: node_ok_def file_ok_def)
  qed
  show "view sb s v = Dir Map.empty \<or> (\<exists>n. view sb s v = File n)"
  proof (cases "S_ISDIR (i_mode v)")
    case True
    then have "live_count (dslot sb s v) (nslots v) = 0" using ok nl by (simp add: node_ok_def dir_inv_def)
    then have "dir_map sb s v = Map.empty" unfolding dir_map_def entry_map_empty .
    with True show ?thesis by (simp add: view_def)
  qed (simp add: view_def)
qed

text \<open>A block of a directory is no block of another inode.\<close>

lemma foreign_block:
  assumes inv: "fs_inv sb s" and d: "icache s dir = Some d" and j: "j < YAF_IBLOCKS"
  shows "i_block d ! j \<notin> \<Union> (held ` node sb s ` ({k. live sb s k} - {dir}))"
proof -
  note cn = cached_node [OF inv d]
  have "i_block d ! j \<notin> held (node sb s k)" if k: "live sb s k" "k \<noteq> dir" for k
  proof
    assume x: "i_block d ! j \<in> held (node sb s k)"
    then have "i_block d ! j \<in> held d" using node_ok_length [OF cn(3)] j by (simp add: held_def)
    with x nodes_okD(3) [OF fs_invD(5) [OF inv] cn(1) k(1)] node_cached [OF d] k(2) show False by auto
  qed
  then show ?thesis by auto
qed

text \<open>What holds of a directory and an inode bound to one of its names.\<close>

lemma bound_inode:
  assumes inv: "fs_inv sb s" and dc: "dcache s (dir, nm) = Some (Some ino)" and v: "icache s ino = Some v"
  obtains d i where "icache s dir = Some d" and "S_ISDIR (i_mode d)" and "dir_inv sb s d"
    and "dir_map sb s d nm = Some i" and "ucast i = ino" and "ino \<noteq> dir"
    and "unat (ucast ino :: u32) = unat ino" and "unat (ucast ino :: u32) \<in> used_bits (disk s (BID_IBP_MIN sb))"
    and "dblocks_from 0 v \<inter> dblocks_from 0 d = {}"
proof -
  have "icache s dir \<noteq> None" using dentry_inD(1) [OF dentries_okD [OF fs_invD(7) [OF inv] dc]] .
  then obtain d where d: "icache s dir = Some d" by blast
  note dd = dentryD [OF inv dc d] and cn = cached_node [OF inv d] and cv = cached_node [OF inv v]
  obtain i where i: "dir_map sb s d nm = Some i" "ucast i = ino" using dd(2) by auto
  have "links (afs_of sb s) dir nm i" using cn(4) view_dir [OF dd(1)] i(1) by (simp add: links_def)
  then have ne: "ino \<noteq> dir" using tree_no_loop [OF fs_invD(8) [OF inv]] i(2) by blast
  have dinv: "dir_inv sb s d" using cn(3) dd(1) by (simp add: node_ok_def)
  have num: "unat (ucast ino :: u32) = unat ino" using i(2) by auto
  then have used: "unat (ucast ino :: u32) \<in> used_bits (disk s (BID_IBP_MIN sb))"
    using cv(1) by (simp add: live_def)
  have "held d \<inter> held v = {}"
    using nodes_okD(3) [OF fs_invD(5) [OF inv] cn(1) cv(1)] ne node_cached [OF d] node_cached [OF v] by simp
  then have "unat ` held v \<inter> unat ` held d = {}" by (auto dest!: word_unatI)
  then have "dblocks_from 0 v \<inter> dblocks_from 0 d = {}"
    using node_dblocks(2) [OF cv(3)] node_dblocks(2) [OF cn(3)] by blast
  then show thesis by (rule that [OF d dd(1) dinv i ne num used])
qed

lemma remove_removed:
  assumes inv: "fs_inv sb s" and dev: "device_ok E sb" and nm: "valid_name nm"
    and dc: "dcache s (dir, nm) = Some (Some ino)" and v: "icache s ino = Some v"
    and op: "op = yaf_unlink \<and> \<not> S_ISDIR (i_mode v) \<or> op = yaf_rmdir \<and> S_ISDIR (i_mode v) \<and> i_nlink v \<le> 1"
  shows "\<exists>s1 d i d'. op E sb dir nm s = Run 0 s1 \<and> removed sb s dir d nm i ino v (forget dir nm ino s1) d'"
proof -
  note sb = fs_invD(1) [OF inv]
  obtain d i where d: "icache s dir = Some d" and dd: "S_ISDIR (i_mode d)" and dinv: "dir_inv sb s d"
      and i: "dir_map sb s d nm = Some i" "ucast i = ino" and ne: "ino \<noteq> dir"
      and num: "unat (ucast ino :: u32) = unat ino" and used: "unat (ucast ino :: u32) \<in> used_bits (disk s (BID_IBP_MIN sb))"
      and apd: "dblocks_from 0 v \<inter> dblocks_from 0 d = {}"
    by (rule bound_inode [OF inv dc v])
  note cv = cached_node [OF inv v] and own = node_dblocks [OF cached_node(3) [OF inv v]]
  have leaf: "i_nlink v = 1" "view sb s v = Dir Map.empty \<or> (\<exists>n. view sb s v = File n)"
    by (rule removable [OF cv(3)], use op in blast)+
  have op': "op = yaf_unlink \<or> op = yaf_rmdir" using op by blast
  have dm: "dir_map sb s d nm \<noteq> None" using i(1) by simp
  obtain s1 d' v' b where run: "op E sb dir nm s = Run 0 s1"
      and ic: "icache s1 = (icache s)(dir := Some d', ino := Some v')"
      and map: "dir_map sb s1 d' = (dir_map sb s d)(nm := None)" and inv': "dir_inv sb s1 d'"
      and bits: "used_bits (disk s1 (BID_IBP_MIN sb)) = used_bits (disk s (BID_IBP_MIN sb)) - {unat (ucast ino :: u32)}"
        "used_bits (disk s1 (BID_DBP_MIN sb)) = used_bits (disk s (BID_DBP_MIN sb)) - dblocks_from 0 v"
      and bufs: "refs s1 = refs s" and dirty: "{dir, ino} \<subseteq> idirty s1"
      and sh: "i_block d' = i_block d" "i_size d' = i_size d" "i_mode d' = i_mode d"
      and b: "b \<in> (\<lambda>j. DNO2BID sb (i_block d ! j)) ` {..<YAF_IBLOCKS}"
      and frame: "\<forall>a. a \<notin> {BID_IBP_MIN sb, BID_DBP_MIN sb, b} \<longrightarrow> disk s1 a = disk s a"
      and rest: "dcache s1 = dcache s" "inew s1 = inew s" "idirty s \<subseteq> idirty s1"
    using delete_ok [OF sb dev d dinv nm dm dc v ne leaf(1) own(1) apd used op']
    by (elim exE conjE bexE) (rule that, assumption+)
  let ?s = "forget dir nm ino s1"
  obtain j where j: "j < 8" "b = DNO2BID sb (i_block d ! j)" using b by auto
  have ch: "changes_only sb s ?s {i_block d ! j}"
    by (rule changes_onlyI) (use frame j(2) in simp)
  have touched: "\<exists>x. x \<notin> \<Union> (held ` node sb s ` ({k. live sb s k} - {dir})) \<and> changes_only sb s ?s {x}"
    using foreign_block [OF inv d, of j] j(1) ch by (intro exI [of _ "i_block d ! j"]) simp
  have "removed sb s dir d nm i ino v ?s d'"
    unfolding removed_def
  proof (intro conjI)
    show "icache ?s = (icache s)(dir := Some d', ino := None)" using ic by simp
    show "dir_map sb ?s d' = (dir_map sb s d)(nm := None)" using map dir_map_disk [of ?s s1 sb d'] by simp
    show "node_ok sb ?s d'" using inv' dd sh(3) dir_inv_disk [of ?s s1 sb d'] by (simp add: node_ok_def)
    show "used_bits (disk ?s (BID_IBP_MIN sb)) = used_bits (disk s (BID_IBP_MIN sb)) - {unat ino}"
      using bits(1) num by simp
    show "used_bits (disk s (BID_DBP_MIN sb)) \<subseteq> used_bits (disk ?s (BID_DBP_MIN sb)) \<union> unat ` held v"
      using bits(2) own(2) by auto
    show "dcache ?s = (\<lambda>k. if fst k = ino then None else if k = (dir, nm) then Some None else dcache s k)"
      unfolding forget_def rest(1) [symmetric] by simp
    show "dir \<in> idirty ?s" using dirty ne by simp
    show "idirty s - {ino} \<subseteq> idirty ?s" using rest(3) by auto
  qed (use d dd v i ne leaf(2) sh bufs rest(1,2) touched in
    \<open>simp_all add: held_def forget_def\<close>)
  with run show ?thesis by blast
qed

lemma remove_step:
  assumes "fs_inv sb s" and "device_ok E sb" and "valid_name nm"
    and "dcache s (dir, nm) = Some (Some ino)" and "icache s ino = Some v"
    and "op = yaf_unlink \<and> \<not> S_ISDIR (i_mode v) \<or> op = yaf_rmdir \<and> S_ISDIR (i_mode v) \<and> i_nlink v \<le> 1"
  shows "\<exists>s1 m i. op E sb dir nm s = Run 0 s1 \<and> fs_inv sb (forget dir nm ino s1) \<and>
    afs_of sb s dir = Some (Dir m) \<and> m nm = Some i \<and> ucast i = ino \<and>
    afs_of sb s ino = Some (view sb s v) \<and> (view sb s v = Dir Map.empty \<or> (\<exists>n. view sb s v = File n)) \<and>
    afs_of sb (forget dir nm ino s1) = (afs_of sb s)(dir := Some (Dir (m(nm := None))), ino := None)"
proof -
  obtain s1 d i d' where run: "op E sb dir nm s = Run 0 s1"
      and r: "removed sb s dir d nm i ino v (forget dir nm ino s1) d'"
    using remove_removed [OF assms] by blast
  note afs = removed_afs [OF assms(1) r] and rD = removedD [OF r]
  show ?thesis
    using run removed_inv [OF assms(1) r] afs(2,3) rD(4,5,7) afs(1) [unfolded rD(5)] by blast
qed

end
