(* ===== verification/Yaf_Mkfs.thy ===== *)
theory Yaf_Mkfs
  imports Yaf_Super
begin

text \<open>
  The formatting tool \<open>tool/mkfs.c\<close>. The device is an array of bytes with a file position and
  the value of \<open>errno\<close>; the results of the system calls are a parameter. The tool computes
  its block ranges from the bytes of the on-disk superblock; they are those of the kernel on the
  counts these bytes stand for (\<open>tool_layout_agrees\<close>), in whose terms its operations are written.
\<close>

section \<open>The host\<close>

record dev =
  img :: block
  fpos :: nat
  errno :: int
  calls :: nat

text \<open>
  Results of the system calls: \<open>open\<close>, \<open>fstat\<close> and \<open>ioctl\<close> give an error number or a result
  (of \<open>fstat\<close>, whether it is a block device, and the size); the \<open>n\<close>-th \<open>lseek\<close> or \<open>write\<close> gives
  an error number or, for \<open>write\<close>, the number of bytes written.
\<close>

record host =
  open_res :: "int option"
  fstat_res :: "int + bool \<times> nat"
  ioctl_res :: "int + nat"
  euid :: u32
  egid :: u32
  lseek_err :: "nat \<Rightarrow> int option"
  write_res :: "nat \<Rightarrow> nat \<Rightarrow> int + nat"

type_synonym 'a dc = "dev \<Rightarrow> ('a, dev) outcome"

definition set_errno :: "int \<Rightarrow> dev \<Rightarrow> dev" where
  "set_errno e v = v\<lparr>errno := e\<rparr>"

definition get_errno :: "int dc" where
  "get_errno v = Run (errno v) v"

text \<open>\<open>lseek\<close> with \<open>SEEK_SET\<close>: whether it failed.\<close>

definition lseek :: "host \<Rightarrow> nat \<Rightarrow> bool dc" where
  "lseek H off v =
     (case lseek_err H (calls v) of
        Some e \<Rightarrow> Run True (v\<lparr>errno := e, calls := calls v + 1\<rparr>)
      | None \<Rightarrow> Run False (v\<lparr>fpos := off, calls := calls v + 1\<rparr>))"

text \<open>\<open>write\<close> of \<open>n\<close> bytes: the result, \<open>-1\<close> or the number of bytes written.\<close>

definition sys_write :: "host \<Rightarrow> (nat \<Rightarrow> byte) \<Rightarrow> nat \<Rightarrow> int dc" where
  "sys_write H bytes n v =
     (case write_res H (calls v) n of
        Inl e \<Rightarrow> Run (- 1) (v\<lparr>errno := e, calls := calls v + 1\<rparr>)
      | Inr k \<Rightarrow> Run (int k) (v\<lparr>img := memcpy_to k (fpos v) bytes (img v), fpos := fpos v + k,
                               calls := calls v + 1\<rparr>))"

definition assert_some :: "'a option \<Rightarrow> 'a dc" where
  "assert_some x = (case x of Some y \<Rightarrow> ret y | None \<Rightarrow> halt Panic)"

section \<open>The block ranges of the tool\<close>

text \<open>
  The user-space copies of the block ranges in \<open>include/fs.h\<close>, on the bytes of the on-disk
  superblock in place of the counts in memory.
\<close>

definition tool_BID_MIN :: "block \<Rightarrow> u64" where "tool_BID_MIN ysb = 0"
definition tool_BID_SB_MIN :: "block \<Rightarrow> u64" where "tool_BID_SB_MIN ysb = tool_BID_MIN ysb"
definition tool_BID_SB_MAX :: "block \<Rightarrow> u64" where "tool_BID_SB_MAX ysb = tool_BID_SB_MIN ysb + 1 - 1"
definition tool_BID_IBP_MIN :: "block \<Rightarrow> u64" where "tool_BID_IBP_MIN ysb = tool_BID_SB_MAX ysb + 1"
definition tool_BID_IBP_MAX :: "block \<Rightarrow> u64" where "tool_BID_IBP_MAX ysb = tool_BID_IBP_MIN ysb + ucast (le32_load ysb 0) - 1"
definition tool_BID_DBP_MIN :: "block \<Rightarrow> u64" where "tool_BID_DBP_MIN ysb = tool_BID_IBP_MAX ysb + 1"
definition tool_BID_DBP_MAX :: "block \<Rightarrow> u64" where "tool_BID_DBP_MAX ysb = tool_BID_DBP_MIN ysb + ucast (le32_load ysb 4) - 1"
definition tool_BID_I_MIN :: "block \<Rightarrow> u64" where "tool_BID_I_MIN ysb = tool_BID_DBP_MAX ysb + 1"
definition tool_BID_I_MAX :: "block \<Rightarrow> u64" where "tool_BID_I_MAX ysb = tool_BID_I_MIN ysb + ucast (le32_load ysb 8) - 1"
definition tool_BID_D_MIN :: "block \<Rightarrow> u64" where "tool_BID_D_MIN ysb = tool_BID_I_MAX ysb + 1"
definition tool_BID_D_MAX :: "block \<Rightarrow> u64" where "tool_BID_D_MAX ysb = tool_BID_D_MIN ysb + ucast (le32_load ysb 12) - 1"

lemmas tool_BID_defs = tool_BID_MIN_def tool_BID_SB_MIN_def tool_BID_SB_MAX_def tool_BID_IBP_MIN_def tool_BID_IBP_MAX_def tool_BID_DBP_MIN_def
  tool_BID_DBP_MAX_def tool_BID_I_MIN_def tool_BID_I_MAX_def tool_BID_D_MIN_def tool_BID_D_MAX_def

section \<open>The superblock\<close>

definition align_down :: "u32 \<Rightarrow> u32 \<Rightarrow> u32" where
  "align_down x a = x div a * a"

definition idiv_ceil :: "u32 \<Rightarrow> u32 \<Rightarrow> u32" where
  "idiv_ceil a b = a div b + (if a mod b \<noteq> 0 then 1 else 0)"

text \<open>The loop that fills the magic area of the superblock in memory, from index \<open>idx\<close>.\<close>

function fill_magic :: "nat \<Rightarrow> block \<Rightarrow> block" where
  "fill_magic idx ysb =
     (if idx < MAGIC_LEN
      then fill_magic (idx + SIZEOF_MAGIC) (memcpy_to SIZEOF_MAGIC (SIZEOF_SB_INFO + idx) MAGIC ysb)
      else ysb)"
  by pat_completeness auto
termination
  by (relation "measure (\<lambda>(idx, ysb). MAGIC_LEN - idx)") auto

declare fill_magic.simps [simp del]

definition sb_counts :: "u64 \<Rightarrow> Yaf_Sb_Info" where
  "sb_counts bnr =
     (let bnr = align_down (ucast bnr) (of_nat INODES_PER_BLOCK);
          nr_ibp = idiv_ceil bnr (of_nat (YAF_BLOCK_SIZE * BITS_PER_BYTE));
          nr_dbp = idiv_ceil bnr (of_nat (YAF_BLOCK_SIZE * BITS_PER_BYTE));
          nr_i = idiv_ceil bnr (of_nat INODES_PER_BLOCK);
          nr_d = bnr - 1 - nr_i - nr_ibp - nr_dbp
      in \<lparr>nr_ibp = nr_ibp, nr_dbp = nr_dbp, nr_i = nr_i, nr_d = nr_d\<rparr>)"

definition sb_store :: "Yaf_Sb_Info \<Rightarrow> block \<Rightarrow> block" where
  "sb_store sbi ysb =
     le32_store 12 (nr_d sbi) (le32_store 8 (nr_i sbi)
       (le32_store 4 (nr_dbp sbi) (le32_store 0 (nr_ibp sbi) ysb)))"

text \<open>The error code, and the superblock in memory, which starts with zeros.\<close>

definition write_superblock :: "host \<Rightarrow> block \<Rightarrow> u64 \<Rightarrow> (int \<times> block) dc" where
  "write_superblock H ysb bnr =
     (let ysb = fill_magic 0 (sb_store (sb_counts bnr) ysb) in
      bnd (lseek H (unat (BID_SB_MIN (sb_load ysb)) * YAF_BLOCK_SIZE)) (\<lambda>failed.
      if failed then bnd get_errno (\<lambda>e. ret (e, ysb))
      else
        bnd (sys_write H ysb YAF_BLOCK_SIZE) (\<lambda>r.
        if r \<noteq> int YAF_BLOCK_SIZE then ret (- EIO, ysb) else ret (0, ysb))))"

section \<open>The bitmaps\<close>

text \<open>The loop that zeroes \<open>n\<close> blocks from block \<open>lo\<close>, with loop variable \<open>i\<close>.\<close>

function zero_blocks :: "host \<Rightarrow> u64 \<Rightarrow> nat \<Rightarrow> nat \<Rightarrow> int dc" where
  "zero_blocks H lo i n =
     (if i < n then
        bnd (lseek H (unat (lo + of_nat i) * YAF_BLOCK_SIZE)) (\<lambda>failed.
        if failed then get_errno
        else
          bnd (sys_write H (\<lambda>_. 0) YAF_BLOCK_SIZE) (\<lambda>r.
          if r \<noteq> int YAF_BLOCK_SIZE then ret (- EIO) else zero_blocks H lo (Suc i) n))
      else ret 0)"
  by pat_completeness auto
termination
  by (relation "measure (\<lambda>(H, lo, i, n). n - i)") auto

declare zero_blocks.simps [simp del]

definition IDXI2DOFF :: "Yaf_Sb_Info \<Rightarrow> u32 \<Rightarrow> nat" where
  "IDXI2DOFF sb idx = unat (IDXI2BID sb idx) * YAF_BLOCK_SIZE + IDX2BKOFF idx"

definition write_inode_bitmap :: "host \<Rightarrow> block \<Rightarrow> int dc" where
  "write_inode_bitmap H ysb =
     (let sb = sb_load ysb in
      bnd (zero_blocks H (BID_IBP_MIN sb) 0 (unat (nr_ibp sb))) (\<lambda>r.
      if r \<noteq> 0 then ret r
      else
        bnd (lseek H (IDXI2DOFF sb RESERVED_INO)) (\<lambda>failed.
        if failed then get_errno
        else
          bnd (assert_some (yaf_set_bit 0 (of_nat (IDX2BEOFF RESERVED_INO)))) (\<lambda>byt.
          bnd (assert_some (yaf_set_bit byt (of_nat (IDX2BEOFF (ucast ROOT_INO))))) (\<lambda>byt.
          bnd (sys_write H (\<lambda>_. byt) 1) (\<lambda>r.
          if r \<noteq> 1 then ret (- EIO) else ret 0))))))"

definition write_data_bitmap :: "host \<Rightarrow> block \<Rightarrow> int dc" where
  "write_data_bitmap H ysb =
     (let sb = sb_load ysb in zero_blocks H (BID_DBP_MIN sb) 0 (unat (nr_dbp sb)))"

section \<open>The root inode\<close>

definition INO2DOFF :: "Yaf_Sb_Info \<Rightarrow> u64 \<Rightarrow> nat" where
  "INO2DOFF sb ino = unat (INO2BID sb ino) * YAF_BLOCK_SIZE + INO2BOFF ino"

definition root_dinode :: "host \<Rightarrow> Yaf_Inode" where
  "root_dinode H =
     \<lparr>di_mode = 0x41FF, di_uid = euid H, di_gid = egid H, di_nlink = 1, di_size = 0,
      di_atime = 0, di_mtime = 0, di_ctime = 0, di_block = replicate YAF_IBLOCKS RESERVED_DNO\<rparr>"

definition write_inode_blocks :: "host \<Rightarrow> block \<Rightarrow> int dc" where
  "write_inode_blocks H ysb =
     (let sb = sb_load ysb in
      bnd (lseek H (INO2DOFF sb ROOT_INO)) (\<lambda>failed.
      if failed then get_errno
      else
        bnd (sys_write H (inode_store 0 (root_dinode H) (\<lambda>_. 0)) SIZEOF_YAF_INODE) (\<lambda>r.
        if r \<noteq> int SIZEOF_YAF_INODE then ret (- EIO) else ret 0)))"

definition write_data_blocks :: "host \<Rightarrow> block \<Rightarrow> int dc" where
  "write_data_blocks H ysb = ret 0"

section \<open>The program\<close>

text \<open>A step of \<open>main\<close> whose failure ends the program with the value of \<open>errno\<close>.\<close>

definition or_errno :: "int dc \<Rightarrow> int dc \<Rightarrow> int dc" where
  "or_errno step rest = bnd step (\<lambda>r. if r \<noteq> 0 then get_errno else rest)"

definition format_device :: "host \<Rightarrow> u64 \<Rightarrow> int dc" where
  "format_device H bnr =
     bnd (write_superblock H (\<lambda>_. 0) bnr) (\<lambda>(r, ysb).
     if r \<noteq> 0 then get_errno
     else
       or_errno (write_inode_bitmap H ysb) (
       or_errno (write_data_bitmap H ysb) (
       or_errno (write_inode_blocks H ysb) (
       or_errno (write_data_blocks H ysb) (ret 0)))))"

section \<open>Command line\<close>

text \<open>
  The events \<open>argp_parse\<close> reports to \<open>parse_opt\<close>: an argument, that there was none, or any
  other key. \<open>argp_usage\<close> prints a message and ends the program, here with \<open>Stop\<close>.
\<close>

datatype argp_key = KEY_ARG name | KEY_NO_ARGS | KEY_OTHER

definition ARGP_ERR_UNKNOWN :: int where "ARGP_ERR_UNKNOWN = 7"

text \<open>The result and the device of the \<open>Arguments\<close> structure, initially NULL.\<close>

fun parse_opt :: "argp_key \<Rightarrow> name option \<Rightarrow> (int, name option) outcome" where
  "parse_opt (KEY_ARG arg) d = Run 0 (Some arg)"
| "parse_opt KEY_NO_ARGS d = Stop Exit"
| "parse_opt KEY_OTHER d = Run ARGP_ERR_UNKNOWN d"

text \<open>
  \<open>argp_parse\<close> goes on after 0 and, for the keys without a meaning, after
  \<open>ARGP_ERR_UNKNOWN\<close>. The assertion after it ends the program when no device was given.
\<close>

fun run_parser :: "argp_key list \<Rightarrow> name option \<Rightarrow> (unit, name option) outcome" where
  "run_parser [] d = Run () d"
| "run_parser (k # keys) d = bnd (parse_opt k) (\<lambda>_. run_parser keys) d"

definition mkfs_parse_arguments :: "argp_key list \<Rightarrow> (name, name option) outcome" where
  "mkfs_parse_arguments keys =
     bnd (run_parser keys) (\<lambda>_ d. case d of None \<Rightarrow> Stop Panic | Some a \<Rightarrow> Run a d) None"

section \<open>The whole program\<close>

definition fail_with :: "int \<Rightarrow> int dc" where
  "fail_with e = bnd (\<lambda>v. Run () (set_errno e v)) (\<lambda>_. get_errno)"

text \<open>
  \<open>main\<close> after the arguments: the exit status. Messages are left out, and are taken not to change \<open>errno\<close>.
\<close>

definition mkfs_device :: "host \<Rightarrow> int dc" where
  "mkfs_device H =
     (case open_res H of
        Some e \<Rightarrow> fail_with e
      | None \<Rightarrow>
          (case fstat_res H of
             Inl e \<Rightarrow> fail_with e
           | Inr (is_blk, sz) \<Rightarrow>
               if is_blk then
                 (case ioctl_res H of
                    Inl e \<Rightarrow> fail_with e
                  | Inr sz \<Rightarrow> format_device H (of_nat (sz div YAF_BLOCK_SIZE)))
               else format_device H (of_nat (sz div YAF_BLOCK_SIZE))))"

definition mkfs_main :: "(name \<Rightarrow> host) \<Rightarrow> argp_key list \<Rightarrow> int dc" where
  "mkfs_main hosts keys v =
     (case mkfs_parse_arguments keys of
        Stop e \<Rightarrow> Stop e
      | Run device _ \<Rightarrow> mkfs_device (hosts device) v)"

section \<open>The counts\<close>

lemma unat_ceil:
  "unat (idiv_ceil a b) = unat a div unat b + (if unat a mod unat b \<noteq> 0 then 1 else 0)" if "1 < unat b"
proof -
  have "unat a div unat b + 1 < 2 ^ 32"
  proof -
    have "unat a div unat b \<le> unat a div 2" using that by (intro div_le_mono2) auto
    then show ?thesis using unat_u32_le [of a] by simp
  qed
  moreover have "a mod b = 0 \<longleftrightarrow> unat a mod unat b = 0"
    by (metis unat_mod unsigned_0 word_unatI)
  ultimately show ?thesis
    by (simp add: idiv_ceil_def unat_word_ariths unat_div)
qed

text \<open>
  The counts for a device of \<open>N\<close> blocks: with \<open>K\<close> the number of inode blocks and \<open>B\<close> the number
  of blocks of either bitmap, \<open>64 K\<close> blocks of the device are used.
\<close>

lemma sb_counts_unat:
  fixes bnr :: u64
  defines "N \<equiv> unat bnr"
  defines "K \<equiv> N div 64" and "B \<equiv> (N div 64 * 64 + 32767) div 32768"
  assumes N: "64 \<le> N" "N < 2 ^ 32"
  shows "unat (nr_i (sb_counts bnr)) = K" "unat (nr_ibp (sb_counts bnr)) = B"
    "unat (nr_dbp (sb_counts bnr)) = B" "unat (nr_d (sb_counts bnr)) = 64 * K - 1 - K - 2 * B"
    "1 \<le> B" "B \<le> K" "1 \<le> K"
proof -
  let ?b = "align_down (ucast bnr) 64 :: u32"
  have c: "unat (ucast bnr :: u32) = N"
    using N(2) by (simp add: N_def unsigned_ucast_eq unsigned_take_bit_eq take_bit_nat_eq_self)
  have lt: "64 * K < 2 ^ 32" using N(2) by (simp add: K_def)
  have b: "unat ?b = 64 * K"
    using c lt by (simp add: align_down_def unat_word_ariths unat_div K_def mult.commute)
  have ceil: "n div 32768 + (if n mod 32768 \<noteq> 0 then 1 else 0) = (n + 32767) div 32768" for n :: nat
  proof -
    obtain q r where n: "n = 32768 * q + r" "r < 32768" "n div 32768 = q" "n mod 32768 = r"
      using mult_div_mod_eq [of 32768 n] by (metis mod_less_divisor zero_less_numeral)
    show ?thesis
    proof (cases "r = 0")
      case True
      have "(n + 32767) div 32768 = q" by (rule div_nat_eqI) (use n(1,2) True in simp_all)
      with True n show ?thesis by simp
    next
      case False
      have "(n + 32767) div 32768 = q + 1" by (rule div_nat_eqI) (use n(1,2) False in simp_all)
      with False n show ?thesis by simp
    qed
  qed
  have i: "unat (idiv_ceil ?b 64) = K" using b by (subst unat_ceil) simp_all
  have B: "unat (idiv_ceil ?b 32768) = B"
    using b ceil [of "64 * K"] by (subst unat_ceil) (simp_all add: B_def K_def mult.commute)
  show K1: "1 \<le> K" using N(1) by (simp add: K_def)
  show B1: "1 \<le> B" using K1 by (simp add: B_def K_def)
  show BK: "B \<le> K" using K1 unfolding B_def K_def [symmetric] by linarith
  show "unat (nr_i (sb_counts bnr)) = K" "unat (nr_ibp (sb_counts bnr)) = B"
    "unat (nr_dbp (sb_counts bnr)) = B"
    using i B by (simp_all add: sb_counts_def Let_def)
  have sub: "unat (x - y) = unat x - unat y" if "unat y \<le> unat x" for x y :: u32
    using that by (rule unat_sub [unfolded word_le_nat_alt])
  have "unat (?b - 1) = 64 * K - 1" using b K1 by (subst sub) simp_all
  moreover from this i have "unat (?b - 1 - idiv_ceil ?b 64) = 64 * K - 1 - K"
    using K1 by (subst sub) simp_all
  moreover from this B have "unat (?b - 1 - idiv_ceil ?b 64 - idiv_ceil ?b 32768) = 64 * K - 1 - K - B"
    using K1 BK by (subst sub) simp_all
  ultimately have "unat (?b - 1 - idiv_ceil ?b 64 - idiv_ceil ?b 32768 - idiv_ceil ?b 32768) =
      64 * K - 1 - K - B - B"
    using B K1 BK by (subst sub) simp_all
  then show "unat (nr_d (sb_counts bnr)) = 64 * K - 1 - K - 2 * B"
    by (simp add: sb_counts_def Let_def)
qed

section \<open>Properties of the counts\<close>

lemma counts_ok:
  fixes bnr :: u64
  assumes "64 \<le> unat bnr" and "unat bnr < 2 ^ 32"
  shows "sb_ok (sb_counts bnr)" "ino_ok (sb_counts bnr) ROOT_INO"
    "unat (BID_D_MAX (sb_counts bnr)) + 1 = unat bnr div 64 * 64"
proof -
  obtain K B where KB: "K = unat bnr div 64" "B = (unat bnr div 64 * 64 + 32767) div 32768" by blast
  note n = sb_counts_unat [OF assms, folded KB]
  have le: "64 * K < 2 ^ 32" using assms(2) by (simp add: KB(1))
  show "sb_ok (sb_counts bnr)"
    using n le by (simp add: sb_ok_def word_less_nat_alt)
  show "ino_ok (sb_counts bnr) ROOT_INO"
    using n by (simp add: ino_ok_def ROOT_INO_def)
  show "unat (BID_D_MAX (sb_counts bnr)) + 1 = unat bnr div 64 * 64"
    unfolding KB(1) [symmetric] using n by (simp add: unat_BID_MAX)
qed

text \<open>
  The layout of a new file system. For a device of at least 64 and less than \<open>2 ^ 32\<close>
  blocks, the counts the formatting tool computes are those of a usable superblock: the five
  sections end at the last whole group of 64 blocks, which is on the device, there is a data
  block and a root inode, every inode and every data block has a bit in its bitmap, and there
  are as many inodes as blocks.
\<close>

theorem mkfs_layout:
  fixes bnr :: u64
  assumes "64 \<le> unat bnr" and "unat bnr < 2 ^ 32"
  shows "let sb = sb_counts bnr in
    sb_ok sb \<and> ino_ok sb ROOT_INO \<and> 0 < nr_d sb \<and> BID_D_MAX sb < bnr \<and>
    unat (BID_D_MAX sb) + 1 = unat bnr div INODES_PER_BLOCK * INODES_PER_BLOCK \<and>
    unat (nr_i sb) * INODES_PER_BLOCK = unat (BID_D_MAX sb) + 1 \<and>
    unat (nr_i sb) * INODES_PER_BLOCK \<le> unat (nr_ibp sb) * BITS_PER_BLOCK \<and>
    unat (nr_d sb) \<le> unat (nr_dbp sb) * BITS_PER_BLOCK"
proof -
  obtain K B where KB: "K = unat bnr div 64" "B = (unat bnr div 64 * 64 + 32767) div 32768" by blast
  note n = sb_counts_unat [OF assms, folded KB] and ok = counts_ok [OF assms, folded KB(1)]
  have up: "x \<le> (x + 32767) div 32768 * 32768" for x :: nat
    using div_mult_mod_eq [of "x + 32767" 32768] mod_less_divisor [of 32768 "x + 32767"] by linarith
  have B: "64 * K \<le> B * 32768" using up [of "64 * K"] unfolding KB by (simp only: mult.commute)
  have "64 * K \<le> unat bnr" by (simp add: KB(1))
  then have "BID_D_MAX (sb_counts bnr) < bnr" using ok(3) n(7) by (simp add: word_less_nat_alt)
  moreover have "0 < nr_d (sb_counts bnr)" using n by (simp add: word_less_nat_alt)
  moreover have "unat (nr_d (sb_counts bnr)) \<le> B * 32768" using n(4) B by simp
  ultimately show ?thesis
    unfolding Let_def layout_consts KB(1) [symmetric] n(1-3)
    using ok B by (intro conjI) (simp_all only: mult.commute)
qed

theorem mkfs_layout_witness:
  "sb_ok (sb_counts 256) \<and> unat (BID_D_MAX (sb_counts 256)) = 255"
  using mkfs_layout [of 256] by (simp add: Let_def)

lemma sb_counts_256: "sb_counts 256 = sb0"
  by (simp add: sb_counts_def sb0_def align_down_def idiv_ceil_def Let_def)

lemma counts_small:
  assumes "unat (bnr :: u64) < 64"
  shows "sb_counts bnr = \<lparr>nr_ibp = 0, nr_dbp = 0, nr_i = 0, nr_d = - 1\<rparr>"
proof -
  have "unat (ucast bnr :: u32) < 64"
    using assms by (simp add: unsigned_ucast_eq unsigned_take_bit_eq take_bit_nat_eq_self)
  then have "(ucast bnr :: u32) div 64 = 0"
    by (intro word_unatI) (simp add: unat_div)
  then show ?thesis by (simp add: sb_counts_def align_down_def idiv_ceil_def Let_def)
qed

text \<open>
  Devices out of range. The number of blocks is truncated to 32 bits: the counts of a device
  of \<open>2 ^ 32\<close> blocks or more are those of the remainder. For a device of less than 64 blocks
  the three sections of metadata are empty and the number of data blocks wraps around to
  \<open>0xFFFFFFFF\<close>, so that the superblock has no root inode.
\<close>

theorem mkfs_counts_wrap:
  fixes bnr :: u64
  shows "sb_counts bnr = sb_counts (ucast (ucast bnr :: u32)) \<and>
    (unat bnr < 64 \<longrightarrow> sb_counts bnr = \<lparr>nr_ibp = 0, nr_dbp = 0, nr_i = 0, nr_d = - 1\<rparr> \<and>
      \<not> ino_ok (sb_counts bnr) ROOT_INO)"
proof -
  have "ucast (ucast (ucast bnr :: u32) :: u64) = (ucast bnr :: u32)" by simp
  then have "sb_counts bnr = sb_counts (ucast (ucast bnr :: u32))" by (simp add: sb_counts_def)
  then show ?thesis using counts_small [of bnr] by (simp add: ino_ok_def)
qed

theorem mkfs_counts_wrap_witness:
  "sb_counts 63 = \<lparr>nr_ibp = 0, nr_dbp = 0, nr_i = 0, nr_d = - 1\<rparr>"
  using mkfs_counts_wrap [of 63] by simp

section \<open>The command line\<close>

definition arguments :: "argp_key list \<Rightarrow> name list" where
  "arguments keys = concat (map (\<lambda>k. case k of KEY_ARG a \<Rightarrow> [a] | _ \<Rightarrow> []) keys)"

lemma run_parser_args:
  "KEY_NO_ARGS \<notin> set keys \<Longrightarrow>
     run_parser keys d = Run () (if arguments keys = [] then d else Some (last (arguments keys)))"
proof (induction keys arbitrary: d)
  case (Cons k keys)
  then show ?case by (cases k) (simp_all add: bnd_def arguments_def)
qed (simp add: arguments_def)

lemma run_parser_none: "KEY_NO_ARGS \<in> set keys \<Longrightarrow> run_parser keys d = Stop Exit"
proof (induction keys arbitrary: d)
  case (Cons k keys)
  then show ?case by (cases k) (auto simp: bnd_def)
qed simp

text \<open>
  The arguments. When the parser reports a missing argument the program ends with the usage
  message; otherwise the device is the last argument given, and without any the assertion
  ends the program.
\<close>

theorem mkfs_arguments:
  "mkfs_parse_arguments keys =
     (if KEY_NO_ARGS \<in> set keys then Stop Exit
      else if arguments keys = [] then Stop Panic
      else Run (last (arguments keys)) (Some (last (arguments keys))))"
  using run_parser_args [of keys None] run_parser_none [of keys None]
  by (simp add: mkfs_parse_arguments_def bnd_def)

text \<open>
  Tool and driver agree on the layout. On every superblock, whatever its bytes, the block
  ranges the formatting tool computes from the little-endian counts on disk are those the driver
  computes from the counts in memory that mounting reads from the same bytes.
\<close>

theorem tool_layout_agrees:
  "tool_BID_SB_MIN ysb = BID_SB_MIN (sb_load ysb) \<and> tool_BID_SB_MAX ysb = BID_SB_MAX (sb_load ysb) \<and>
   tool_BID_IBP_MIN ysb = BID_IBP_MIN (sb_load ysb) \<and> tool_BID_IBP_MAX ysb = BID_IBP_MAX (sb_load ysb) \<and>
   tool_BID_DBP_MIN ysb = BID_DBP_MIN (sb_load ysb) \<and> tool_BID_DBP_MAX ysb = BID_DBP_MAX (sb_load ysb) \<and>
   tool_BID_I_MIN ysb = BID_I_MIN (sb_load ysb) \<and> tool_BID_I_MAX ysb = BID_I_MAX (sb_load ysb) \<and>
   tool_BID_D_MIN ysb = BID_D_MIN (sb_load ysb) \<and> tool_BID_D_MAX ysb = BID_D_MAX (sb_load ysb)"
  by (simp add: tool_BID_defs BID_MIN_def BID_SB_MIN_def BID_SB_MAX_def BID_IBP_MIN_def BID_IBP_MAX_def
      BID_DBP_MIN_def BID_DBP_MAX_def BID_I_MIN_def BID_I_MAX_def BID_D_MIN_def BID_D_MAX_def sb_load_def)

end
