(* ===== verification/Yaf_Format.thy ===== *)
theory Yaf_Format
  imports Yaf_Mkfs
begin

text \<open>
  What the formatting tool leaves on the device: the run of \<open>mkfs.c\<close> with a host on which
  nothing fails, the bytes it writes, and these bytes read back as superblock, bitmaps and
  root inode; then its exit status on the other hosts.
\<close>

section \<open>The bytes of the superblock\<close>

lemma fill_magic_eq:
  "k \<le> 1020 \<Longrightarrow> fill_magic (4 * k) ysb j =
     (if 16 + 4 * k \<le> j \<and> j < 4096 then MAGIC (j mod 4) else ysb j)"
proof (induction "1020 - k" arbitrary: k ysb)
  case 0
  then show ?case by (subst fill_magic.simps) auto
next
  case (Suc n)
  then have k: "k < 1020" by simp
  let ?ysb = "memcpy_to 4 (16 + 4 * k) MAGIC ysb"
  have IH: "fill_magic (4 * Suc k) ?ysb j =
      (if 20 + 4 * k \<le> j \<and> j < 4096 then MAGIC (j mod 4) else ?ysb j)"
    using Suc.hyps(1) [of "Suc k" ?ysb] Suc.hyps(2) k by simp
  have "fill_magic (4 * k) ysb j = fill_magic (4 * Suc k) ?ysb j"
    using k by (subst fill_magic.simps) (simp add: add.commute)
  then have eq: "fill_magic (4 * k) ysb j =
      (if 20 + 4 * k \<le> j \<and> j < 4096 then MAGIC (j mod 4) else ?ysb j)" using IH by (rule trans)
  have "(j - (16 + 4 * k)) = j mod 4" if "16 + 4 * k \<le> j" "j < 20 + 4 * k"
    using that by presburger
  then show ?case unfolding eq using k by (auto simp: memcpy_eq)
qed

lemma superblock_bytes:
  "sb_load (fill_magic 0 (sb_store sbi ysb)) = sbi" "magic_ok (fill_magic 0 (sb_store sbi ysb)) 0"
proof -
  have low: "fill_magic 0 (sb_store sbi ysb) j = sb_store sbi ysb j" if "j < 16" for j
    using fill_magic_eq [of 0 "sb_store sbi ysb" j] that by simp
  have "le32_load (fill_magic 0 (sb_store sbi ysb)) off = le32_load (sb_store sbi ysb) off" if "off + 4 \<le> 16" for off
    using that by (intro le32_load_cong) (simp add: low)
  then show "sb_load (fill_magic 0 (sb_store sbi ysb)) = sbi"
    by (simp add: sb_load_def sb_store_def)
  have "(16 + i) mod 4 = i mod (4 :: nat)" for i by presburger
  then show "magic_ok (fill_magic 0 (sb_store sbi ysb)) 0"
    unfolding magic_ok_iff using fill_magic_eq [of 0 "sb_store sbi ysb"] by simp
qed

section \<open>A run without failures\<close>

definition host_ok :: "host \<Rightarrow> bool" where
  "host_ok H \<longleftrightarrow> (\<forall>n. lseek_err H n = None) \<and> (\<forall>n k. write_res H n k = Inr k)"

lemma host_run:
  assumes "host_ok H"
  shows "lseek H off v = Run False (v\<lparr>fpos := off, calls := calls v + 1\<rparr>)"
    "sys_write H bytes n v = Run (int n)
       (v\<lparr>img := memcpy_to n (fpos v) bytes (img v), fpos := fpos v + n, calls := calls v + 1\<rparr>)"
  using assms by (simp_all add: host_ok_def lseek_def sys_write_def)

lemma zero_blocks_run:
  assumes "host_ok H" and "unat lo + n < 2 ^ 64"
  shows "i \<le> n \<Longrightarrow> \<exists>v'. zero_blocks H lo i n v = Run 0 v' \<and> errno v' = errno v \<and>
    (\<forall>x. img v' x = (if (unat lo + i) * 4096 \<le> x \<and> x < (unat lo + n) * 4096 then 0 else img v x))"
proof (induction "n - i" arbitrary: i v)
  case 0
  then show ?case by (intro exI [of _ v]) (subst zero_blocks.simps, auto)
next
  case (Suc k)
  then have i: "i < n" by simp
  have pos: "unat (lo + of_nat i) = unat lo + i"
    using assms(2) i by (simp add: unat_add_u64 unat_of_nat)
  let ?v1 = "v\<lparr>img := memcpy_to 4096 ((unat lo + i) * 4096) (\<lambda>_. 0) (img v),
      fpos := (unat lo + i) * 4096 + 4096, calls := calls v + 2\<rparr>"
  have step: "zero_blocks H lo i n v = zero_blocks H lo (Suc i) n ?v1"
    using i by (subst zero_blocks.simps) (simp add: bnd_run host_run [OF assms(1)] pos)
  have hyps: "k = n - Suc i" "Suc i \<le> n" using Suc.hyps(2) i by linarith+
  obtain v' where v': "zero_blocks H lo (Suc i) n ?v1 = Run 0 v'" "errno v' = errno ?v1"
      "\<forall>x. img v' x = (if (unat lo + Suc i) * 4096 \<le> x \<and> x < (unat lo + n) * 4096 then 0 else img ?v1 x)"
    using Suc.hyps(1) [OF hyps, of ?v1] by blast
  have len: "(unat lo + Suc i) * 4096 = (unat lo + i) * 4096 + 4096"
      "(unat lo + i) * 4096 + 4096 \<le> (unat lo + n) * 4096"
    using i by (auto simp: algebra_simps)
  have "img v' x = (if (unat lo + i) * 4096 \<le> x \<and> x < (unat lo + n) * 4096 then 0 else img v x)" for x
    using v'(3) len unfolding len(1) by (auto simp: memcpy_eq)
  with step v'(1,2) show ?case by (intro exI [of _ v']) simp
qed

lemma set_two_bits:
  "yaf_set_bit 0 (of_nat (IDX2BEOFF RESERVED_INO)) = Some 1"
  "yaf_set_bit 1 (of_nat (IDX2BEOFF (ucast ROOT_INO))) = Some 3"
  by (simp_all add: IDX2BEOFF_def RESERVED_INO_def ROOT_INO_def yaf_set_bit_def BEOFF2MASK_def)

text \<open>What the device holds after a format with the counts \<open>sb\<close>.\<close>

definition formatted :: "host \<Rightarrow> Yaf_Sb_Info \<Rightarrow> block \<Rightarrow> nat \<Rightarrow> byte" where
  "formatted H sb ysb x =
     (let ilo = unat (BID_I_MIN sb) * 4096 in
      if x < 4096 then ysb x
      else if x = 4096 then 3
      else if x < ilo then 0
      else inode_store 0 (root_dinode H) (\<lambda>_. 0) (x - ilo - 64))"

lemma root_place:
  "IDXI2DOFF sb RESERVED_INO = 4096" "INO2DOFF sb ROOT_INO = unat (BID_I_MIN sb) * 4096 + 64"
proof -
  show "IDXI2DOFF sb RESERVED_INO = 4096"
    by (simp add: IDXI2DOFF_def unat_IDXI2BID IDX2BKOFF_def RESERVED_INO_def)
  have "unat ROOT_INO = 1" by (simp add: ROOT_INO_def)
  then show "INO2DOFF sb ROOT_INO = unat (BID_I_MIN sb) * 4096 + 64"
    by (simp add: INO2DOFF_def unat_INO2BID INO2BOFF_def unat_BID)
qed

lemma format_run:
  assumes H: "host_ok H" and sb: "sb_counts bnr = sb"
  shows "\<exists>v' ysb. format_device H bnr v = Run 0 v' \<and> sb_load ysb = sb \<and> magic_ok ysb 0 \<and>
    (\<forall>x<4096. img v' x = ysb x) \<and>
    (1 \<le> unat (nr_ibp sb) \<longrightarrow> (\<forall>x. x < unat (BID_I_MIN sb) * 4096 \<or>
         unat (BID_I_MIN sb) * 4096 + 64 \<le> x \<and> x < unat (BID_I_MIN sb) * 4096 + 128 \<longrightarrow>
         img v' x = formatted H sb ysb x))"
proof -
  let ?ysb = "fill_magic 0 (sb_store sb (\<lambda>_. 0))"
  let ?B = "unat (nr_ibp sb)" and ?D = "unat (nr_dbp sb)"
  have lo: "unat (BID_IBP_MIN sb) = 1" "unat (BID_DBP_MIN sb) = 1 + ?B" "unat (BID_I_MIN sb) = 1 + ?B + ?D"
    by (simp_all add: unat_BID)
  have fit: "unat (BID_IBP_MIN sb) + ?B < 2 ^ 64" "unat (BID_DBP_MIN sb) + ?D < 2 ^ 64"
    using unat_u32_le [of "nr_ibp sb"] unat_u32_le [of "nr_dbp sb"] by (simp_all add: lo)
  have load: "sb_load ?ysb = sb" by (rule superblock_bytes(1))
  obtain v1 where v1: "write_superblock H (\<lambda>_. 0) bnr v = Run (0, ?ysb) v1"
      "\<And>x. img v1 x = (if x < 4096 then ?ysb x else img v x)"
    using sb by (simp add: write_superblock_def bnd_run host_run [OF H] BID_min_eqs memcpy_eq Let_def)
  obtain v2 where v2: "zero_blocks H (BID_IBP_MIN sb) 0 ?B v1 = Run 0 v2"
      "\<And>x. img v2 x = (if 4096 \<le> x \<and> x < (1 + ?B) * 4096 then 0 else img v1 x)"
    using zero_blocks_run [OF H fit(1), of 0 v1] lo(1) by auto
  obtain v3 where v3: "write_inode_bitmap H ?ysb v1 = Run 0 v3"
      "\<And>x. img v3 x = (if x = 4096 then 3 else img v2 x)"
    using v2(1) by (simp add: write_inode_bitmap_def load bnd_run host_run [OF H] root_place set_two_bits
        assert_some_def memcpy_eq Let_def)
  obtain v4 where v4: "write_data_bitmap H ?ysb v3 = Run 0 v4"
      "\<And>x. img v4 x = (if (1 + ?B) * 4096 \<le> x \<and> x < (1 + ?B + ?D) * 4096 then 0 else img v3 x)"
    using zero_blocks_run [OF H fit(2), of 0 v3] lo(2) by (auto simp: write_data_bitmap_def load Let_def)
  let ?r = "(1 + ?B + ?D) * 4096 + 64"
  obtain v5 where v5: "write_inode_blocks H ?ysb v4 = Run 0 v5"
      "\<And>x. img v5 x = (if ?r \<le> x \<and> x < ?r + 64
         then inode_store 0 (root_dinode H) (\<lambda>_. 0) (x - ?r) else img v4 x)"
    by (simp add: write_inode_blocks_def load bnd_run host_run [OF H] root_place lo memcpy_eq Let_def)
  have "format_device H bnr v = Run 0 v5"
    using v1(1) v3(1) v4(1) v5(1) by (simp add: format_device_def or_errno_def write_data_blocks_def bnd_run)
  moreover have "img v5 x = formatted H sb ?ysb x"
    if "x < (1 + ?B + ?D) * 4096 \<or> ?r \<le> x \<and> x < ?r + 64" and "1 \<le> ?B" for x
    using that unfolding formatted_def lo Let_def v5(2) v4(2) v3(2) v2(2) v1(2)
    by (auto simp: diff_diff_left)
  moreover have "\<forall>x<4096. img v5 x = ?ysb x"
    unfolding v5(2) v4(2) v3(2) v2(2) v1(2) by simp
  ultimately show ?thesis
    using load superblock_bytes(2) by (intro exI [of _ v5] exI [of _ ?ysb]) (auto simp: lo)
qed

section \<open>Reading the formatted device back\<close>

definition disk_of :: "block \<Rightarrow> u64 \<Rightarrow> block" where
  "disk_of im b off = im (unat b * 4096 + off)"

text \<open>
  The records and bitmaps of a block depend on its first 4096 bytes only, which is all a
  formatted device determines.
\<close>

lemma used_bits_cong: "(\<And>off. off < 4096 \<Longrightarrow> a off = b off) \<Longrightarrow> used_bits a = used_bits b"
  by (auto simp: used_bits_def test_bit_at_def)

lemma sb_load_cong: "(\<And>off. off < 4096 \<Longrightarrow> a off = b off) \<Longrightarrow> sb_load a = sb_load b"
  by (simp add: sb_load_def le32_load_def)

lemma magic_ok_cong: "(\<And>off. off < 4096 \<Longrightarrow> a off = b off) \<Longrightarrow> magic_ok a 0 = magic_ok b 0"
  unfolding magic_ok_iff by simp

lemma bit_three: "bit (3 :: byte) n \<longleftrightarrow> n = 0 \<or> n = 1"
proof -
  have three: "(3 :: byte) = mask 2" by (simp add: mask_eq_exp_minus_1)
  show ?thesis unfolding three by (auto simp: bit_mask_iff less_2_cases_iff)
qed

lemma used_bits_three: "used_bits (\<lambda>off. if off = 0 then 3 else 0) = {0, 1}"
proof -
  let ?b = "\<lambda>off. if off = 0 then 3 else (0 :: byte)"
  have low: "bit (?b (k div 8)) (k mod 8) \<longleftrightarrow> k = 0 \<or> k = 1" for k :: nat
  proof (cases "k div 8 = 0")
    case True
    then have "k mod 8 = k" "?b (k div 8) = 3" by simp_all
    then show ?thesis by (simp only: bit_three)
  next
    case False
    then have "?b (k div 8) = 0" "k \<noteq> 0 \<and> k \<noteq> 1" by auto
    then show ?thesis by (simp only: bit_0_eq bot_apply bot_bool_def) blast
  qed
  have "used_bits ?b = {k. k < BITS_PER_BLOCK \<and> (k = 0 \<or> k = 1)}"
    by (simp only: used_bits_def test_bit_at_def low)
  also have "\<dots> = {0, 1}" by auto
  finally show ?thesis .
qed

lemma formatted_reads:
  assumes im: "\<And>x. x < unat (BID_I_MIN sb) * 4096 \<or>
         unat (BID_I_MIN sb) * 4096 + 64 \<le> x \<and> x < unat (BID_I_MIN sb) * 4096 + 128 \<Longrightarrow>
         im x = formatted H sb ysb x"
    and sb: "1 \<le> unat (nr_ibp sb)" "1 \<le> unat (nr_dbp sb)"
  shows "sb_load (disk_of im 0) = sb_load ysb" "magic_ok (disk_of im 0) 0 = magic_ok ysb 0"
    "used_bits (disk_of im (BID_IBP_MIN sb)) = {0, 1}"
    "\<And>b. 2 \<le> unat b \<Longrightarrow> unat b < unat (BID_I_MIN sb) \<Longrightarrow> used_bits (disk_of im b) = {}"
    "inode_load (disk_of im (INO2BID sb ROOT_INO)) (INO2BOFF ROOT_INO) = root_dinode H"
proof -
  let ?lo = "unat (BID_I_MIN sb)"
  have lo: "3 \<le> ?lo" using sb by (simp add: unat_BID)
  have blk: "disk_of im b off = formatted H sb ysb (unat b * 4096 + off)" if "unat b < ?lo" "off < 4096" for b off
  proof -
    have "unat b * 4096 + 4096 \<le> ?lo * 4096" using mult_le_mono1 [of "Suc (unat b)" ?lo 4096] that by simp
    then show ?thesis using that im by (simp add: disk_of_def)
  qed
  have "disk_of im 0 off = ysb off" if "off < 4096" for off
    using blk [of 0 off] that lo by (simp add: formatted_def Let_def)
  then show "sb_load (disk_of im 0) = sb_load ysb" "magic_ok (disk_of im 0) 0 = magic_ok ysb 0"
    by (intro sb_load_cong magic_ok_cong; simp)+
  have "disk_of im (BID_IBP_MIN sb) off = (if off = 0 then 3 else 0)" if "off < 4096" for off
    using blk [of "BID_IBP_MIN sb" off] that lo by (simp add: formatted_def Let_def unat_BID(1))
  then show "used_bits (disk_of im (BID_IBP_MIN sb)) = {0, 1}"
    unfolding used_bits_three [symmetric] by (rule used_bits_cong)
  show "used_bits (disk_of im b) = {}" if b: "2 \<le> unat b" "unat b < ?lo" for b
  proof -
    have "disk_of im b off = zeros 0 off" if "off < 4096" for off
    proof -
      have "unat b * 4096 + off < ?lo * 4096" "4096 < unat b * 4096 + off"
        using mult_le_mono1 [of "Suc (unat b)" ?lo 4096] b that by simp_all
      then show ?thesis using blk [OF b(2) that] by (simp add: formatted_def zeros_def Let_def)
    qed
    then have "used_bits (disk_of im b) = used_bits (zeros 0)" by (rule used_bits_cong)
    then show ?thesis by simp
  qed
  have place: "unat (INO2BID sb ROOT_INO) = ?lo" "INO2BOFF ROOT_INO = 64"
    by (simp_all add: unat_INO2BID unat_BID INO2BOFF_def ROOT_INO_def)
  have "inode_load (disk_of im (INO2BID sb ROOT_INO)) 64 =
      inode_load (\<lambda>off. inode_store 0 (root_dinode H) (\<lambda>_. 0) (off - 64)) 64"
    by (rule dinode.load_cong) (use im lo in \<open>simp add: disk_of_def place formatted_def Let_def\<close>)
  also have "\<dots> = inode_load (inode_store 0 (root_dinode H) (\<lambda>_. 0)) 0"
    by (simp add: inode_load_def load_blocks_def le32_load_def numeral_2_eq_2)
  also have "\<dots> = root_dinode H"
    by (rule dinode.load_store) (simp add: inode_valid_def root_dinode_def)
  finally show "inode_load (disk_of im (INO2BID sb ROOT_INO)) (INO2BOFF ROOT_INO) = root_dinode H"
    unfolding place(2) .
qed

section \<open>Mounting the formatted device\<close>

lemma least_free:
  assumes "used_bits addr = {..<n}" and "n < BITS_PER_BLOCK"
  shows "used_bits addr \<noteq> {..<BITS_PER_BLOCK}" "unat (alloc_result addr) = n"
proof -
  show neq: "used_bits addr \<noteq> {..<BITS_PER_BLOCK}" using assms by (simp del: layout_consts)
  obtain k where k: "unat (alloc_result addr) = k" "k \<notin> {..<n}" "{..<k} \<subseteq> {..<n}"
    using alloc_run_cases(1) [OF neq] unfolding assms(1) by blast
  have "k = n"
  proof (rule ccontr)
    assume "k \<noteq> n"
    with k(2) have "n \<in> {..<k}" by simp
    then have "n \<in> {..<n}" by (rule subsetD [OF k(3)])
    then show False by simp
  qed
  with k(1) show "unat (alloc_result addr) = n" by simp
qed

lemma zero_two: "{0, 1} = {..<2 :: nat}"
  by auto

text \<open>The state of a kernel that has nothing in memory, over a formatted device.\<close>

lemma formatted_state:
  assumes H: "host_ok H" and dev: "64 \<le> unat bnr" "unat bnr < 2 ^ 32"
  shows "\<exists>v'. format_device H bnr v = Run 0 v' \<and> sb_load (disk_of (img v') 0) = sb_counts bnr \<and>
    magic_ok (disk_of (img v') 0) 0 \<and>
    used_bits (disk_of (img v') (BID_IBP_MIN (sb_counts bnr))) = {..<2} \<and>
    used_bits (disk_of (img v') (BID_DBP_MIN (sb_counts bnr))) = {} \<and>
    dinode_at (sb_counts bnr) (kst_of (disk_of (img v'))) ROOT_INO = root_dinode H"
proof -
  let ?sb = "sb_counts bnr"
  note n = sb_counts_unat [OF dev]
  have pos: "1 \<le> unat (nr_ibp ?sb)" "1 \<le> unat (nr_dbp ?sb)" using n by simp_all
  obtain v' ysb where fmt: "format_device H bnr v = Run 0 v'" "sb_load ysb = ?sb" "magic_ok ysb 0"
    and im: "\<And>x. x < unat (BID_I_MIN ?sb) * 4096 \<or>
         unat (BID_I_MIN ?sb) * 4096 + 64 \<le> x \<and> x < unat (BID_I_MIN ?sb) * 4096 + 128 \<Longrightarrow>
         img v' x = formatted H ?sb ysb x"
    using format_run [OF H refl, of bnr v] pos(1) by blast
  note rd = formatted_reads [OF im pos]
  have "2 \<le> unat (BID_DBP_MIN ?sb)" "unat (BID_DBP_MIN ?sb) < unat (BID_I_MIN ?sb)"
    using pos by (simp_all add: unat_BID)
  then have ud: "used_bits (disk_of (img v') (BID_DBP_MIN ?sb)) = {}" using rd(4) by simp
  have ub: "used_bits (disk_of (img v') (BID_IBP_MIN ?sb)) = {..<2}" using rd(3) unfolding zero_two .
  have "dinode_at ?sb (kst_of (disk_of (img v'))) ROOT_INO = root_dinode H"
    using rd(5) by (simp add: dinode_at_def)
  with fmt rd(1,2) ub ud show ?thesis by (intro exI [of _ v']) simp
qed

section \<open>The exit status\<close>

text \<open>
  A host whose calls never report an error (a \<open>write\<close> may still be short), and one that on top
  of it writes nothing. A step of the tool on such a host keeps \<open>errno\<close> and, on the latter,
  the device.
\<close>

definition quiet :: "host \<Rightarrow> bool" where
  "quiet H \<longleftrightarrow> (\<forall>n. lseek_err H n = None) \<and> (\<forall>n k. \<exists>j. write_res H n k = Inr j)"

definition mute :: "host \<Rightarrow> bool" where
  "mute H \<longleftrightarrow> (\<forall>n k. write_res H n k = Inr 0)"

definition dev_step :: "host \<Rightarrow> dev \<Rightarrow> dev \<Rightarrow> bool" where
  "dev_step H v v' \<longleftrightarrow> (quiet H \<longrightarrow> errno v' = errno v \<and> (mute H \<longrightarrow> img v' = img v))"

definition ends :: "host \<Rightarrow> 'a dc \<Rightarrow> bool" where
  "ends H m \<longleftrightarrow> (\<forall>v. \<exists>x v'. m v = Run x v' \<and> dev_step H v v')"

lemma ends_bnd: "ends H m \<Longrightarrow> (\<And>x. ends H (f x)) \<Longrightarrow> ends H (bnd m f)"
  unfolding ends_def
proof
  fix v
  assume m: "\<forall>v. \<exists>x v'. m v = Run x v' \<and> dev_step H v v'"
    and f: "\<And>x. \<forall>v. \<exists>y v'. f x v = Run y v' \<and> dev_step H v v'"
  obtain x v1 where x: "m v = Run x v1" "dev_step H v v1" using m by blast
  obtain y v2 where y: "f x v1 = Run y v2" "dev_step H v1 v2" using f by blast
  have "dev_step H v v2" using x(2) y(2) by (simp add: dev_step_def)
  then show "\<exists>y v'. bnd m f v = Run y v' \<and> dev_step H v v'" using x(1) y(1) by (simp add: bnd_run)
qed

lemma ends_ret: "ends H (ret x)"
  by (simp add: ends_def dev_step_def)

lemma ends_get_errno: "ends H get_errno"
  by (simp add: ends_def dev_step_def get_errno_def)

lemma ends_lseek: "ends H (lseek H off)"
  by (auto simp: ends_def dev_step_def lseek_def quiet_def split: option.split)

lemma memcpy_none: "memcpy_to 0 off a b = b"
  by (rule ext) (simp add: memcpy_eq)

lemma ends_write: "ends H (sys_write H bytes n)"
  unfolding ends_def
proof
  fix v
  show "\<exists>x v'. sys_write H bytes n v = Run x v' \<and> dev_step H v v'"
  proof (cases "write_res H (calls v) n")
    case (Inl e)
    have "\<not> quiet H"
    proof
      assume "quiet H"
      then have "\<exists>j. write_res H (calls v) n = Inr j" unfolding quiet_def by blast
      with Inl show False by simp
    qed
    with Inl show ?thesis by (simp add: sys_write_def dev_step_def)
  next
    case (Inr k)
    then have "mute H \<Longrightarrow> k = 0" by (simp add: mute_def)
    with Inr show ?thesis by (auto simp: sys_write_def dev_step_def memcpy_none)
  qed
qed

lemma ends_if: "(c \<Longrightarrow> ends H m) \<Longrightarrow> (\<not> c \<Longrightarrow> ends H m') \<Longrightarrow> ends H (if c then m else m')"
  by simp

lemmas ends_intros = ends_bnd ends_if ends_ret ends_get_errno ends_lseek ends_write

lemma ends_zero_blocks: "ends H (zero_blocks H lo i n)"
proof (induction "n - i" arbitrary: i)
  case 0
  then show ?case by (subst zero_blocks.simps) (simp add: ends_ret)
next
  case (Suc k)
  then have "ends H (zero_blocks H lo (Suc i) n)" by simp
  then show ?case by (subst zero_blocks.simps) (intro ends_intros)
qed

lemma set_bits_run:
  "assert_some (yaf_set_bit 0 (of_nat (IDX2BEOFF RESERVED_INO))) = ret 1"
  "assert_some (yaf_set_bit 1 (of_nat (IDX2BEOFF (ucast ROOT_INO)))) = ret 3"
  unfolding set_two_bits by (simp_all add: assert_some_def fun_eq_iff)

lemma ends_parts:
  "ends H (write_superblock H ysb bnr)" "ends H (write_inode_bitmap H ysb)"
  "ends H (write_data_bitmap H ysb)" "ends H (write_inode_blocks H ysb)" "ends H (write_data_blocks H ysb)"
  unfolding write_superblock_def write_inode_bitmap_def write_data_bitmap_def write_inode_blocks_def
    write_data_blocks_def Let_def set_bits_run bnd_ret
  by (intro ends_intros ends_zero_blocks)+

text \<open>The result of the tool is 0 or the \<open>errno\<close> of the end.\<close>

definition status_ok :: "host \<Rightarrow> int dc \<Rightarrow> bool" where
  "status_ok H m \<longleftrightarrow> (\<forall>v. \<exists>r v'. m v = Run r v' \<and> dev_step H v v' \<and> (r = 0 \<or> r = errno v'))"

lemma status_or_errno:
  assumes "ends H m" and "\<And>x. status_ok H (g x)"
  shows "status_ok H (bnd m (\<lambda>x. if P x then get_errno else g x))"
  unfolding status_ok_def
proof
  fix v
  obtain x v1 where x: "m v = Run x v1" "dev_step H v v1" using assms(1) unfolding ends_def by blast
  obtain r v2 where r: "g x v1 = Run r v2" "dev_step H v1 v2" "r = 0 \<or> r = errno v2"
    using assms(2) unfolding status_ok_def by blast
  have "dev_step H v v2" using x(2) r(2) by (simp add: dev_step_def)
  then show "\<exists>r v'. bnd m (\<lambda>x. if P x then get_errno else g x) v = Run r v' \<and> dev_step H v v' \<and>
      (r = 0 \<or> r = errno v')"
    using x r by (simp add: bnd_run get_errno_def)
qed

lemma format_status: "status_ok H (format_device H bnr)"
proof -
  have zero: "status_ok H (ret 0)" by (simp add: status_ok_def dev_step_def)
  have step: "status_ok H (or_errno m n)" if "ends H m" "status_ok H n" for m n
    unfolding or_errno_def by (rule status_or_errno) (use that in simp_all)
  have rest: "status_ok H (or_errno (write_inode_bitmap H ysb) (or_errno (write_data_bitmap H ysb)
      (or_errno (write_inode_blocks H ysb) (or_errno (write_data_blocks H ysb) (ret 0)))))" for ysb
    by (intro step zero ends_parts)
  have "format_device H bnr = bnd (write_superblock H (\<lambda>_. 0) bnr) (\<lambda>x. if fst x \<noteq> 0 then get_errno
      else or_errno (write_inode_bitmap H (snd x)) (or_errno (write_data_bitmap H (snd x))
        (or_errno (write_inode_blocks H (snd x)) (or_errno (write_data_blocks H (snd x)) (ret 0)))))"
    by (rule ext) (simp add: format_device_def bnd_run split: outcome.split)
  then show ?thesis by (simp only:) (rule status_or_errno [OF ends_parts(1) rest])
qed

text \<open>
  C37. The formatting tool always ends. Whatever the system calls answer, the program returns
  (no assertion fails, no loop goes on for ever), and its exit status is 0 or the value of
  \<open>errno\<close> at the end.
\<close>

theorem mkfs_returns: "\<exists>r v'. mkfs_device H v = Run r v' \<and> (r = 0 \<or> r = errno v')"
proof -
  have "\<exists>r v'. format_device H bnr v = Run r v' \<and> (r = 0 \<or> r = errno v')" for bnr
    using format_status [of H bnr] unfolding status_ok_def by blast
  then show ?thesis
    by (auto simp: mkfs_device_def fail_with_def bnd_run set_errno_def get_errno_def
        split: option.split sum.split)
qed

text \<open>
  C38. Short writes go unnoticed. The steps of the tool answer \<open>-EIO\<close> to a short write, but
  \<open>main\<close> replaces every error by \<open>errno\<close>, which a short write does not set: when no call fails
  outright the exit status is 0 however little was written, even if nothing was.
\<close>

theorem mkfs_hides_short_writes:
  assumes "quiet H" and "errno v = 0"
  shows "\<exists>v'. format_device H bnr v = Run 0 v' \<and> (mute H \<longrightarrow> img v' = img v)"
proof -
  obtain r v' where "format_device H bnr v = Run r v'" "dev_step H v v'" "r = 0 \<or> r = errno v'"
    using format_status [of H bnr] unfolding status_ok_def by blast
  then show ?thesis using assms by (auto simp: dev_step_def)
qed

text \<open>A host of which every call gives the result named, and an empty device.\<close>

definition host_of :: "(nat \<Rightarrow> int + nat) \<Rightarrow> host" where
  "host_of w = \<lparr>open_res = None, fstat_res = Inr (False, 1048576), ioctl_res = Inr 0, euid = 0,
     egid = 0, lseek_err = \<lambda>_. None, write_res = \<lambda>_. w\<rparr>"

definition dev0 :: dev where
  "dev0 = \<lparr>img = \<lambda>_. 0, fpos = 0, errno = 0, calls = 0\<rparr>"

theorem mkfs_hides_short_writes_witness:
  "\<exists>v'. format_device (host_of (\<lambda>_. Inr 0)) 256 dev0 = Run 0 v' \<and> img v' = (\<lambda>_. 0)"
  using mkfs_hides_short_writes [of "host_of (\<lambda>_. Inr 0)" dev0 256]
  by (simp add: quiet_def mute_def host_of_def dev0_def)

end
