(* ===== verification/Yaf_Tables.thy ===== *)
theory Yaf_Tables
  imports Yaf_File Yaf_Super
begin

text \<open>
  The operation tables the driver hands to the kernel: records of functions with the fields the
  code sets. A field it leaves NULL is \<open>None\<close> here, and a function of the kernel that it puts into a
  table is a parameter.
\<close>

record inode_operations =
  op_lookup :: "u64 \<Rightarrow> name \<Rightarrow> int kc"
  op_mkdir :: "u64 \<Rightarrow> name \<Rightarrow> u16 \<Rightarrow> int kc"
  op_create :: "u64 \<Rightarrow> name \<Rightarrow> u16 \<Rightarrow> int kc"
  op_rmdir :: "u64 \<Rightarrow> name \<Rightarrow> int kc"
  op_unlink :: "u64 \<Rightarrow> name \<Rightarrow> int kc"

definition yaf_inode_ops :: "env \<Rightarrow> Yaf_Sb_Info \<Rightarrow> inode_operations" where
  "yaf_inode_ops E sb =
     \<lparr>op_lookup = yaf_lookup E sb, op_mkdir = yaf_mkdir E sb, op_create = yaf_create E sb,
      op_rmdir = yaf_rmdir E sb, op_unlink = yaf_unlink E sb\<rparr>"

record address_space_operations =
  op_readahead :: "(get_block \<Rightarrow> unit kc) \<Rightarrow> u64 \<Rightarrow> unit kc"
  op_writepage :: "(get_block \<Rightarrow> int kc) \<Rightarrow> u64 \<Rightarrow> int kc"
  op_write_begin :: "(get_block \<Rightarrow> nat \<Rightarrow> u32 \<Rightarrow> int kc) \<Rightarrow> u64 \<Rightarrow> nat \<Rightarrow> u32 \<Rightarrow> int kc"
  op_write_end :: "(nat \<Rightarrow> u32 \<Rightarrow> u32 \<Rightarrow> int kc) \<Rightarrow> u64 \<Rightarrow> nat \<Rightarrow> u32 \<Rightarrow> u32 \<Rightarrow> int kc"

definition yaf_as_ops :: "env \<Rightarrow> Yaf_Sb_Info \<Rightarrow> address_space_operations" where
  "yaf_as_ops E sb =
     \<lparr>op_readahead = (\<lambda>rd. yaf_readahead rd E sb), op_writepage = (\<lambda>wp. yaf_writepage wp E sb),
      op_write_begin = (\<lambda>wb. yaf_write_begin wb E sb), op_write_end = (\<lambda>we. yaf_write_end we E)\<rparr>"

text \<open>The operations on open files; \<open>'g\<close> stands for the functions of the kernel.\<close>

record 'g file_operations =
  op_read_iter :: "'g option"
  op_write_iter :: "'g option"
  op_llseek :: "'g option"
  op_iterate_shared :: "(actor \<Rightarrow> u64 \<Rightarrow> u64 \<Rightarrow> dctx \<Rightarrow> (int \<times> dctx) kc) option"

definition yaf_file_ops :: "'g \<Rightarrow> 'g \<Rightarrow> 'g \<Rightarrow> 'g file_operations" where
  "yaf_file_ops generic_file_read_iter generic_file_write_iter generic_file_llseek =
     \<lparr>op_read_iter = Some generic_file_read_iter, op_write_iter = Some generic_file_write_iter,
      op_llseek = Some generic_file_llseek, op_iterate_shared = None\<rparr>"

definition yaf_dir_ops :: "env \<Rightarrow> Yaf_Sb_Info \<Rightarrow> 'g file_operations" where
  "yaf_dir_ops E sb =
     \<lparr>op_read_iter = None, op_write_iter = None, op_llseek = None,
      op_iterate_shared = Some (yaf_iterate_shared E sb)\<rparr>"

text \<open>The operations on the superblock, over the state \<open>'m\<close> of the slab cache and its objects \<open>'p\<close>.\<close>

record ('p, 'm) super_operations =
  op_alloc_inode :: "'m \<Rightarrow> (int + 'p, 'm) outcome"
  op_destroy_inode :: "'p \<Rightarrow> 'm \<Rightarrow> (unit, 'm) outcome"
  op_write_inode :: "u64 \<Rightarrow> int kc"

definition yaf_super_ops ::
  "('m \<Rightarrow> ('p option, 'm) outcome) \<Rightarrow> ('p \<Rightarrow> 'm \<Rightarrow> (unit, 'm) outcome) \<Rightarrow> env \<Rightarrow> Yaf_Sb_Info \<Rightarrow>
   ('p, 'm) super_operations" where
  "yaf_super_ops kmem_cache_alloc kmem_cache_free E sb =
     \<lparr>op_alloc_inode = yaf_alloc_inode kmem_cache_alloc, op_destroy_inode = yaf_destroy_inode kmem_cache_free,
      op_write_inode = yaf_write_inode E sb\<rparr>"

text \<open>The file system type: its name "yaf", and what mounts and shuts down an instance.\<close>

record file_system_type =
  fst_name :: name
  fst_mount :: "env \<Rightarrow> bool \<Rightarrow> bool \<Rightarrow> mount \<Rightarrow> (int + u64, mount) outcome"
  fst_kill_sb :: "mount \<Rightarrow> (unit, mount) outcome"

definition yaf_file_system_type ::
  "((mount \<Rightarrow> (int, mount) outcome) \<Rightarrow> mount \<Rightarrow> (int + u64, mount) outcome) \<Rightarrow>
   (mount \<Rightarrow> (unit, mount) outcome) \<Rightarrow> file_system_type" where
  "yaf_file_system_type mount_bdev kill_block_super =
     \<lparr>fst_name = [121, 97, 102], fst_mount = yaf_mount mount_bdev, fst_kill_sb = yaf_kill_sb kill_block_super\<rparr>"

lemma table_simps [simp]:
  "op_lookup (yaf_inode_ops E sb) = yaf_lookup E sb" "op_mkdir (yaf_inode_ops E sb) = yaf_mkdir E sb"
  "op_create (yaf_inode_ops E sb) = yaf_create E sb" "op_rmdir (yaf_inode_ops E sb) = yaf_rmdir E sb"
  "op_unlink (yaf_inode_ops E sb) = yaf_unlink E sb"
  "op_write_begin (yaf_as_ops E sb) wb = yaf_write_begin wb E sb"
  "op_write_end (yaf_as_ops E sb) we = yaf_write_end we E"
  "op_write_inode (yaf_super_ops ka kf E sb) = yaf_write_inode E sb"
  by (simp_all add: yaf_inode_ops_def yaf_as_ops_def yaf_super_ops_def)

end
