(* ===== verification/Yaf_Run.thy ===== *)
theory Yaf_Run
  imports Yaf_Change Yaf_Format Yaf_Tables
begin

text \<open>
  The requests of the kernel, the code that serves them, and their specification on abstract
  file systems: every request that \<open>allowed\<close> admits, made in a state that satisfies the invariant, is
  served, as specified, and leads to such a state again.
\<close>

section \<open>Requests\<close>

text \<open>
  The first five are the entries of \<open>yaf_inode_ops\<close>; \<open>Extend\<close> is the mapping of a block for
  writing, \<open>Resize\<close> and \<open>Store\<close> the kernel's part of a write, \<open>Sync\<close> the write-back of an inode,
  \<open>Evict\<close> and \<open>Drop\<close> the shrinking of the inode and dentry caches.
\<close>

datatype request =
    Create u64 name u16 | Mkdir u64 name u16 | Lookup u64 name
  | Unlink u64 name u64 | Rmdir u64 name u64
  | Extend u64 u64 | Resize u64 nat | Store u64 nat block
  | Sync u64 | Evict u64 | Drop u64 name

definition then_forget :: "u64 \<Rightarrow> name \<Rightarrow> u64 \<Rightarrow> int kc \<Rightarrow> int kc" where
  "then_forget dir nm ino op = bnd op (\<lambda>r s. Run r (if r = 0 then forget dir nm ino s else s))"

fun serve :: "env \<Rightarrow> Yaf_Sb_Info \<Rightarrow> request \<Rightarrow> int kc" where
  "serve E sb (Create dir nm mode) = op_create (yaf_inode_ops E sb) dir nm mode"
| "serve E sb (Mkdir dir nm mode) = op_mkdir (yaf_inode_ops E sb) dir nm mode"
| "serve E sb (Lookup dir nm) = op_lookup (yaf_inode_ops E sb) dir nm"
| "serve E sb (Unlink dir nm ino) = then_forget dir nm ino (op_unlink (yaf_inode_ops E sb) dir nm)"
| "serve E sb (Rmdir dir nm ino) = then_forget dir nm ino (op_rmdir (yaf_inode_ops E sb) dir nm)"
| "serve E sb (Extend ino blk) = bnd (yaf_get_block E sb ino blk True) (\<lambda>r. ret (fst r))"
| "serve E sb (Resize ino sz) = bnd (set_size ino sz) (\<lambda>_. ret 0)"
| "serve E sb (Store ino j blk) =
     bnd (get_inode ino) (\<lambda>v.
     bnd (set_b_data (DNO2BID sb (i_block v ! j)) blk) (\<lambda>_.
     bnd (mark_page_dirty (DNO2BID sb (i_block v ! j))) (\<lambda>_. ret 0)))"
| "serve E sb (Sync ino) = sync_inode E sb ino"
| "serve E sb (Evict ino) = (\<lambda>s. Run 0 (s\<lparr>icache := (icache s)(ino := None)\<rparr>))"
| "serve E sb (Drop dir nm) = (\<lambda>s. Run 0 (s\<lparr>dcache := (dcache s)((dir, nm) := None)\<rparr>))"

text \<open>
  The requests the theorems cover. This is less than the virtual file system may ask for. Part of it is
  what the kernel does by itself: a name is removed
  through its dentry, an inode of the right type; blocks are mapped, sized and stored for files
  within their bounds; only clean inodes without dentries are dropped. The rest is not guaranteed by
  anyone. Creation needs room in the directory and an inode number and a data block that the first block of
  either bitmap has left, and the mapping of a block needs such data blocks; and a name is not looked up
  while its inode is in memory and dirty. What the code does outside of this is shown in
  \<open>Yaf_Inode\<close>, \<open>Yaf_File\<close> and \<open>Yaf_DirCreate\<close>.
\<close>

definition is_dir :: "kst \<Rightarrow> u64 \<Rightarrow> bool" where
  "is_dir s ino \<longleftrightarrow> (\<exists>v. icache s ino = Some v \<and> S_ISDIR (i_mode v))"

definition is_file :: "kst \<Rightarrow> u64 \<Rightarrow> bool" where
  "is_file s ino \<longleftrightarrow> (\<exists>v. icache s ino = Some v \<and> \<not> S_ISDIR (i_mode v))"

definition blocks_used :: "kst \<Rightarrow> u64 \<Rightarrow> nat" where
  "blocks_used s ino = (case icache s ino of Some v \<Rightarrow> used_blocks (i_block v) 0 | None \<Rightarrow> 0)"

definition too_long :: "name \<Rightarrow> bool" where
  "too_long nm \<longleftrightarrow> YAF_DENTRY_NAME_LEN < length nm"

fun allowed :: "Yaf_Sb_Info \<Rightarrow> kst \<Rightarrow> request \<Rightarrow> bool" where
  "allowed sb s (Create dir nm mode) = (too_long nm \<or> may_create sb s dir nm mode)"
| "allowed sb s (Mkdir dir nm mode) = (too_long nm \<or> may_create sb s dir nm mode)"
| "allowed sb s (Lookup dir nm) = (too_long nm \<or> valid_name nm \<and> (\<exists>d. icache s dir = Some d \<and> S_ISDIR (i_mode d) \<and>
     (\<forall>i. dir_map sb s d nm = Some i \<longrightarrow> icache s (ucast i) = None \<or> ucast i \<notin> idirty s)))"
| "allowed sb s (Unlink dir nm ino) = (valid_name nm \<and> dcache s (dir, nm) = Some (Some ino) \<and> is_file s ino)"
| "allowed sb s (Rmdir dir nm ino) = (valid_name nm \<and> dcache s (dir, nm) = Some (Some ino) \<and> is_dir s ino)"
| "allowed sb s (Extend ino blk) = (is_file s ino \<and> unat blk < YAF_IBLOCKS \<and>
     Suc (unat blk) - blocks_used s ino \<le> card (free_dblocks sb s))"
| "allowed sb s (Resize ino sz) = (is_file s ino \<and> sz \<le> YAF_BLOCK_SIZE * blocks_used s ino)"
| "allowed sb s (Store ino j blk) = (is_file s ino \<and> j < blocks_used s ino)"
| "allowed sb s (Sync ino) = (icache s ino \<noteq> None)"
| "allowed sb s (Evict ino) = (icache s ino \<noteq> None \<and> ino \<notin> idirty s \<and> (\<forall>nm. dcache s (ino, nm) = None) \<and>
     (\<forall>k. dcache s k \<noteq> Some (Some ino)))"
| "allowed sb s (Drop dir nm) = True"

text \<open>What a request does to the abstract file system, and the result it has.\<close>

definition adds :: "afs \<Rightarrow> u64 \<Rightarrow> name \<Rightarrow> anode \<Rightarrow> afs \<Rightarrow> bool" where
  "adds a dir nm nd a' \<longleftrightarrow> (\<exists>m i. a dir = Some (Dir m) \<and> m nm = None \<and> a (ucast i) = None \<and>
     a' = a(dir := Some (Dir (m(nm := Some i))), ucast i := Some nd))"

definition removes :: "afs \<Rightarrow> u64 \<Rightarrow> name \<Rightarrow> u64 \<Rightarrow> afs \<Rightarrow> bool" where
  "removes a dir nm ino a' \<longleftrightarrow> (\<exists>m i. a dir = Some (Dir m) \<and> m nm = Some i \<and> ucast i = ino \<and>
     a' = a(dir := Some (Dir (m(nm := None))), ino := None))"

definition unless_too_long :: "name \<Rightarrow> int \<Rightarrow> bool \<Rightarrow> bool \<Rightarrow> bool" where
  "unless_too_long nm r same effect \<longleftrightarrow> (if too_long nm then r = - ENAMETOOLONG \<and> same else r = 0 \<and> effect)"

fun spec_of :: "request \<Rightarrow> afs \<Rightarrow> int \<Rightarrow> afs \<Rightarrow> bool" where
  "spec_of (Create dir nm mode) a r a' = unless_too_long nm r (a' = a) (adds a dir nm (File []) a')"
| "spec_of (Mkdir dir nm mode) a r a' = unless_too_long nm r (a' = a) (adds a dir nm (Dir Map.empty) a')"
| "spec_of (Lookup dir nm) a r a' = unless_too_long nm r (a' = a) (a' = a)"
| "spec_of (Unlink dir nm ino) a r a' = (r = 0 \<and> (\<exists>n. a ino = Some (File n)) \<and> removes a dir nm ino a')"
| "spec_of (Rmdir dir nm ino) a r a' =
     (if a ino = Some (Dir Map.empty) then r = 0 \<and> removes a dir nm ino a' else r = - ENOTEMPTY \<and> a' = a)"
| "spec_of (Resize ino sz) a r a' = (r = 0 \<and> (\<exists>d d'. a ino = Some (File d) \<and> length d' = sz \<and>
     take (length d) d' = take sz d \<and> a' = a(ino := Some (File d'))))"
| "spec_of (Store ino j blk) a r a' =
     (r = 0 \<and> (\<exists>d. a ino = Some (File d) \<and> a' = a(ino := Some (File (put_block j blk d)))))"
| "spec_of _ a r a' = (r = 0 \<and> a' = a)"

lemma adds_step: "adds a dir nm nd a' \<Longrightarrow> nd = File [] \<or> nd = Dir Map.empty \<Longrightarrow> a_step a a'"
  unfolding adds_def by (elim exE conjE) (simp only:, rule a_create, assumption+)

lemma removes_step:
  "removes a dir nm ino a' \<Longrightarrow> a ino = Some (Dir Map.empty) \<or> (\<exists>n. a ino = Some (File n)) \<Longrightarrow> a_step a a'"
  unfolding removes_def by (elim exE conjE) (hypsubst, rule a_remove)

text \<open>The specification is made of steps of the abstract file system.\<close>

lemma spec_step: "spec_of q a r a' \<Longrightarrow> a_step a a'"
  by (cases q) (auto simp: unless_too_long_def intro: adds_step removes_step a_write a_stay split: if_splits)

section \<open>Every allowed request is served\<close>

lemma rmdir_not_empty:
  assumes "dcache s (dir, nm) = Some (Some ino)" and "icache s ino = Some v" and "1 < i_nlink v"
  shows "serve E sb (Rmdir dir nm ino) s = Run (- ENOTEMPTY) s"
  using assms by (simp add: then_forget_def yaf_rmdir_def yaf_exec ENOTEMPTY_def)

lemma dir_view_empty:
  assumes "node_ok sb s v" and "S_ISDIR (i_mode v)"
  shows "view sb s v = Dir Map.empty \<longleftrightarrow> i_nlink v \<le> 1"
proof -
  have n: "unat (i_nlink v) = Suc (live_count (dslot sb s v) (nslots v))"
    using assms by (simp add: node_ok_def dir_inv_def)
  have "view sb s v = Dir Map.empty \<longleftrightarrow> live_count (dslot sb s v) (nslots v) = 0"
    by (simp only: view_dir [OF assms(2)] dir_map_def anode.inject entry_map_empty)
  also have "\<dots> \<longleftrightarrow> i_nlink v \<le> 1" using n by (simp add: word_le_nat_alt)
  finally show ?thesis .
qed

lemma removal_served:
  assumes inv: "fs_inv sb s" and dev: "device_ok E sb" and nm: "valid_name nm"
    and dc: "dcache s (dir, nm) = Some (Some ino)" and v: "icache s ino = Some v"
    and op: "op = yaf_unlink \<and> \<not> S_ISDIR (i_mode v) \<or> op = yaf_rmdir \<and> S_ISDIR (i_mode v) \<and> i_nlink v \<le> 1"
  shows "\<exists>s'. then_forget dir nm ino (op E sb dir nm) s = Run 0 s' \<and> fs_inv sb s' \<and>
    removes (afs_of sb s) dir nm ino (afs_of sb s')"
proof -
  obtain s1 m i where "op E sb dir nm s = Run 0 s1" "fs_inv sb (forget dir nm ino s1)"
      "afs_of sb s dir = Some (Dir m)" "m nm = Some i" "ucast i = ino"
      "afs_of sb (forget dir nm ino s1) = (afs_of sb s)(dir := Some (Dir (m(nm := None))), ino := None)"
    using remove_step [OF inv dev nm dc v op] by blast
  then show ?thesis
    by (intro exI [of _ "forget dir nm ino s1"]) (auto simp: then_forget_def bnd_run removes_def)
qed

lemma creation_served:
  assumes inv: "fs_inv sb s" and dev: "device_ok E sb" and own: "owner_ok E" and may: "may_create sb s dir nm mode"
    and op: "op = yaf_create \<and> fmt = S_IFREG \<or> op = yaf_mkdir \<and> fmt = S_IFDIR"
  shows "\<exists>s'. op E sb dir nm mode s = Run 0 s' \<and> fs_inv sb s' \<and>
    adds (afs_of sb s) dir nm (if fmt = S_IFDIR then Dir Map.empty else File []) (afs_of sb s')"
  using create_system [OF assms] unfolding adds_def by blast

lemma file_entry:
  assumes "fs_inv sb s" and "is_file s ino"
  obtains v where "icache s ino = Some v" "\<not> S_ISDIR (i_mode v)" "afs_of sb s ino = Some (File (file_data sb s v))"
proof -
  obtain v where v: "icache s ino = Some v" "\<not> S_ISDIR (i_mode v)" using assms(2) by (auto simp: is_file_def)
  with cached_node(4) [OF assms(1) v(1)] show thesis by (intro that) (simp_all add: view_def)
qed

lemma rmdir_served:
  assumes inv: "fs_inv sb s" and dev: "device_ok E sb" and ok: "allowed sb s (Rmdir dir nm ino)"
  shows "\<exists>r s'. serve E sb (Rmdir dir nm ino) s = Run r s' \<and> fs_inv sb s' \<and>
    spec_of (Rmdir dir nm ino) (afs_of sb s) r (afs_of sb s')"
proof -
  obtain v where v: "icache s ino = Some v" "S_ISDIR (i_mode v)"
      and dc: "dcache s (dir, nm) = Some (Some ino)" "valid_name nm" using ok by (auto simp: is_dir_def)
  have at: "afs_of sb s ino = Some (Dir Map.empty) \<longleftrightarrow> i_nlink v \<le> 1"
    using cached_node(3,4) [OF inv v(1)] dir_view_empty [OF _ v(2)] by simp
  show ?thesis
  proof (cases "i_nlink v \<le> 1")
    case True
    then show ?thesis
      using removal_served [OF inv dev dc(2,1) v(1), of yaf_rmdir] v(2) at by auto
  next
    case False
    then have "serve E sb (Rmdir dir nm ino) s = Run (- ENOTEMPTY) s"
      by (intro rmdir_not_empty [OF dc(1) v(1)]) (simp add: not_le)
    then show ?thesis using False at inv by auto
  qed
qed

lemma file_served:
  assumes inv: "fs_inv sb s" and dev: "device_ok E sb" and ok: "allowed sb s q"
    and q: "q = Extend ino blk \<or> q = Resize ino sz \<or> q = Store ino j data"
  shows "\<exists>r s'. serve E sb q s = Run r s' \<and> fs_inv sb s' \<and> spec_of q (afs_of sb s) r (afs_of sb s')"
proof -
  have "is_file s ino" using q ok by auto
  then obtain v where v: "icache s ino = Some v" "\<not> S_ISDIR (i_mode v)" and at: "afs_of sb s ino = Some (File (file_data sb s v))"
    by (rule file_entry [OF inv])
  consider "q = Extend ino blk" | "q = Resize ino sz" | "q = Store ino j data" using q by blast
  then show ?thesis
  proof cases
    case 1
    then have "unat blk < YAF_IBLOCKS" "Suc (unat blk) - used_blocks (i_block v) 0 \<le> card (free_dblocks sb s)"
      using ok v(1) by (simp_all add: blocks_used_def)
    from get_block_step [OF inv dev v this] obtain s' b where "yaf_get_block E sb ino blk True s = Run (0, Some b) s'"
        "fs_inv sb s'" "afs_of sb s' = afs_of sb s" by blast
    then show ?thesis using 1 by (simp add: bnd_run)
  next
    case 2
    then obtain s' where "set_size ino sz s = Run () s'" "fs_inv sb s'"
        "\<exists>d'. length d' = sz \<and> take (i_size v) d' = take sz (file_data sb s v) \<and>
          afs_of sb s' = (afs_of sb s)(ino := Some (File d'))"
      using set_size_step [OF inv v, of sz] ok v(1) by (auto simp: blocks_used_def)
    moreover have "length (file_data sb s v) = i_size v" by (simp add: file_data_def)
    ultimately show ?thesis using 2 at by (simp add: bnd_run)
  next
    case 3
    let ?b = "DNO2BID sb (i_block v ! j)"
    obtain s1 s' where s': "set_b_data ?b data s = Run () s1" "mark_page_dirty ?b s1 = Run () s'"
      by (simp add: set_b_data_def mark_page_dirty_def)
    have "fs_inv sb s1 \<and> afs_of sb s1 = (afs_of sb s)(ino := Some (File (put_block j data (file_data sb s v))))"
      using data_step [OF inv v _ s'(1)] ok v(1) 3 by (simp add: blocks_used_def)
    then show ?thesis
      using mark_step [OF _ s'(2)] s' v(1) at 3 by (simp add: bnd_run inode_run)
  qed
qed

lemma long_name:
  assumes "too_long nm"
  shows "op_create (yaf_inode_ops E sb) dir nm mode s = Run (- ENAMETOOLONG) s"
    and "op_mkdir (yaf_inode_ops E sb) dir nm mode s = Run (- ENAMETOOLONG) s"
    and "op_lookup (yaf_inode_ops E sb) dir nm s = Run (- ENAMETOOLONG) s"
  using assms by (simp_all add: too_long_def yaf_create_def yaf_mkdir_def do_yaf_create_def yaf_lookup_def do_yaf_lookup_def
      bnd_run errno_defs)

lemma request_served:
  assumes inv: "fs_inv sb s" and dev: "device_ok E sb" and own: "owner_ok E" and ok: "allowed sb s q"
  shows "\<exists>r s'. serve E sb q s = Run r s' \<and> fs_inv sb s' \<and> spec_of q (afs_of sb s) r (afs_of sb s')"
proof (cases q)
  case (Create dir nm mode)
  have "S_IFREG \<noteq> S_IFDIR" by (simp add: S_IFREG_def S_IFDIR_def)
  then show ?thesis
    using creation_served [OF inv dev own, of dir nm mode yaf_create S_IFREG] long_name [of nm] inv ok Create
    by (cases "too_long nm") (simp_all add: unless_too_long_def)
next
  case (Mkdir dir nm mode)
  then show ?thesis
    using creation_served [OF inv dev own, of dir nm mode yaf_mkdir S_IFDIR] long_name [of nm] inv ok
    by (cases "too_long nm") (simp_all add: unless_too_long_def)
next
  case (Lookup dir nm)
  then show ?thesis
    using lookup_step [OF inv dev] long_name [of nm] inv ok
    by (cases "too_long nm") (auto simp: unless_too_long_def)
next
  case (Unlink dir nm ino)
  then have "is_file s ino" using ok by simp
  then obtain v where "icache s ino = Some v" "\<not> S_ISDIR (i_mode v)" "afs_of sb s ino = Some (File (file_data sb s v))"
    by (rule file_entry [OF inv])
  then show ?thesis
    using removal_served [OF inv dev, of nm dir ino v yaf_unlink] ok Unlink by auto
next
  case (Rmdir dir nm ino)
  then show ?thesis using rmdir_served [OF inv dev] ok by blast
next
  case (Sync ino)
  then show ?thesis using sync_step [OF inv dev] ok by fastforce
next
  case (Evict ino)
  then have ok': "icache s ino \<noteq> None" "ino \<notin> idirty s" "\<And>nm. dcache s (ino, nm) = None"
      "\<And>k. dcache s k \<noteq> Some (Some ino)"
    using ok unfolding Evict allowed.simps by blast+
  obtain v where "icache s ino = Some v" using ok'(1) by blast
  from evict_step [OF inv this ok'(2-4) refl] show ?thesis using Evict by simp
next
  case (Drop dir nm)
  then show ?thesis using drop_dentry_step [OF inv refl] by simp
qed (use file_served [OF inv dev ok] in blast)+

section \<open>Mounting\<close>

text \<open>Mounting loads the root inode and changes nothing else.\<close>

lemma mount_loads:
  assumes sb: "sb_load (disk s 0) = sb" "magic_ok (disk s 0) 0" and dev: "device_ok E sb"
    and root: "ino_ok sb ROOT_INO" "icache s ROOT_INO = None" "inew s = {}"
  shows "\<exists>w m'. yaf_fill_super E True True (unmounted s) = Run 0 m' \<and> s_fs_info m' = Some sb \<and>
    s_root m' = Some ROOT_INO \<and> icache (ks m') = (icache s)(ROOT_INO := Some (fill_inode (dinode_at sb s ROOT_INO) w)) \<and>
    disk (ks m') = disk s \<and> refs (ks m') = refs s \<and> inew (ks m') = inew s \<and> idirty (ks m') = idirty s \<and>
    dcache (ks m') = dcache s"
proof -
  have ks: "ks (unmounted s) = s" by (simp add: unmounted_def)
  have "bread_ok E (tick s) 0" "\<And>t. iget_ok E t ROOT_INO" using dev by (simp_all add: device_ok_def)
  moreover have "bread_ok E t (INO2BID sb ROOT_INO)" for t by (rule device_readable(4) [OF dev root(1)])
  ultimately show ?thesis
    using fill_super_ok [of E "unmounted s" True] sb root unfolding ks by auto
qed

lemma mount_inv:
  assumes inv: "fs_inv sb s" and dev: "device_ok E sb" and none: "icache s ROOT_INO = None"
  shows "\<exists>m' d. yaf_fill_super E True True (unmounted s) = Run 0 m' \<and> s_fs_info m' = Some sb \<and>
    s_root m' = Some ROOT_INO \<and> fs_inv sb (ks m') \<and> afs_of sb (ks m') = afs_of sb s \<and>
    icache (ks m') = (icache s)(ROOT_INO := Some d) \<and> S_ISDIR (i_mode d) \<and> disk (ks m') = disk s \<and>
    inew (ks m') = {} \<and> dcache (ks m') = dcache s"
proof -
  obtain r where at: "afs_of sb s ROOT_INO = Some (Dir r)" using tree_okD(1) [OF fs_invD(8) [OF inv]] by blast
  then have live: "live sb s ROOT_INO" by (simp add: afs_of_def split: if_splits)
  obtain w m' where mnt: "yaf_fill_super E True True (unmounted s) = Run 0 m'" "s_fs_info m' = Some sb"
      "s_root m' = Some ROOT_INO"
      "icache (ks m') = (icache s)(ROOT_INO := Some (fill_inode (dinode_at sb s ROOT_INO) w))"
      "disk (ks m') = disk s" "refs (ks m') = refs s" "inew (ks m') = inew s" "idirty (ks m') = idirty s"
      "dcache (ks m') = dcache s"
    using mount_loads [OF _ _ dev nodes_okD(1) [OF fs_invD(5) [OF inv] live] none fs_invD(2) [OF inv]]
      fs_invD(9) [OF inv] by (auto simp: super_ok_def)
  have move: "cache_move sb s (idirty (ks m')) i (icache (ks m') i)" for i
    using cache_move.loaded [OF disjI1 [OF none] live] cache_move.stays [of sb s _ i] by (simp add: mnt(4))
  have dent: "dentry_in (afs_of sb s) (ks m') dir nm x" if "dcache (ks m') (dir, nm) = Some x" for dir nm x
    using that by (intro old_dentry [OF inv]) (simp_all add: mnt(4,9))
  have new: "fs_inv sb (ks m')" "afs_of sb (ks m') = afs_of sb s"
    using cache_step [OF inv mnt(5-7) _ move dent] mnt(8) by simp_all
  let ?d = "fill_inode (dinode_at sb s ROOT_INO) w"
  have "view sb (ks m') ?d = Dir r"
    using cached_node(4) [OF new(1), of ROOT_INO ?d] at by (simp add: mnt(4) new(2))
  then have "S_ISDIR (i_mode ?d)" by (simp add: view_def split: if_splits)
  with mnt new show ?thesis
    using fs_invD(2) [OF inv] by (intro exI [of _ m'] exI [of _ ?d]) simp
qed

text \<open>A formatted device holds the tree of an empty root directory.\<close>

lemma formatted_inv:
  assumes H: "host_ok H" and dev: "64 \<le> unat bnr" "unat bnr < 2 ^ 32"
  shows "\<exists>v'. format_device H bnr v = Run 0 v' \<and> fs_inv (sb_counts bnr) (kst_of (disk_of (img v'))) \<and>
    afs_of (sb_counts bnr) (kst_of (disk_of (img v'))) = [ROOT_INO \<mapsto> Dir Map.empty] \<and>
    used_bits (disk_of (img v') (BID_IBP_MIN (sb_counts bnr))) = {..<2} \<and>
    used_bits (disk_of (img v') (BID_DBP_MIN (sb_counts bnr))) = {}"
proof -
  let ?sb = "sb_counts bnr"
  note ok = counts_ok [OF dev]
  obtain v' where f: "format_device H bnr v = Run 0 v'" "sb_load (disk_of (img v') 0) = ?sb"
      "magic_ok (disk_of (img v') 0) 0" "used_bits (disk_of (img v') (BID_IBP_MIN ?sb)) = {..<2}"
      "used_bits (disk_of (img v') (BID_DBP_MIN ?sb)) = {}"
      "dinode_at ?sb (kst_of (disk_of (img v'))) ROOT_INO = root_dinode H"
    using formatted_state [OF H dev, of v] by blast
  let ?s = "kst_of (disk_of (img v'))"
  have live: "live ?sb ?s i \<longleftrightarrow> i = ROOT_INO" for i
  proof -
    have "live ?sb ?s i \<longleftrightarrow> 0 < unat i \<and> unat i < 2" by (simp add: live_def f(4))
    also have "\<dots> \<longleftrightarrow> unat i = unat ROOT_INO" by (auto simp: ROOT_INO_def)
    also have "\<dots> \<longleftrightarrow> i = ROOT_INO" using word_unatI by blast
    finally show ?thesis .
  qed
  let ?d = "disk_node ?sb ?s ROOT_INO"
  have nd: "node ?sb ?s ROOT_INO = ?d" by (simp add: node_def)
  have d: "i_mode ?d = 0x41FF" "i_size ?d = 0" "i_nlink ?d = 1" "i_block ?d = replicate YAF_IBLOCKS RESERVED_DNO"
    using f(6) by (simp_all add: disk_node_def root_dinode_def)
  have dir: "S_ISDIR (i_mode ?d)" using d(1) by (simp add: S_ISDIR_def S_IFMT_def S_IFDIR_def)
  have nodes: "nodes_ok ?sb ?s"
    unfolding nodes_ok_def live using dir ok(2) fresh_dir_inv(1) [OF d(2-4)] by (simp add: nd node_ok_def)
  have afs: "afs_of ?sb ?s = [ROOT_INO \<mapsto> Dir Map.empty]"
    by (rule ext) (simp add: afs_of_def live nd view_dir [OF dir] fresh_dir_inv(2) [OF d(2-4)])
  have "fs_inv ?sb ?s"
    by (rule fs_invI [OF ok(1) _ _ _ _ nodes])
      (simp_all add: f super_ok_def clean_ok_def dentries_ok_def afs tree_empty)
  with f afs show ?thesis by blast
qed

lemma owner_env0: "owner_ok env0"
  by (simp add: owner_ok_def)

text \<open>
  The device the formatting tool wrote, mounted: an empty root directory, inode 2 and data block 0
  unused.
\<close>

lemma format_mount:
  assumes "host_ok H" and "64 \<le> unat bnr" and "unat bnr < 2 ^ 32" and dev: "device_ok E (sb_counts bnr)"
  shows "\<exists>v' m' d. format_device H bnr v = Run 0 v' \<and>
    yaf_fill_super E True True (unmounted (kst_of (disk_of (img v')))) = Run 0 m' \<and>
    s_fs_info m' = Some (sb_counts bnr) \<and> s_root m' = Some ROOT_INO \<and> fs_inv (sb_counts bnr) (ks m') \<and>
    afs_of (sb_counts bnr) (ks m') = [ROOT_INO \<mapsto> Dir Map.empty] \<and>
    icache (ks m') = [ROOT_INO \<mapsto> d] \<and> S_ISDIR (i_mode d) \<and> dcache (ks m') = Map.empty \<and>
    used_bits (disk (ks m') (BID_IBP_MIN (sb_counts bnr))) = {..<2} \<and>
    used_bits (disk (ks m') (BID_DBP_MIN (sb_counts bnr))) = {..<0} \<and> disk (ks m') = disk_of (img v')"
proof -
  let ?sb = "sb_counts bnr"
  obtain v' where v': "format_device H bnr v = Run 0 v'" "fs_inv ?sb (kst_of (disk_of (img v')))"
      "afs_of ?sb (kst_of (disk_of (img v'))) = [ROOT_INO \<mapsto> Dir Map.empty]"
      "used_bits (disk_of (img v') (BID_IBP_MIN ?sb)) = {..<2}"
      "used_bits (disk_of (img v') (BID_DBP_MIN ?sb)) = {..<0}"
    using formatted_inv [OF assms(1-3), of v] by auto
  have none: "icache (kst_of (disk_of (img v'))) ROOT_INO = None" by simp
  obtain m' d where m': "yaf_fill_super E True True (unmounted (kst_of (disk_of (img v')))) = Run 0 m'"
      "s_fs_info m' = Some ?sb" "s_root m' = Some ROOT_INO" "fs_inv ?sb (ks m')"
      "afs_of ?sb (ks m') = afs_of ?sb (kst_of (disk_of (img v')))"
      "icache (ks m') = (icache (kst_of (disk_of (img v'))))(ROOT_INO := Some d)" "S_ISDIR (i_mode d)"
      "disk (ks m') = disk (kst_of (disk_of (img v')))" "dcache (ks m') = dcache (kst_of (disk_of (img v')))"
    using mount_inv [OF v'(2) dev none] by (elim exE conjE) (rule that, assumption+)
  have afs: "afs_of ?sb (ks m') = [ROOT_INO \<mapsto> Dir Map.empty]" using m'(5) v'(3) by (rule trans)
  show ?thesis
    by (rule exI [of _ v'], rule exI [of _ m'], rule exI [of _ d], intro conjI)
      (use v'(1,4,5) m' afs in simp_all)
qed

text \<open>Then a file can be created in the root, once its name was looked up.\<close>

lemma formatted_counts:
  fixes bnr :: u64
  assumes "64 \<le> unat bnr" and "unat bnr < 2 ^ 32"
  shows "ino_ok (sb_counts bnr) 2" "0 < nr_d (sb_counts bnr)" "2 < unat (nr_d (sb_counts bnr))"
proof -
  obtain K B where KB: "K = unat bnr div 64" "B = (unat bnr div 64 * 64 + 32767) div 32768" by blast
  note n = sb_counts_unat [OF assms, folded KB]
  show "ino_ok (sb_counts bnr) 2" using n by (simp add: ino_ok_def)
  show "2 < unat (nr_d (sb_counts bnr))" using n by linarith
  then show "0 < nr_d (sb_counts bnr)" by (simp add: word_less_nat_alt)
qed

lemma empty_root_available:
  assumes ibp: "used_bits (disk s (BID_IBP_MIN sb)) = {..<2}" and dbp: "used_bits (disk s (BID_DBP_MIN sb)) = {..<0}"
    and sb: "ino_ok sb 2" "0 < nr_d sb" and fresh: "inew s = {}" "icache s 2 = None"
  shows "inode_available sb s 2" "dblock_available sb s"
  using least_free [OF ibp] least_free [OF dbp] sb fresh
  by (simp_all add: inode_available_def dblock_available_def word_less_nat_alt)

lemma empty_root_may_create:
  assumes inv: "fs_inv sb s" and d: "icache s dir = Some d" "S_ISDIR (i_mode d)"
    and at: "afs_of sb s dir = Some (Dir Map.empty)" and nm: "dcache s (dir, nm) = Some None" "valid_name nm"
    and mode: "mode AND S_IFMT = 0" and room: "inode_available sb s ino" "dblock_available sb s"
  shows "may_create sb s dir nm mode"
proof -
  have "view sb s d = Dir Map.empty" using cached_node(4) [OF inv d(1)] at by simp
  then have "live_count (dslot sb s d) (nslots d) = 0"
    by (simp add: view_dir [OF d(2)] dir_map_def entry_map_empty)
  then have "\<forall>k<nslots d. d_ino (dslot sb s d k) = RESERVED_INO" by (auto simp: live_count_def)
  then have "has_room sb s d" by (auto simp: has_room_def not_less intro!: exI [of _ 0])
  with assms show ?thesis by (auto simp: may_create_def)
qed

text \<open>The sample device of 256 blocks, formatted and mounted.\<close>

lemma sample_mount:
  "\<exists>v' m' d. format_device (host_of Inr) 256 dev0 = Run 0 v' \<and>
    yaf_fill_super env0 True True (unmounted (kst_of (disk_of (img v')))) = Run 0 m' \<and> fs_inv sb0 (ks m') \<and>
    afs_of sb0 (ks m') = [ROOT_INO \<mapsto> Dir Map.empty] \<and> icache (ks m') = [ROOT_INO \<mapsto> d] \<and> S_ISDIR (i_mode d) \<and>
    dcache (ks m') = Map.empty \<and> used_bits (disk (ks m') (BID_IBP_MIN sb0)) = {..<2} \<and>
    used_bits (disk (ks m') (BID_DBP_MIN sb0)) = {..<0}"
proof -
  have H: "host_ok (host_of Inr)" by (simp add: host_ok_def host_of_def)
  have n: "64 \<le> unat (256 :: u64)" "unat (256 :: u64) < 2 ^ 32" by simp_all
  obtain v' m' d where "format_device (host_of Inr) 256 dev0 = Run 0 v'"
      "yaf_fill_super env0 True True (unmounted (kst_of (disk_of (img v')))) = Run 0 m'"
      "fs_inv sb0 (ks m')" "afs_of sb0 (ks m') = [ROOT_INO \<mapsto> Dir Map.empty]" "icache (ks m') = [ROOT_INO \<mapsto> d]"
      "S_ISDIR (i_mode d)" "dcache (ks m') = Map.empty" "used_bits (disk (ks m') (BID_IBP_MIN sb0)) = {..<2}"
      "used_bits (disk (ks m') (BID_DBP_MIN sb0)) = {..<0}"
    using format_mount [OF H n sample_dir(1), of dev0] unfolding sb_counts_256
    by (elim exE conjE) (rule that, assumption+)
  then show ?thesis by (intro exI [of _ v'] exI [of _ m'] exI [of _ d] conjI)
qed

text \<open>A file is looked up in the empty root directory of a new mount, and can then be created there.\<close>

lemma first_lookup:
  assumes inv: "fs_inv sb s" and dev: "device_ok E sb" and afs: "afs_of sb s = [ROOT_INO \<mapsto> Dir Map.empty]"
    and ic: "icache s = [ROOT_INO \<mapsto> d]" "S_ISDIR (i_mode d)" and bits: "used_bits (disk s (BID_IBP_MIN sb)) = {..<2}"
      "used_bits (disk s (BID_DBP_MIN sb)) = {..<0}" and sb: "ino_ok sb 2" "0 < nr_d sb" and nm: "valid_name nm"
  shows "\<exists>s'. yaf_lookup E sb ROOT_INO nm s = Run 0 s' \<and> fs_inv sb s' \<and> afs_of sb s' = afs_of sb s \<and>
    disk s' = disk s \<and> dcache s' = (dcache s)((ROOT_INO, nm) := Some None) \<and>
    (mode AND S_IFMT = 0 \<longrightarrow> may_create sb s' ROOT_INO nm mode)"
proof -
  have d: "icache s ROOT_INO = Some d" using ic(1) by simp
  have "view sb s d = Dir Map.empty" using cached_node(4) [OF inv d] afs by simp
  then have empty: "dir_map sb s d nm = None" by (simp add: view_dir [OF ic(2)])
  then have fresh: "icache s (ucast i) = None \<or> ucast i \<notin> idirty s" if "dir_map sb s d nm = Some i" for i
    using that by simp
  obtain s' t where s': "yaf_lookup E sb ROOT_INO nm s = Run 0 s'" "fs_inv sb s'" "afs_of sb s' = afs_of sb s"
      "disk s' = disk s" "dcache s' = (dcache s)((ROOT_INO, nm) := Some None)"
      "icache s' = [ROOT_INO \<mapsto> d\<lparr>i_atime := t\<rparr>]"
    using lookup_found [OF inv dev d ic(2) nm fresh] empty ic(1) by auto
  have "ROOT_INO \<noteq> 2" by (simp add: ROOT_INO_def)
  then have avail: "inode_available sb s' 2" "dblock_available sb s'"
    using s'(4,6) fs_invD(2) [OF s'(2)] bits sb by (intro empty_root_available; simp)+
  have "may_create sb s' ROOT_INO nm mode" if "mode AND S_IFMT = 0"
    by (rule empty_root_may_create [OF s'(2), of ROOT_INO "d\<lparr>i_atime := t\<rparr>"]) (use that avail nm s'(3,5,6) ic(2) afs in simp_all)
  with s'(1-5) show ?thesis by blast
qed

lemma sample_creation:
  "\<exists>s. fs_inv sb0 s \<and> allowed sb0 s (Create ROOT_INO [97] 0) \<and> afs_of sb0 s = [ROOT_INO \<mapsto> Dir Map.empty] \<and>
    used_bits (disk s (BID_DBP_MIN sb0)) = {}"
proof -
  obtain m' d where m: "fs_inv sb0 (ks (m' :: mount))" "afs_of sb0 (ks m') = [ROOT_INO \<mapsto> Dir Map.empty]"
      "icache (ks m') = [ROOT_INO \<mapsto> d]" "S_ISDIR (i_mode d)"
      "used_bits (disk (ks m') (BID_IBP_MIN sb0)) = {..<2}" "used_bits (disk (ks m') (BID_DBP_MIN sb0)) = {..<0}"
    using sample_mount by (elim exE conjE) (rule that, assumption+)
  have sb: "ino_ok sb0 2" "0 < nr_d sb0" by (simp_all add: ino_ok_def sb0_def)
  obtain s where "fs_inv sb0 s" "afs_of sb0 s = afs_of sb0 (ks m')" "disk s = disk (ks m')" "may_create sb0 s ROOT_INO [97] 0"
    using first_lookup [OF m(1) sample_dir(1) m(2-6) sb sample_dir(6), of 0] by auto
  with m(2,6) show ?thesis by (intro exI [of _ s]) simp
qed

lemma sample_file:
  "\<exists>s ino v. fs_inv sb0 s \<and> icache s ino = Some v \<and> afs_of sb0 s ino = Some (File []) \<and> free_dblocks sb0 s \<noteq> {}"
proof -
  obtain s where s: "fs_inv sb0 s" "may_create sb0 s ROOT_INO [97] 0" "used_bits (disk s (BID_DBP_MIN sb0)) = {}"
    using sample_creation by (auto simp: too_long_def)
  have op: "yaf_create = yaf_create \<and> S_IFREG = S_IFREG \<or> yaf_create = yaf_mkdir \<and> S_IFREG = S_IFDIR" by simp
  obtain s' m and i :: u32 and x where s': "fs_inv sb0 s'" "afs_of sb0 s' (ucast i) = Some (File [])"
      "dcache s' (ROOT_INO, [97]) = Some (Some (ucast i))" "used_bits (disk s' (BID_DBP_MIN sb0)) \<subseteq> {x}"
    using create_system [OF s(1) sample_dir(1) owner_env0 s(2) op] unfolding s(3)
    by (elim exE conjE) (rule that; simp add: S_IFREG_def S_IFDIR_def)
  obtain v where "icache s' (ucast i) = Some v"
    using dentries_okD [OF fs_invD(7) [OF s'(1)] s'(3)] by (auto simp: dentry_in_def)
  moreover have "x = 0 \<and> 1 \<in> free_dblocks sb0 s' \<or> x \<noteq> 0 \<and> 0 \<in> free_dblocks sb0 s'"
    using s'(4) by (auto simp: free_dblocks_def sb0_def)
  ultimately show ?thesis using s'(1,2) by blast
qed

section \<open>Properties\<close>

text \<open>
  C1. The driver serves the kernel as specified. In a state that satisfies the invariant, on a
  working device, every request that \<open>allowed\<close> covers (the resources it needs are left, and it looks up no name
  whose inode is in memory and dirty) returns (it neither panics nor hangs nor
  leaves an array), leads to a state that satisfies the invariant, and has on the abstract file
  system the effect and the result that are specified: creation adds an entry with a new
  empty inode, or is refused when the name is too long, unlinking and removal of an empty directory remove one, removal of another
  directory is refused, a new size cuts or extends the content of a file, data replace what
  a block of it holds, and look-ups, block allocations, write-back and the shrinking of the caches
  change nothing.
\<close>

theorem driver_refines_spec:
  assumes "fs_inv sb s" and "device_ok E sb" and "owner_ok E" and "allowed sb s q"
  shows "\<exists>r s'. serve E sb q s = Run r s' \<and> fs_inv sb s' \<and> spec_of q (afs_of sb s) r (afs_of sb s')"
  using request_served [OF assms] .

theorem driver_refines_spec_witness:
  "\<exists>s s' i. fs_inv sb0 s \<and> serve env0 sb0 (Create ROOT_INO [97] 0) s = Run 0 s' \<and> fs_inv sb0 s' \<and>
     afs_of sb0 s' = [ROOT_INO \<mapsto> Dir [[97] \<mapsto> i], ucast i \<mapsto> File []]"
proof -
  obtain s where s: "fs_inv sb0 s" "allowed sb0 s (Create ROOT_INO [97] 0)"
      "afs_of sb0 s = [ROOT_INO \<mapsto> Dir Map.empty]"
    using sample_creation by blast
  from driver_refines_spec [OF s(1) sample_dir(1) owner_env0 s(2)] obtain s' where
    s': "serve env0 sb0 (Create ROOT_INO [97] 0) s = Run 0 s'" "fs_inv sb0 s'"
      "adds (afs_of sb0 s) ROOT_INO [97] (File []) (afs_of sb0 s')" by (auto simp: too_long_def unless_too_long_def)
  from s'(3) obtain i where "afs_of sb0 s' = [ROOT_INO \<mapsto> Dir [[97] \<mapsto> i], ucast i \<mapsto> File []]"
    unfolding adds_def s(3) by auto
  with s s' show ?thesis by blast
qed

text \<open>The states a sequence of allowed requests can reach.\<close>

inductive reach :: "env \<Rightarrow> Yaf_Sb_Info \<Rightarrow> kst \<Rightarrow> kst \<Rightarrow> bool" for E sb s0 where
  start: "reach E sb s0 s0"
| served: "reach E sb s0 s \<Longrightarrow> allowed sb s q \<Longrightarrow> serve E sb q s = Run r s' \<Longrightarrow> reach E sb s0 s'"

lemma reach_inv: "reach E sb s0 s \<Longrightarrow> fs_inv sb s0 \<Longrightarrow> device_ok E sb \<Longrightarrow> owner_ok E \<Longrightarrow> fs_inv sb s"
proof (induction rule: reach.induct)
  case (served s q r s')
  obtain r' s'' where "serve E sb q s = Run r' s''" "fs_inv sb s''"
    using request_served [OF _ served.prems(2,3) served.hyps(2)] served.IH served.prems by blast
  with served.hyps(3) show ?case by simp
qed

text \<open>What the invariant says of the blocks, the names and the tree.\<close>

lemma inv_consistent:
  assumes inv: "fs_inv sb s"
  shows "(\<forall>i j. live sb s i \<and> live sb s j \<and> i \<noteq> j \<longrightarrow> held (node sb s i) \<inter> held (node sb s j) = {}) \<and>
    (\<forall>i x. live sb s i \<and> x \<in> held (node sb s i) \<longrightarrow>
       DNO2BID sb x \<le> BID_D_MAX sb \<and> unat x \<in> used_bits (disk s (BID_DBP_MIN sb))) \<and>
    (\<forall>dir nm i. links (afs_of sb s) dir nm i \<longrightarrow> live sb s (ucast i)) \<and>
    (\<forall>dir nm dir' nm' i. links (afs_of sb s) dir nm i \<and> links (afs_of sb s) dir' nm' i \<longrightarrow>
       dir = dir' \<and> nm = nm') \<and>
    (\<forall>i. live sb s i \<longrightarrow> below (afs_of sb s) i) \<and> refs s = (\<lambda>_. 0)"
proof -
  note nodes = fs_invD(5) [OF inv] and tree = fs_invD(8) [OF inv]
  have live: "live sb s i \<longleftrightarrow> afs_of sb s i \<noteq> None" for i by (simp add: afs_of_def)
  have "DNO2BID sb x \<le> BID_D_MAX sb" if "x < nr_d sb" for x
    using that by (simp add: word_le_nat_alt word_less_nat_alt yaf_layout)
  then have held: "DNO2BID sb x \<le> BID_D_MAX sb \<and> unat x \<in> used_bits (disk s (BID_DBP_MIN sb))"
    if "live sb s i" "x \<in> held (node sb s i)" for i x
    using node_ok_held [OF nodes_okD(2) [OF nodes that(1)] that(2)] by blast
  show ?thesis
  proof (intro conjI allI impI)
    fix i j assume "live sb s i \<and> live sb s j \<and> i \<noteq> j"
    then show "held (node sb s i) \<inter> held (node sb s j) = {}" using nodes_okD(3) [OF nodes] by blast
  next
    fix i x assume "live sb s i \<and> x \<in> held (node sb s i)"
    then show "DNO2BID sb x \<le> BID_D_MAX sb" "unat x \<in> used_bits (disk s (BID_DBP_MIN sb))"
      using held by blast+
  next
    fix dir nm i assume "links (afs_of sb s) dir nm i"
    then show "live sb s (ucast i)" unfolding live by (rule tree_okD(2) [OF tree])
  next
    fix dir nm dir' nm' i assume "links (afs_of sb s) dir nm i \<and> links (afs_of sb s) dir' nm' i"
    then show "dir = dir'" "nm = nm'" using tree_okD(4) [OF tree] by blast+
  next
    fix i assume "live sb s i"
    then show "below (afs_of sb s) i" unfolding live by (rule tree_okD(5) [OF tree])
  next
    show "refs s = (\<lambda>_. 0)" by (rule fs_invD(3) [OF inv])
  qed
qed

end
