(* ===== verification/Yaf_Content.thy ===== *)
theory Yaf_Content
  imports Yaf_Run
begin

text \<open>
  The content of files: what a read and a buffered write of the kernel see and do through the
  operations of \<open>driver/file.c\<close>. The kernel's part of a write, \<open>block_write_begin\<close> and
  \<open>generic_write_end\<close>, is a parameter; the contracts below state what its documentation says of a
  write within one block.
\<close>

section \<open>The kernel's part of a write\<close>

text \<open>Bytes \<open>off\<close> up to \<open>off + length data\<close> of a block replaced by \<open>data\<close>.\<close>

definition overlay :: "nat \<Rightarrow> byte list \<Rightarrow> block \<Rightarrow> block" where
  "overlay off data blk k = (if off \<le> k \<and> k < off + length data then data ! (k - off) else blk k)"

text \<open>
  \<open>block_write_begin\<close> asks the file system for the block to be written, creating it if necessary,
  and fails as this call does.
\<close>

definition write_begin_contract :: "(get_block \<Rightarrow> nat \<Rightarrow> u32 \<Rightarrow> int kc) \<Rightarrow> nat \<Rightarrow> u32 \<Rightarrow> bool" where
  "write_begin_contract bwb off len \<longleftrightarrow>
     (\<forall>g s. bwb g off len s = bnd (g (of_nat (off div YAF_BLOCK_SIZE)) True) (\<lambda>r. ret (fst r)) s)"

text \<open>
  \<open>generic_write_end\<close>, after \<open>data\<close> was copied: the block has the data and is marked dirty, the inode covers it and
  is dirty too, and the number of bytes copied is returned.
\<close>

definition store_data :: "Yaf_Sb_Info \<Rightarrow> u64 \<Rightarrow> nat \<Rightarrow> byte list \<Rightarrow> int kc" where
  "store_data sb ino off data =
     bnd (get_inode ino) (\<lambda>v.
     bnd (b_data (DNO2BID sb (i_block v ! (off div YAF_BLOCK_SIZE)))) (\<lambda>blk.
     bnd (set_b_data (DNO2BID sb (i_block v ! (off div YAF_BLOCK_SIZE))) (overlay (off mod YAF_BLOCK_SIZE) data blk)) (\<lambda>_.
     bnd (mark_page_dirty (DNO2BID sb (i_block v ! (off div YAF_BLOCK_SIZE)))) (\<lambda>_.
     bnd (upd_inode ino (\<lambda>v. v\<lparr>i_size := max (i_size v) (off + length data)\<rparr>)) (\<lambda>_.
     bnd (mark_inode_dirty ino) (\<lambda>_.
     ret (int (length data))))))))"

definition write_end_contract ::
  "(nat \<Rightarrow> u32 \<Rightarrow> u32 \<Rightarrow> int kc) \<Rightarrow> Yaf_Sb_Info \<Rightarrow> u64 \<Rightarrow> nat \<Rightarrow> byte list \<Rightarrow> bool" where
  "write_end_contract gwe sb ino off data \<longleftrightarrow>
     (\<forall>s. gwe off (of_nat (length data)) (of_nat (length data)) s = store_data sb ino off data s)"

section \<open>Reading and writing\<close>

lemma file_data_length [simp]: "length (file_data sb s v) = i_size v"
  by (simp add: file_data_def)

lemma file_data_nth:
  "k < i_size v \<Longrightarrow> file_data sb s v ! k = disk s (DNO2BID sb (i_block v ! (k div 4096))) (k mod 4096)"
  by (simp add: file_data_def)

text \<open>The content of a file in which the bytes from \<open>off\<close> were replaced, extended if necessary.\<close>

definition written :: "nat \<Rightarrow> byte list \<Rightarrow> byte list \<Rightarrow> byte list \<Rightarrow> bool" where
  "written off data d d' \<longleftrightarrow> length d' = max (length d) (off + length data) \<and>
     (\<forall>k<length data. d' ! (off + k) = data ! k) \<and>
     (\<forall>k<length d. k < off \<or> off + length data \<le> k \<longrightarrow> d' ! k = d ! k)"

lemma split_off: "\<exists>q r. (off :: nat) = 4096 * q + r \<and> r < 4096 \<and> off div 4096 = q \<and> off mod 4096 = r"
  by (intro exI [of _ "off div 4096"] exI [of _ "off mod 4096"]) simp

lemma in_block:
  assumes "off mod 4096 + n \<le> 4096" and "off \<le> k" and "k < off + (n :: nat)"
  shows "k div 4096 = off div 4096" "k mod 4096 = off mod 4096 + (k - off)"
proof -
  obtain q r where off: "off = 4096 * q + r" "off div 4096 = q" "off mod 4096 = r"
    using split_off [of off] by blast
  obtain q' r' where k: "k = 4096 * q' + r'" "r' < 4096" "k div 4096 = q'" "k mod 4096 = r'"
    using split_off [of k] by blast
  have "r + n \<le> 4096" using assms(1) off(3) by simp
  then have "q \<le> q'" "q' \<le> q" using assms(2,3) off(1) k(1,2) by linarith+
  then have "q' = q" by simp
  with assms(2) off k show "k div 4096 = off div 4096" "k mod 4096 = off mod 4096 + (k - off)" by simp_all
qed

lemma overlay_in: "m < length data \<Longrightarrow> overlay off data blk (off + m) = data ! m"
  by (simp add: overlay_def)

lemma overlay_out: "k < off \<or> off + length data \<le> k \<Longrightarrow> overlay off data blk k = blk k"
  by (auto simp: overlay_def)

text \<open>Which byte of the file a byte of the overlaid block is.\<close>

lemma overlay_byte:
  assumes "off mod 4096 + length data \<le> 4096" and "k div 4096 = off div 4096"
  shows "overlay (off mod 4096) data blk (k mod 4096) =
    (if off \<le> k \<and> k < off + length data then data ! (k - off) else blk (k mod 4096))"
proof (cases "off \<le> k \<and> k < off + length data")
  case True
  then have "k mod 4096 = off mod 4096 + (k - off)" "k - off < length data" using in_block(2) [OF assms(1), of k] by auto
  then show ?thesis using True overlay_in [of "k - off"] by (simp only: if_True simp_thms)
next
  case False
  obtain q r where off: "off = 4096 * q + r" "off div 4096 = q" "off mod 4096 = r"
    using split_off [of off] by blast
  obtain q' r' where k: "k = 4096 * q' + r'" "k div 4096 = q'" "k mod 4096 = r'"
    using split_off [of k] by blast
  have "q' = q" using assms(2) off(2) k(2) by simp
  then have "r' < r \<or> r + length data \<le> r'" using False off(1) k(1) by linarith
  then have "k mod 4096 < off mod 4096 \<or> off mod 4096 + length data \<le> k mod 4096" unfolding off(3) k(3) .
  then show ?thesis using False by (simp only: overlay_out if_False)
qed

text \<open>A write within a block of the file, with the times updated.\<close>

text \<open>The bytes of a file after a write into one of its blocks.\<close>

lemma written_byte:
  assumes fb: "file_blocks sb s v n" and off: "off div 4096 < n" and fits: "off mod 4096 + length data \<le> 4096"
    and disk: "disk s' = (disk s)(DNO2BID sb (i_block v ! (off div 4096)) :=
          overlay (off mod 4096) data (disk s (DNO2BID sb (i_block v ! (off div 4096)))))"
    and v': "i_block v' = i_block v" and k: "k < i_size v'" "k < 4096 * n"
  shows "file_data sb s' v' ! k =
      (if off \<le> k \<and> k < off + length data then data ! (k - off)
       else disk s (DNO2BID sb (i_block v ! (k div 4096))) (k mod 4096))"
proof (cases "k div 4096 = off div 4096")
  case True
  let ?b = "DNO2BID sb (i_block v ! (k div 4096))"
  have "disk s' ?b = overlay (off mod 4096) data (disk s ?b)" using disk True by simp
  then show ?thesis unfolding file_data_nth [OF k(1)] v' by (simp only: overlay_byte [OF fits True])
next
  case False
  have "k div 4096 < n" using k(2) by (intro less_mult_imp_div_less) (simp add: mult.commute)
  with off False fb have "i_block v ! (k div 4096) \<noteq> i_block v ! (off div 4096)"
    by (auto simp: file_blocks_def inj_on_def)
  moreover have "\<not> (off \<le> k \<and> k < off + length data)" using False in_block(1) [OF fits] by blast
  ultimately show ?thesis unfolding file_data_nth [OF k(1)] v' disk by auto
qed

lemma write_step:
  assumes inv: "fs_inv sb s" and v: "icache s ino = Some v" "\<not> S_ISDIR (i_mode v)"
    and j: "off div 4096 < used_blocks (i_block v) 0" and fits: "off mod 4096 + length data \<le> 4096"
    and s': "s' = s\<lparr>disk := (disk s)(DNO2BID sb (i_block v ! (off div 4096)) :=
          overlay (off mod 4096) data (disk s (DNO2BID sb (i_block v ! (off div 4096))))),
        icache := (icache s)(ino := Some v'), idirty := insert ino (idirty s)\<rparr>"
    and v': "v' = v\<lparr>i_size := max (i_size v) (off + length data), i_ctime := t, i_mtime := t\<rparr>"
  shows "fs_inv sb s' \<and> (\<exists>d'. written off data (file_data sb s v) d' \<and>
    afs_of sb s' = (afs_of sb s)(ino := Some (File d')) \<and>
    (\<forall>k<off. i_size v \<le> k \<longrightarrow> d' ! k = disk s (DNO2BID sb (i_block v ! (k div 4096))) (k mod 4096)))"
proof -
  note sb = fs_invD(1) [OF inv]
  let ?b = "\<lambda>v k. DNO2BID sb (i_block v ! (k div 4096))"
  obtain n where fb: "file_blocks sb s v n" "i_size v \<le> 4096 * n" "i_nlink v = 1"
    using cached_node(3) [OF inv v(1)] v(2) by (auto simp: node_ok_def file_ok_def)
  have n: "off div 4096 < n" using j file_blocks_count [OF fb(1)] by simp
  have h: "i_block v ! (off div 4096) \<in> held v" using n held_file [OF fb(1)] by auto
  have same: "disk s' (BID_DBP_MIN sb) = disk s (BID_DBP_MIN sb)" "disk s' (BID_IBP_MIN sb) = disk s (BID_IBP_MIN sb)"
    using sb by (simp_all add: s')
  have end_n: "off + length data \<le> 4096 * n"
  proof -
    obtain q r where "off = 4096 * q + r" "off div 4096 = q" "off mod 4096 = r" using split_off [of off] by blast
    then show ?thesis using n fits by linarith
  qed
  have vb: "i_block v' = i_block v" "i_mode v' = i_mode v" "i_nlink v' = i_nlink v"
      "i_size v' = max (i_size v) (off + length data)" "held v' = held v"
    by (simp_all add: v' held_def)
  have ok: "file_ok sb s' v'"
    using fb same end_n vb by (auto simp: file_ok_def file_blocks_def intro!: exI [of _ n])
  have step: "fs_inv sb s' \<and> afs_of sb s' = (afs_of sb s)(ino := Some (File (file_data sb s' v')))"
  proof (rule file_step [OF inv v _ vb(2) ok])
    show "changes_only sb s s' {i_block v ! (off div 4096)}" by (simp add: changes_only_def s')
    show "{i_block v ! (off div 4096)} \<subseteq> held v" using h by simp
  qed (use same vb in \<open>auto simp: s'\<close>)
  have byte: "file_data sb s' v' ! k =
      (if off \<le> k \<and> k < off + length data then data ! (k - off) else disk s (?b v k) (k mod 4096))"
    if "k < i_size v'" for k
    by (rule written_byte [OF fb(1) n fits _ vb(1) that])
      (use that fb(2) end_n vb(4) in \<open>simp_all add: s'\<close>)
  have "written off data (file_data sb s v) (file_data sb s' v')"
    unfolding written_def using vb(4) byte by (auto simp: file_data_nth)
  moreover have "\<forall>k<off. i_size v \<le> k \<longrightarrow> file_data sb s' v' ! k = disk s (?b v k) (k mod 4096)"
    using byte vb(4) by simp
  ultimately show ?thesis using step by auto
qed

lemma write_file:
  assumes inv: "fs_inv sb s" and dev: "device_ok E sb" and v: "icache s ino = Some v"
    and at: "afs_of sb s ino = Some (File d)"
    and fits: "data \<noteq> []" "off mod YAF_BLOCK_SIZE + length data \<le> YAF_BLOCK_SIZE"
      "off + length data \<le> MAX_FILESIZE"
    and free: "Suc (off div YAF_BLOCK_SIZE) - blocks_used s ino \<le> card (free_dblocks sb s)"
    and bwb: "write_begin_contract bwb off (of_nat (length data))"
    and gwe: "write_end_contract gwe sb ino off data"
  shows "\<exists>s1 s2 d' v'. yaf_write_begin bwb E sb ino off (of_nat (length data)) s = Run 0 s1 \<and>
    yaf_write_end gwe E ino off (of_nat (length data)) (of_nat (length data)) s1 = Run (int (length data)) s2 \<and>
    fs_inv sb s2 \<and> afs_of sb s2 = (afs_of sb s)(ino := Some (File d')) \<and> written off data d d' \<and>
    icache s2 ino = Some v' \<and> (\<forall>k<off. length d \<le> k \<longrightarrow>
      d' ! k = disk s (DNO2BID sb (i_block v' ! (k div YAF_BLOCK_SIZE))) (k mod YAF_BLOCK_SIZE))"
proof -
  have dir: "\<not> S_ISDIR (i_mode v)" and d: "d = file_data sb s v"
    using cached_node(4) [OF inv v] at by (auto simp: view_def split: if_splits)
  let ?blk = "of_nat (off div 4096) :: u64" and ?len = "of_nat (length data) :: u32"
  have "off < 8 * 4096" using fits(1,3) by (cases data) simp_all
  then have q: "off div 4096 < 8" by (rule less_mult_imp_div_less)
  have u: "unat ?blk = off div 4096" using q by (simp add: unat_of_nat take_bit_nat_eq_self)
  have len: "unat ?len = length data" using fits(2) by (simp add: unat_of_nat take_bit_nat_eq_self)
  have "unat ?blk < YAF_IBLOCKS" "Suc (unat ?blk) - used_blocks (i_block v) 0 \<le> card (free_dblocks sb s)"
    unfolding u using q free v by (simp_all add: blocks_used_def)
  from get_block_step [OF inv dev v dir this] obtain s1 v1
    where g: "yaf_get_block E sb ino ?blk True s = Run (0, Some (DNO2BID sb (i_block v1 ! unat ?blk))) s1"
      "fs_inv sb s1" "afs_of sb s1 = afs_of sb s" "icache s1 ino = Some v1" "i_mode v1 = i_mode v"
      "i_size v1 = i_size v" "unat ?blk < used_blocks (i_block v1) 0"
      "\<forall>x. disk s1 (DNO2BID sb x) = disk s (DNO2BID sb x)"
    by blast
  have d1: "d = file_data sb s1 v1"
    using cached_node(4) [OF g(2,4)] at dir g(3,5) by (simp add: view_def)
  have opened: "yaf_write_begin bwb E sb ino off ?len s = Run 0 s1"
    using bwb fits(3) len g(1) by (simp add: yaf_write_begin_def write_begin_contract_def bnd_run)
  let ?b = "DNO2BID sb (i_block v1 ! (off div 4096))"
  let ?s2 = "s1\<lparr>disk := (disk s1)(?b := overlay (off mod 4096) data (disk s1 ?b)),
      icache := (icache s1)(ino := Some (v1\<lparr>i_size := max (i_size v1) (off + length data),
        i_ctime := now E (tick s1), i_mtime := now E (tick s1)\<rparr>)),
      idirty := insert ino (idirty s1)\<rparr>"
  let ?s3 = "?s2\<lparr>bdirty := insert ?b (bdirty s1)\<rparr>"
  have finish: "yaf_write_end gwe E ino off ?len ?len s1 = Run (int (length data)) ?s3"
    using gwe g(4) by (simp add: yaf_write_end_def write_end_contract_def store_data_def mark_page_dirty_def yaf_exec)
  have "fs_inv sb ?s2 \<and> (\<exists>d'. written off data (file_data sb s1 v1) d' \<and>
    afs_of sb ?s2 = (afs_of sb s1)(ino := Some (File d')) \<and>
    (\<forall>k<off. i_size v1 \<le> k \<longrightarrow> d' ! k = disk s1 (DNO2BID sb (i_block v1 ! (k div 4096))) (k mod 4096)))"
    by (rule write_step [OF g(2,4) _ _ _ refl refl]) (use dir g(5,7) u fits(2) in simp_all)
  then obtain d' where "fs_inv sb ?s2" "written off data d d'" "afs_of sb ?s2 = (afs_of sb s)(ino := Some (File d'))"
      "\<forall>k<off. length d \<le> k \<longrightarrow> d' ! k = disk s (DNO2BID sb (i_block v1 ! (k div 4096))) (k mod 4096)"
    using g(3,8) d1 by auto
  moreover from this(1) have "fs_inv sb ?s3 \<and> afs_of sb ?s3 = afs_of sb ?s2"
    by (rule mark_step [where b = ?b]) (simp add: mark_page_dirty_def)
  ultimately show ?thesis using opened finish
    by (intro exI [of _ s1] exI [of _ ?s3] exI [of _ d']) (simp only: layout_consts, simp)
qed

text \<open>Every byte of a file is where \<open>yaf_get_block\<close> says.\<close>

lemma read_file:
  assumes "fs_inv sb s" and "icache s ino = Some v" and "afs_of sb s ino = Some (File d)" and "k < length d"
  shows "\<exists>b. yaf_get_block E sb ino (of_nat (k div YAF_BLOCK_SIZE)) False s = Run (0, Some b) s \<and>
    disk s b (k mod YAF_BLOCK_SIZE) = d ! k"
proof -
  have dir: "\<not> S_ISDIR (i_mode v)" and d: "d = file_data sb s v"
    using cached_node(4) [OF assms(1,2)] assms(3) by (auto simp: view_def split: if_splits)
  obtain n where fb: "file_blocks sb s v n" "i_size v \<le> 4096 * n"
    using cached_node(3) [OF assms(1,2)] dir by (auto simp: node_ok_def file_ok_def)
  have k: "k < i_size v" using assms(4) d by simp
  then have "k div 4096 < n" "n \<le> 8" using fb by (simp_all add: less_mult_imp_div_less file_blocks_def)
  then have u: "unat (of_nat (k div 4096) :: u64) = k div 4096" by (simp add: unat_of_nat take_bit_nat_eq_self)
  have "unat (of_nat (k div 4096) :: u64) < n" unfolding u by fact
  from get_block_present [OF fb(1) assms(2) this, of E] show ?thesis
    using file_data_nth [OF k, of sb s] unfolding u d by simp
qed

text \<open>A sample file with two bytes.\<close>

definition bwb0 :: "get_block \<Rightarrow> nat \<Rightarrow> u32 \<Rightarrow> int kc" where
  "bwb0 g off len = bnd (g (of_nat (off div YAF_BLOCK_SIZE)) True) (\<lambda>r. ret (fst r))"

lemma bwb0_contract: "write_begin_contract bwb0 off len"
  by (simp add: write_begin_contract_def bwb0_def)

lemma store_contract: "write_end_contract (\<lambda>off len copied. store_data sb ino off data) sb ino off data"
  by (simp add: write_end_contract_def)

lemma sample_room: "free_dblocks sb0 s \<noteq> {} \<Longrightarrow> Suc (off div YAF_BLOCK_SIZE) - n \<le> card (free_dblocks sb0 s)"
  if "off < YAF_BLOCK_SIZE"
proof -
  assume "free_dblocks sb0 s \<noteq> {}"
  moreover have "finite (free_dblocks sb0 s)" by (simp add: free_dblocks_def)
  ultimately have "1 \<le> card (free_dblocks sb0 s)" by (simp add: Suc_le_eq card_gt_0_iff)
  then show ?thesis using that by simp
qed

lemma sample_content:
  "\<exists>s ino v. fs_inv sb0 s \<and> icache s ino = Some v \<and> afs_of sb0 s ino = Some (File [7, 8])"
proof -
  obtain s ino v where s: "fs_inv sb0 s" "icache s ino = Some v" "afs_of sb0 s ino = Some (File [])"
      "free_dblocks sb0 s \<noteq> {}"
    using sample_file by blast
  have len: "[7 :: byte, 8] \<noteq> []" "0 mod YAF_BLOCK_SIZE + length [7 :: byte, 8] \<le> YAF_BLOCK_SIZE"
      "0 + length [7 :: byte, 8] \<le> MAX_FILESIZE" "(0 :: nat) < YAF_BLOCK_SIZE" by simp_all
  obtain s2 d' v' where s2: "fs_inv sb0 s2" "afs_of sb0 s2 = (afs_of sb0 s)(ino := Some (File d'))"
      "written 0 [7, 8] [] d'" "icache s2 ino = Some v'"
    using write_file [OF s(1) sample_dir(1) s(2,3) len(1-3) sample_room [OF len(4) s(4)] bwb0_contract store_contract]
    by blast
  have "d' = [7, 8]"
    by (rule nth_equalityI) (use s2(3) in \<open>auto simp: written_def less_Suc_eq\<close>)
  with s2 show ?thesis by (intro exI [of _ s2] exI [of _ ino] exI [of _ v']) simp
qed

section \<open>Properties\<close>

text \<open>
  C10. Reading. In a state that satisfies the invariant, \<open>yaf_get_block\<close> maps the block of every
  byte of a file, without creating it and without changing anything, to the block of the device
  that holds the content of the file there.
\<close>

theorem file_read:
  assumes "fs_inv sb s" and "icache s ino = Some v" and "afs_of sb s ino = Some (File d)" and "k < length d"
  shows "\<exists>b. yaf_get_block E sb ino (of_nat (k div YAF_BLOCK_SIZE)) False s = Run (0, Some b) s \<and>
    disk s b (k mod YAF_BLOCK_SIZE) = d ! k"
  by (rule read_file [OF assms])

theorem file_read_witness:
  "\<exists>s ino b. yaf_get_block env0 sb0 ino 0 False s = Run (0, Some b) s \<and> disk s b 1 = 8"
proof -
  obtain s ino v where s: "fs_inv sb0 s" "icache s ino = Some v" "afs_of sb0 s ino = Some (File [7, 8])"
    using sample_content by blast
  have "1 < length [7 :: byte, 8]" by simp
  from file_read [OF s this, of env0] show ?thesis by auto
qed

text \<open>
  C9. Writing. On a working device, a write of at most a block into a file that ends within the
  largest file size, for which the kernel's functions keep their contracts and there are data
  blocks enough, succeeds through \<open>yaf_write_begin\<close> and \<open>yaf_write_end\<close>: afterwards the file has
  the new bytes where they were written, its old bytes everywhere else, and the size that
  covers both; every other inode is as it was and the invariant holds. A gap between the
  old end of the file and the start of the write is not zeroed: its bytes are what the device
  held in these blocks before, such as the data of a deleted file.
\<close>

theorem file_write:
  assumes inv: "fs_inv sb s" and dev: "device_ok E sb" and v: "icache s ino = Some v"
    and at: "afs_of sb s ino = Some (File d)"
    and fits: "data \<noteq> []" "off mod YAF_BLOCK_SIZE + length data \<le> YAF_BLOCK_SIZE"
      "off + length data \<le> MAX_FILESIZE"
    and free: "Suc (off div YAF_BLOCK_SIZE) - blocks_used s ino \<le> card (free_dblocks sb s)"
    and bwb: "write_begin_contract bwb off (of_nat (length data))"
    and gwe: "write_end_contract gwe sb ino off data"
  shows "\<exists>s1 s2 d' v'. yaf_write_begin bwb E sb ino off (of_nat (length data)) s = Run 0 s1 \<and>
    yaf_write_end gwe E ino off (of_nat (length data)) (of_nat (length data)) s1 = Run (int (length data)) s2 \<and>
    fs_inv sb s2 \<and> afs_of sb s2 = (afs_of sb s)(ino := Some (File d')) \<and> written off data d d' \<and>
    icache s2 ino = Some v' \<and> (\<forall>k<off. length d \<le> k \<longrightarrow>
      d' ! k = disk s (DNO2BID sb (i_block v' ! (k div YAF_BLOCK_SIZE))) (k mod YAF_BLOCK_SIZE))"
  by (rule write_file [OF assms])

theorem file_write_witness:
  "\<exists>s ino s1 s2 d'. yaf_write_begin bwb0 env0 sb0 ino 3 2 s = Run 0 s1 \<and>
     yaf_write_end (\<lambda>off len copied. store_data sb0 ino off [7, 8]) env0 ino 3 2 2 s1 = Run 2 s2 \<and>
     afs_of sb0 s2 ino = Some (File d') \<and> length d' = 5 \<and> d' ! 3 = 7 \<and> d' ! 4 = 8"
proof -
  obtain s ino v where s: "fs_inv sb0 s" "icache s ino = Some v" "afs_of sb0 s ino = Some (File [])"
      "free_dblocks sb0 s \<noteq> {}"
    using sample_file by blast
  have len: "[7 :: byte, 8] \<noteq> []" "3 mod YAF_BLOCK_SIZE + length [7 :: byte, 8] \<le> YAF_BLOCK_SIZE"
      "3 + length [7 :: byte, 8] \<le> MAX_FILESIZE" "(3 :: nat) < YAF_BLOCK_SIZE" by simp_all
  obtain s1 s2 d' where s2: "yaf_write_begin bwb0 env0 sb0 ino 3 2 s = Run 0 s1"
      "yaf_write_end (\<lambda>off len copied. store_data sb0 ino off [7, 8]) env0 ino 3 2 2 s1 = Run 2 s2"
      "afs_of sb0 s2 = (afs_of sb0 s)(ino := Some (File d'))" "written 3 [7, 8] [] d'"
    using file_write [OF s(1) sample_dir(1) s(2,3) len(1-3) sample_room [OF len(4) s(4)] bwb0_contract store_contract]
    by auto
  have "d' ! (3 + 0) = 7" "d' ! (3 + 1) = 8" "length d' = 5" using s2(4) unfolding written_def by (fastforce, fastforce, simp)
  with s2 show ?thesis
    by (intro exI [of _ s] exI [of _ ino] exI [of _ s1] exI [of _ s2] exI [of _ d']) simp
qed

end
