(* ===== verification/Yaf_Contract.thy ===== *)
theory Yaf_Contract
  imports Yaf_File
begin

text \<open>
  Contracts every operation of the driver keeps whatever the environment does: on every path,
  error paths included. A contract is a relation between the states before and after a call. The
  locales show, step by step, that a preorder kept by the calls the driver makes of the kernel, by
  the few ways it writes to an inode in memory and by \<open>yaf_iget\<close> is kept by all of its
  operations. Here they are used for the operation tables of the inodes in memory and for the marks
  that tell the kernel what is to be written back; further theories use them for what an operation
  that fails leaves as it was, and for waiting.
\<close>

section \<open>What the driver writes to an inode in memory\<close>

inductive driver_update :: "env \<Rightarrow> (Yaf_Inode_Info \<Rightarrow> Yaf_Inode_Info) \<Rightarrow> bool" for E where
  times: "driver_update E (set_times t)"
| atime: "driver_update E (\<lambda>d. d\<lparr>i_atime := t\<rparr>)"
| cmtime: "driver_update E (\<lambda>v. v\<lparr>i_ctime := t, i_mtime := t\<rparr>)"
| link: "driver_update E inc_nlink"
| unlink: "driver_update E drop_nlink"
| size: "driver_update E (\<lambda>d. d\<lparr>i_size := n\<rparr>)"
| block: "driver_update E (\<lambda>d. d\<lparr>i_block := (i_block d)[k := x]\<rparr>)"
| init: "driver_update E (init_new_inode E d mode cur)"

section \<open>Relations the driver keeps\<close>

text \<open>
  \<open>obeys R H m\<close>: when \<open>m\<close> returns, the states before and after are related by \<open>R\<close>; when it
  stops, it does so in a way \<open>H\<close> admits.
\<close>

definition obeys :: "('s \<Rightarrow> 's \<Rightarrow> bool) \<Rightarrow> (stop \<Rightarrow> bool) \<Rightarrow> ('s \<Rightarrow> ('a, 's) outcome) \<Rightarrow> bool" where
  "obeys R H m \<longleftrightarrow> (\<forall>s. case m s of Run x s' \<Rightarrow> R s s' | Stop e \<Rightarrow> H e)"

lemma keeps_obeys: "keeps R m \<longleftrightarrow> obeys R (\<lambda>_. True) m"
  by (auto simp: keeps_def obeys_def split: outcome.splits)

lemma obeysD:
  "obeys R H m \<Longrightarrow> m s = Run x s' \<Longrightarrow> R s s'" "obeys R H m \<Longrightarrow> m s = Stop e \<Longrightarrow> H e"
  unfolding obeys_def by (metis outcome.simps(5), metis outcome.simps(6))

lemma obeys_bnd:
  assumes "transp R" and "obeys R H m" and "\<And>x. obeys R H (f x)"
  shows "obeys R H (bnd m f)"
  unfolding obeys_def
proof
  fix s
  show "case bnd m f s of Run x s' \<Rightarrow> R s s' | Stop e \<Rightarrow> H e"
    using obeysD [OF assms(2), of s] obeysD [OF assms(3)] transpD [OF assms(1), of s]
    by (auto simp: bnd_def split: outcome.splits)
qed

text \<open>
  Code that only reads: blocks are read and given back, and nothing else is done. The search
  for a name and the reading of a directory are of this kind.
\<close>

locale reading =
  fixes E :: env and R :: "kst \<Rightarrow> kst \<Rightarrow> bool" and H :: "stop \<Rightarrow> bool"
  assumes refl: "reflp R" and trans: "transp R" and stops: "H Panic" "H BadAccess"
    and bread: "obeys R H (sb_bread E b)" and release: "obeys R H (brelse b)"
begin

lemma reads:
  "obeys R H (b_data b)" "obeys R H (get_inode i)" "obeys R H (current_time E)" "obeys R H (d_inode i nm)"
  "obeys R H (assert_k c)" "obeys R H (iblock v n)" "obeys R H (ret x)" "obeys R H (halt Panic)" "obeys R H (halt BadAccess)"
  using refl stops by (auto simp: obeys_def reflp_def b_data_def get_inode_def current_time_def d_inode_def
      assert_k_def iblock_def ret_def halt_def split: option.splits if_splits)

lemma branches:
  "(c \<Longrightarrow> obeys R H m) \<Longrightarrow> (\<not> c \<Longrightarrow> obeys R H m') \<Longrightarrow> obeys R H (if c then m else m')"
  "obeys R H m \<Longrightarrow> (\<And>x. y = Some x \<Longrightarrow> obeys R H (f x)) \<Longrightarrow> obeys R H (case_option m f y)"
  "(\<And>x. z = Inl x \<Longrightarrow> obeys R H (g x)) \<Longrightarrow> (\<And>x. z = Inr x \<Longrightarrow> obeys R H (f x)) \<Longrightarrow> obeys R H (case_sum g f z)"
  "(\<And>x y. p = (x, y) \<Longrightarrow> obeys R H (h x y)) \<Longrightarrow> obeys R H (case_prod h p)"
  "(\<And>x. obeys R H (f' x)) \<Longrightarrow> obeys R H (let x = a in f' x)"
  "(\<And>n. obeys R H (a1 n)) \<Longrightarrow> (\<And>n. obeys R H (a2 n)) \<Longrightarrow> (\<And>e. obeys R H (a3 e)) \<Longrightarrow> obeys R H (case_search a1 a2 a3 w)"
  by (simp_all split: option.split sum.split prod.split search.split)

lemmas look = obeys_bnd [OF trans] bread release reads branches

lemma dir_search: "obeys R H (dir_search E sb P ib sz doff)"
proof (induction "sz - doff" arbitrary: doff rule: less_induct)
  case less
  have ih: "obeys R H (dir_search E sb P ib sz doff')" if "doff < sz" "dentry_scan P blk 0 doff sz = Inr doff'" for doff' blk
    using dentry_scan_progress [OF _ that] that(1) by (intro less) simp
  show ?case by (subst dir_search.simps) (intro look ih; assumption)
qed

lemma find: "obeys R H (do_yaf_lookup E sb dir nm)"
  unfolding do_yaf_lookup_def by (intro look dir_search)

lemma iterate: "obeys R H (yaf_iterate_shared E sb A parent dir ctx)"
proof -
  have "obeys R H (iterate_blocks E sb A ib sz doff ctx)" for ib sz doff ctx
  proof (induction "sz - doff" arbitrary: doff ctx rule: less_induct)
    case less
    have ih: "obeys R H (iterate_blocks E sb A ib sz doff' ctx')"
      if "doff < sz" "emit_scan A blk (doff mod YAF_BLOCK_SIZE div YAF_DENTRY_SIZE) 0 doff sz ctx = Some c"
        "c = (doff', ctx')" for doff' ctx' blk c
      using emit_scan_progress [OF that(2) [unfolded that(3)]] that(1) by (intro less) (simp add: less_mult_imp_div_less diff_less_mono2)
    show ?case by (subst iterate_blocks.simps) (intro look ih; assumption)
  qed
  then show ?thesis unfolding yaf_iterate_shared_def by (intro look)
qed

end

text \<open>Code that changes blocks as well: the allocators, and the loop that releases blocks.\<close>

locale storing = reading +
  assumes mark: "obeys R H (mark_buffer_dirty b)" and store: "obeys R H (set_b_data b blk)"
begin

lemma get_free_inode: "obeys R H (yaf_get_free_inode E sb)"
proof -
  have "obeys R H (get_free_inode_loop E sb bids)" for bids
    by (induction bids) (simp only: get_free_inode_loop.simps, intro look mark store | assumption)+
  then show ?thesis by (simp add: yaf_get_free_inode_def)
qed

lemma get_free_dblock: "obeys R H (yaf_get_free_dblock E sb)"
proof -
  have "obeys R H (get_free_dblock_loop E sb bids)" for bids
    by (induction bids) (simp only: get_free_dblock_loop.simps, intro look mark store | assumption)+
  then show ?thesis by (simp add: yaf_get_free_dblock_def)
qed

lemma put: "obeys R H (yaf_put_inode E sb ino)" "obeys R H (yaf_put_dblock E sb dno)"
  unfolding yaf_put_inode_def yaf_put_dblock_def by (intro look mark store)+

lemma write_inode: "obeys R H (yaf_write_inode E sb ino)"
  unfolding yaf_write_inode_def by (intro look mark store)

lemma put_blocks: "obeys R H (put_dblocks E sb v doff)"
proof (induction "i_size v - doff" arbitrary: doff rule: less_induct)
  case less
  show ?case by (subst put_dblocks.simps) (intro look put less; simp)
qed

end

text \<open>Code that changes inodes in memory and binds names, too.\<close>

locale primitives = storing +
  assumes mark_inode: "obeys R H (mark_inode_dirty i)" and bind: "obeys R H (d_bind i nm x)"
    and update: "driver_update E f \<Longrightarrow> obeys R H (upd_inode i f)"
begin

lemmas keep = look mark store mark_inode bind driver_update.intros [THEN update]

lemma append_dentry: "obeys R H (append_dentry E sb dir doff)"
  unfolding append_dentry_def by (intro keep)

lemma get_free_dentry: "obeys R H (yaf_get_free_dentry E sb dir)"
  unfolding yaf_get_free_dentry_def by (intro keep dir_search get_free_dblock append_dentry)

lemma delete: "obeys R H (yaf_delete E sb dir nm)"
  unfolding yaf_delete_def by (intro keep find put put_blocks)

lemma remove: "obeys R H (yaf_unlink E sb dir nm)" "obeys R H (yaf_rmdir E sb dir nm)"
  unfolding yaf_unlink_def yaf_rmdir_def by (intro keep delete)+

lemma get_block: "obeys R H (yaf_get_block E sb ino blk c)"
proof -
  have "obeys R H (extend_blocks E sb ino dbnr n)" for dbnr n
  proof (induction "Suc n - dbnr" arbitrary: dbnr rule: less_induct)
    case less
    show ?case by (subst extend_blocks.simps) (intro keep get_free_dblock less; simp)
  qed
  then show ?thesis unfolding yaf_get_block_def map_block_def by (intro keep)
qed

lemma write_end:
  assumes "obeys R H (generic_write_end off len copied)"
  shows "obeys R H (yaf_write_end generic_write_end E ino off len copied)"
  unfolding yaf_write_end_def by (intro keep assms)

lemma write_begin:
  assumes "\<And>g. (\<And>b c. obeys R H (g b c)) \<Longrightarrow> obeys R H (block_write_begin g off len)"
  shows "obeys R H (yaf_write_begin block_write_begin E sb ino off len)"
  unfolding yaf_write_begin_def by (intro keep assms get_block)

end

text \<open>With \<open>yaf_iget\<close>, the only operation that waits for another, all operations are covered.\<close>

locale contract = primitives +
  assumes load: "obeys R H (yaf_iget E sb i)"
begin

lemma new_inode: "obeys R H (yaf_new_inode E sb dir mode)"
  unfolding yaf_new_inode_def by (intro keep load get_free_inode put)

lemma create_any: "obeys R H (do_yaf_create E sb dir nm mode)"
  unfolding do_yaf_create_def by (intro keep get_free_dentry new_inode)

lemma create: "obeys R H (yaf_create E sb dir nm mode)" "obeys R H (yaf_mkdir E sb dir nm mode)"
  unfolding yaf_create_def yaf_mkdir_def by (rule create_any)+

lemma lookup: "obeys R H (yaf_lookup E sb dir nm)"
  unfolding yaf_lookup_def lookup_out_def by (intro keep load find)

end

section \<open>Types of inodes\<close>

text \<open>
  The types an inode in memory has to have: a block list of \<open>YAF_IBLOCKS\<close> entries, the
  inode operations, and the further operation tables its mode calls for, those of directories for a directory and those of files,
  with the address space operations, for a regular file. An inode that \<open>iget_locked\<close> made and
  nobody unlocked yet has none of it.
\<close>

definition typed :: "Yaf_Inode_Info \<Rightarrow> bool" where
  "typed v \<longleftrightarrow> length (i_block v) = YAF_IBLOCKS \<and> i_op v \<and> (S_ISDIR (i_mode v) \<longrightarrow> i_fop v = Dir_Ops) \<and>
     (S_ISREG (i_mode v) \<longrightarrow> i_fop v = File_Ops \<and> a_ops v)"

definition well_typed :: "kst \<Rightarrow> bool" where
  "well_typed s \<longleftrightarrow> (\<forall>i v. icache s i = Some v \<longrightarrow> i \<notin> inew s \<longrightarrow> typed v)"

definition types_kept :: "kst \<Rightarrow> kst \<Rightarrow> bool" where
  "types_kept s s' \<longleftrightarrow> (well_typed s \<longrightarrow> well_typed s')"

lemma typed_set_fops: "length (i_block v) = YAF_IBLOCKS \<Longrightarrow> i_op v \<Longrightarrow> typed (set_fops v)"
  by (simp add: typed_def) (simp add: set_fops_def ISREG_not_ISDIR)

lemma typed_fill: "typed (fill_inode (inode_load blk off) v)"
  unfolding fill_inode_def by (rule typed_set_fops) (simp_all add: inode_load_def load_blocks_def)

lemma typed_update: "driver_update E f \<Longrightarrow> typed v \<Longrightarrow> typed (f v)"
proof (induction rule: driver_update.induct)
  case (init d mode cur)
  then show ?case unfolding init_new_inode_def
    by (intro typed_set_fops) (simp_all add: typed_def set_times_def set_nlink_def split: prod.split)
qed (simp_all add: typed_def set_times_def inc_nlink_def drop_nlink_def)

lemma types_update: "driver_update E f \<Longrightarrow> keeps types_kept (upd_inode i f)"
  by (auto simp: keeps_def types_kept_def well_typed_def upd_inode_def typed_update split: option.splits)

lemma types_load: "keeps types_kept (yaf_iget E sb i)"
proof (unfold keeps_def types_kept_def well_typed_def, intro allI impI)
  fix s r s' j v
  assume run: "yaf_iget E sb i s = Run r s'" and wt: "\<forall>i v. icache s i = Some v \<longrightarrow> i \<notin> inew s \<longrightarrow> typed v"
    and v: "icache s' j = Some v" "j \<notin> inew s'"
  show "typed v"
    using run wt v typed_fill
    by (auto simp: yaf_iget_def bnd_def kernel_defs iget_locked_def upd_inode_def ret_def
        split: outcome.splits option.splits if_splits)
qed

interpretation types: contract E types_kept "\<lambda>_. True" for E
proof
  show "reflp types_kept" "transp types_kept" by (auto simp: reflp_def transp_def types_kept_def)
qed (auto simp: types_update types_load simp flip: keeps_obeys, auto simp: keeps_def types_kept_def well_typed_def kernel_defs split: if_splits)

section \<open>Marks for writing back\<close>

text \<open>
  No mark on a buffer or an inode is lost, and no inode in memory vanishes.
\<close>

definition marks_kept :: "kst \<Rightarrow> kst \<Rightarrow> bool" where
  "marks_kept s s' \<longleftrightarrow> bdirty s \<subseteq> bdirty s' \<and> idirty s \<subseteq> idirty s' \<and> loose s \<subseteq> loose s' \<and>
     dom (icache s) \<subseteq> dom (icache s') \<and> dom (dcache s) \<subseteq> dom (dcache s')"

lemma marks_load: "keeps marks_kept (yaf_iget E sb i)"
  by (auto simp: keeps_def marks_kept_def yaf_iget_def bnd_def kernel_defs iget_locked_def upd_inode_def ret_def
      split: outcome.splits option.splits if_splits)

interpretation marks: contract E marks_kept "\<lambda>_. True" for E
proof
  show "reflp marks_kept" by (simp add: reflp_def marks_kept_def)
  show "transp marks_kept"
    unfolding transp_def marks_kept_def by (intro allI impI conjI; elim conjE; erule (1) subset_trans)
qed (auto simp: marks_load simp flip: keeps_obeys, auto simp: keeps_def marks_kept_def kernel_defs upd_inode_def split: if_splits option.splits)

section \<open>Properties\<close>

text \<open>
  C32. The types of inodes. Whatever reads, allocations or name searches fail, when an operation
  of the driver returns, every unlocked inode in memory still has a block list of
  \<open>YAF_IBLOCKS\<close> entries, the inode operations and the tables its mode calls for: directory operations are
  never reached for a file nor file operations for a directory. This holds of loading and
  writing back an inode, of the five inode operations, of reading a directory, and of mapping a
  block.
\<close>

theorem driver_keeps_types:
  "keeps types_kept (yaf_iget E sb i) \<and> keeps types_kept (yaf_write_inode E sb i) \<and>
   keeps types_kept (yaf_create E sb dir nm mode) \<and> keeps types_kept (yaf_mkdir E sb dir nm mode) \<and>
   keeps types_kept (yaf_lookup E sb dir nm) \<and> keeps types_kept (yaf_unlink E sb dir nm) \<and>
   keeps types_kept (yaf_rmdir E sb dir nm) \<and> keeps types_kept (yaf_iterate_shared E sb A parent dir ctx) \<and>
   keeps types_kept (yaf_get_block E sb i blk c)"
  unfolding keeps_obeys
  by (intro conjI types.load types.write_inode types.create types.lookup types.remove types.iterate types.get_block)

text \<open>
  No mark is lost. Whatever fails, an operation of the driver never clears the mark of a
  buffer or of an inode that waits to be written back, and drops no inode and no dentry from the
  caches: what the kernel has yet to write it still writes.
\<close>

theorem driver_keeps_marks:
  "keeps marks_kept (yaf_iget E sb i) \<and> keeps marks_kept (yaf_write_inode E sb i) \<and>
   keeps marks_kept (yaf_create E sb dir nm mode) \<and> keeps marks_kept (yaf_mkdir E sb dir nm mode) \<and>
   keeps marks_kept (yaf_lookup E sb dir nm) \<and> keeps marks_kept (yaf_unlink E sb dir nm) \<and>
   keeps marks_kept (yaf_rmdir E sb dir nm) \<and> keeps marks_kept (yaf_iterate_shared E sb A parent dir ctx) \<and>
   keeps marks_kept (yaf_get_block E sb i blk c)"
  unfolding keeps_obeys
  by (intro conjI marks.load marks.write_inode marks.create marks.lookup marks.remove marks.iterate marks.get_block)

end
