(* ===== verification/Yaf_Device.thy ===== *)
theory Yaf_Device
  imports Yaf_Content Yaf_Contract
begin

text \<open>
  The device behind the buffer cache. The driver changes blocks in the cache and marks them dirty; the
  kernel writes marked blocks to the device whenever it likes. Every block the driver changes it marks,
  on every path, so that the device differs from the cache in marked blocks only.
\<close>

section \<open>Every change is marked\<close>

abbreviation marks :: "'a kc \<Rightarrow> bool" where
  "marks m \<equiv> obeys changes_marked (\<lambda>_. True) m"

interpretation unchanged: reading E changes_marked "\<lambda>_. True" for E
proof
  show "reflp changes_marked" by (simp add: reflp_def changes_marked_def)
  show "transp changes_marked" by (auto intro: transpI changes_marked_trans)
qed (simp_all add: obeys_def changes_marked_def kernel_defs)

lemma marks_calls:
  "marks (mark_buffer_dirty b)" "marks (mark_page_dirty b)" "marks (mark_inode_dirty i)" "marks (d_bind i nm y)"
  "marks (upd_inode i f)"
  by (auto simp: obeys_def changes_marked_def kernel_defs mark_page_dirty_def upd_inode_def split: option.splits)

text \<open>A block is changed and marked, with the reference to it given back before or after.\<close>

lemma marks_change:
  assumes "\<And>x. marks (f x)"
  shows "marks (bnd (set_b_data b blk) (\<lambda>_. bnd (mark_buffer_dirty b) f))"
    "marks (bnd (set_b_data b blk) (\<lambda>_. bnd (brelse b) (\<lambda>_. bnd (mark_buffer_dirty b) f)))"
    "marks (bnd (set_b_data b blk) (\<lambda>_. bnd (mark_page_dirty b) f))"
proof -
  have "marks (bnd m f)" if "marks m" for m :: "unit kc"
    using that assms by (intro unchanged.look)
  moreover have "marks (bnd (set_b_data b blk) (\<lambda>_. mark_buffer_dirty b))"
    "marks (bnd (set_b_data b blk) (\<lambda>_. bnd (brelse b) (\<lambda>_. mark_buffer_dirty b)))"
    "marks (bnd (set_b_data b blk) (\<lambda>_. mark_page_dirty b))"
    by (auto simp: obeys_def bnd_def changes_marked_def kernel_defs mark_page_dirty_def)
  ultimately show "marks (bnd (set_b_data b blk) (\<lambda>_. bnd (mark_buffer_dirty b) f))"
    "marks (bnd (set_b_data b blk) (\<lambda>_. bnd (brelse b) (\<lambda>_. bnd (mark_buffer_dirty b) f)))"
    "marks (bnd (set_b_data b blk) (\<lambda>_. bnd (mark_page_dirty b) f))"
    by (simp_all only: bnd_assoc [symmetric])
qed

lemma discipline_marks: "keeps buffer_discipline m \<Longrightarrow> marks m"
  by (auto simp: keeps_obeys [symmetric] keeps_def buffer_discipline_def)

lemmas marks_parts = keeps_get_free_inode [THEN discipline_marks] keeps_put_inode [THEN discipline_marks]
  keeps_put_dblock [THEN discipline_marks] keeps_iget [THEN discipline_marks]
  keeps_write_inode [THEN discipline_marks] keeps_new_inode [THEN discipline_marks]

lemmas marking = marks_change unchanged.look marks_calls marks_parts

section \<open>The operations\<close>

lemma marks_get_free_dblock: "marks (yaf_get_free_dblock E sb)"
proof -
  have "marks (get_free_dblock_loop E sb bids)" for bids
    by (induction bids)
      (simp only: get_free_dblock_loop.simps Let_def word_zero_le if_True, intro marking | assumption)+
  then show ?thesis by (simp add: yaf_get_free_dblock_def)
qed

lemma marks_create: "marks (do_yaf_create E sb dir nm mode)"
  unfolding do_yaf_create_def yaf_get_free_dentry_def append_dentry_def
  by (intro marking unchanged.dir_search marks_get_free_dblock)

lemma marks_lookup: "marks (yaf_lookup E sb dir nm)"
  unfolding yaf_lookup_def lookup_out_def by (intro marking unchanged.find)

lemma marks_put_dblocks: "marks (put_dblocks E sb v doff)"
proof (induction "i_size v - doff" arbitrary: doff rule: less_induct)
  case less
  show ?case by (subst put_dblocks.simps) (intro marking less; simp)
qed

lemma marks_remove: "marks (yaf_unlink E sb dir nm)" "marks (yaf_rmdir E sb dir nm)"
  unfolding yaf_unlink_def yaf_rmdir_def yaf_delete_def by (intro marking unchanged.find marks_put_dblocks)+

lemma marks_get_block: "marks (yaf_get_block E sb ino blk c)"
proof -
  have "marks (extend_blocks E sb ino dbnr n)" for dbnr n
  proof (induction "Suc n - dbnr" arbitrary: dbnr rule: less_induct)
    case less
    show ?case by (subst extend_blocks.simps) (intro marking marks_get_free_dblock less; simp)
  qed
  then show ?thesis unfolding yaf_get_block_def map_block_def by (intro marking)
qed

text \<open>The two halves of a write, with the kernel's part of it.\<close>

lemma marks_write_begin:
  assumes "write_begin_contract bwb off len"
  shows "marks (yaf_write_begin bwb E sb ino off len)"
proof -
  have "bwb g off len = bnd (g (of_nat (off div YAF_BLOCK_SIZE)) True) (\<lambda>r. ret (fst r))" for g
    using assms by (intro ext) (simp only: write_begin_contract_def)
  then show ?thesis unfolding yaf_write_begin_def by (simp only:) (intro marking marks_get_block)
qed

lemma marks_write_end:
  assumes "write_end_contract gwe sb ino off data"
  shows "marks (yaf_write_end gwe E ino off (of_nat (length data)) (of_nat (length data)))"
proof -
  have "gwe off (of_nat (length data)) (of_nat (length data)) = store_data sb ino off data"
    using assms by (intro ext) (simp only: write_end_contract_def)
  moreover have "marks (store_data sb ino off data)" unfolding store_data_def by (intro marking)
  ultimately show ?thesis unfolding yaf_write_end_def by (simp only:) (intro marking)
qed

text \<open>Every request.\<close>

lemma marks_update: "(\<And>s. disk (g s) = disk s \<and> bdirty (g s) = bdirty s) \<Longrightarrow> marks (\<lambda>s. Run r (g s))"
  by (simp add: obeys_def changes_marked_def)

lemma marks_then: "marks m \<Longrightarrow> (\<And>r s. disk (g r s) = disk s \<and> bdirty (g r s) = bdirty s) \<Longrightarrow> marks (bnd m (\<lambda>r s. Run r (g r s)))"
  by (intro marking marks_update)

lemma marks_serve: "marks (serve E sb q)"
proof (cases q)
  case (Unlink dir nm ino)
  then show ?thesis
    unfolding Unlink serve.simps then_forget_def yaf_inode_ops_def inode_operations.simps
    by (intro marks_then marks_remove) (simp add: forget_def)
next
  case (Rmdir dir nm ino)
  then show ?thesis
    unfolding Rmdir serve.simps then_forget_def yaf_inode_ops_def inode_operations.simps
    by (intro marks_then marks_remove) (simp add: forget_def)
next
  case (Sync ino)
  then show ?thesis
    unfolding Sync serve.simps sync_inode_def by (intro marks_then marks_parts) simp
next
  case (Resize ino sz)
  then show ?thesis unfolding Resize serve.simps set_size_def by (intro marking)
next
  case (Evict ino)
  then show ?thesis by (simp add: obeys_def changes_marked_def)
next
  case (Drop dir nm)
  then show ?thesis by (simp add: obeys_def changes_marked_def)
qed (simp_all only: serve.simps yaf_inode_ops_def inode_operations.simps yaf_create_def yaf_mkdir_def,
    (intro marking marks_create marks_lookup marks_get_block)+)

section \<open>The device\<close>

type_synonym device = "u64 \<Rightarrow> block"

text \<open>The device may lag behind the cache, in marked blocks; the kernel writes one of them out.\<close>

definition lags :: "kst \<Rightarrow> device \<Rightarrow> bool" where
  "lags s dev \<longleftrightarrow> (\<forall>b. disk s b \<noteq> dev b \<longrightarrow> b \<in> bdirty s)"

definition write_out :: "u64 \<Rightarrow> kst \<Rightarrow> device \<Rightarrow> kst \<times> device" where
  "write_out b s dev = (s\<lparr>bdirty := bdirty s - {b}\<rparr>, dev(b := disk s b))"

lemma lags_run: "marks m \<Longrightarrow> m s = Run r s' \<Longrightarrow> lags s dev \<Longrightarrow> lags s' dev"
proof (unfold lags_def, intro allI impI)
  fix b assume m: "marks m" "m s = Run r s'" and lag: "\<forall>b. disk s b \<noteq> dev b \<longrightarrow> b \<in> bdirty s" and new: "disk s' b \<noteq> dev b"
  have c: "bdirty s \<subseteq> bdirty s'" "disk s' b \<noteq> disk s b \<Longrightarrow> b \<in> bdirty s'"
    using obeysD(1) [OF m] by (simp_all add: changes_marked_def)
  show "b \<in> bdirty s'"
  proof (cases "disk s' b = disk s b")
    case True
    then have "disk s b \<noteq> dev b" using new by simp
    then show ?thesis using lag c(1) by blast
  qed (rule c(2))
qed

lemma lags_write_out: "lags s dev \<Longrightarrow> write_out b s dev = (s', dev') \<Longrightarrow> lags s' dev'"
  unfolding lags_def write_out_def prod.inject by (elim conjE, hypsubst) simp

lemma lags_none: "lags s dev \<Longrightarrow> bdirty s = {} \<Longrightarrow> dev = disk s"
  unfolding lags_def by (rule ext) simp

lemma lags_written:
  assumes "lags s dev"
  shows "(\<lambda>b. if b \<in> bdirty s then disk s b else dev b) = disk s"
proof (rule ext)
  fix b
  show "(if b \<in> bdirty s then disk s b else dev b) = disk s b" using assms unfolding lags_def by metis
qed

section \<open>Properties\<close>

text \<open>
  C7. No change is forgotten. Whatever fails, when an operation of the driver returns, with an error or
  without, every block whose content it changed is marked dirty, and no mark was lost: what the kernel
  writes to the device is everything the driver did.
\<close>

theorem changes_are_marked:
  "keeps changes_marked (yaf_iget E sb i) \<and> keeps changes_marked (yaf_write_inode E sb i) \<and>
   keeps changes_marked (yaf_create E sb dir nm mode) \<and> keeps changes_marked (yaf_mkdir E sb dir nm mode) \<and>
   keeps changes_marked (yaf_lookup E sb dir nm) \<and> keeps changes_marked (yaf_unlink E sb dir nm) \<and>
   keeps changes_marked (yaf_rmdir E sb dir nm) \<and>
   keeps changes_marked (yaf_iterate_shared E sb A parent dir ctx) \<and>
   keeps changes_marked (yaf_get_block E sb i blk c)"
  unfolding keeps_obeys yaf_create_def yaf_mkdir_def
  by (intro conjI marks_parts marks_create marks_lookup marks_remove marks_get_block unchanged.iterate)

end
