(* ===== verification/Yaf_Shutdown.thy ===== *)
theory Yaf_Shutdown
  imports Yaf_Device
begin

text \<open>
  The end of a mount: from every state the kernel can write back and drop all it holds in memory,
  one request and one block at a time, so that an unmount always gets there and leaves on the device what
  the driver made.
\<close>

section \<open>Housekeeping\<close>

text \<open>
  The requests by which the kernel settles a file system: writing back and dropping what it caches.
  Between them it writes marked blocks out.
\<close>

fun housekeeping :: "request \<Rightarrow> bool" where
  "housekeeping (Sync ino) = True"
| "housekeeping (Evict ino) = True"
| "housekeeping (Drop dir nm) = True"
| "housekeeping q = False"

inductive settle :: "env \<Rightarrow> Yaf_Sb_Info \<Rightarrow> kst \<times> device \<Rightarrow> kst \<times> device \<Rightarrow> bool" for E sb x where
  start: "settle E sb x x"
| settled: "settle E sb x (s, dev) \<Longrightarrow> housekeeping q \<Longrightarrow> allowed sb s q \<Longrightarrow> serve E sb q s = Run r s' \<Longrightarrow>
    settle E sb x (s', dev)"
| flushed: "settle E sb x (s, dev) \<Longrightarrow> b \<in> bdirty s \<Longrightarrow> settle E sb x (write_out b s dev)"

lemma settle_trans: "settle E sb y z \<Longrightarrow> settle E sb x y \<Longrightarrow> settle E sb x z"
  by (induction rule: settle.induct) (blast intro: settle.settled settle.flushed)+

lemma settle_once:
  "housekeeping q \<Longrightarrow> allowed sb s q \<Longrightarrow> serve E sb q s = Run r s' \<Longrightarrow> settle E sb (s, dev) (s', dev)"
  by (rule settle.settled [OF settle.start])

text \<open>In whatever order this is done, the tree stays as it is.\<close>

lemma housekeeping_spec: "housekeeping q \<Longrightarrow> spec_of q a r a' \<Longrightarrow> a' = a"
  by (cases q) simp_all

lemma settle_inv:
  assumes "settle E sb (s, dev) (s', dev')" and "fs_inv sb s" and "device_ok E sb" and "owner_ok E" and "lags s dev"
  shows "fs_inv sb s' \<and> afs_of sb s' = afs_of sb s \<and> lags s' dev'"
  using assms
proof (induction "(s', dev')" arbitrary: s' dev' rule: settle.induct)
  case (settled t dv q r t')
  then have t: "fs_inv sb t" "afs_of sb t = afs_of sb s" "lags t dv" by blast+
  obtain r' t'' where "serve E sb q t = Run r' t''" "fs_inv sb t''" "spec_of q (afs_of sb t) r' (afs_of sb t'')"
    using request_served [OF t(1) settled.prems(2,3) settled.hyps(4)] by blast
  moreover have "lags t' dv" by (rule lags_run [OF marks_serve settled.hyps(5) t(3)])
  ultimately show ?case using settled.hyps(3,5) housekeeping_spec t(2) by auto
next
  case (flushed t dv b)
  then have t: "fs_inv sb t" "afs_of sb t = afs_of sb s" "lags t dv" by blast+
  have "lags s' dev'" by (rule lags_write_out [OF t(3)]) (rule flushed.hyps(4))
  then show ?case using bdirty_step [OF t(1)] t(2) flushed.hyps(4) by (auto simp: write_out_def)
qed simp

text \<open>Every dentry can be dropped.\<close>

lemma drop_all:
  assumes "fs_inv sb s" and "finite (dom (dcache s))"
  shows "\<exists>s'. settle E sb (s, dev) (s', dev) \<and> fs_inv sb s' \<and> afs_of sb s' = afs_of sb s \<and> dcache s' = Map.empty"
  using assms
proof (induction "card (dom (dcache s))" arbitrary: s)
  case 0
  then have "dcache s = Map.empty" by simp
  with 0 show ?case by (intro exI [of _ s]) (simp add: settle.start)
next
  case (Suc n)
  then obtain dir nm where k: "(dir, nm) \<in> dom (dcache s)" by (metis card_eq_0_iff ex_in_conv nat.simps(3) surj_pair)
  let ?s = "s\<lparr>dcache := (dcache s)((dir, nm) := None)\<rparr>"
  have step: "fs_inv sb ?s" "afs_of sb ?s = afs_of sb s"
    using drop_dentry_step [OF Suc.prems(1) refl] by blast+
  have r: "settle E sb (s, dev) (?s, dev)" by (rule settle_once [where q = "Drop dir nm" and r = 0]) simp_all
  have "dom (dcache ?s) = dom (dcache s) - {(dir, nm)}" by auto
  then have "n = card (dom (dcache ?s))" "finite (dom (dcache ?s))"
    using Suc.hyps(2) Suc.prems(2) k by simp_all
  then obtain s' where "settle E sb (?s, dev) (s', dev)" "fs_inv sb s'" "afs_of sb s' = afs_of sb ?s" "dcache s' = Map.empty"
    using Suc.hyps(1) [of ?s] step(1) by blast
  with r step(2) show ?case by (intro exI [of _ s']) (simp add: settle_trans)
qed

text \<open>Then every inode can be written back and dropped.\<close>

lemma evict_all:
  assumes "fs_inv sb s" and "device_ok E sb" and "dcache s = Map.empty"
  shows "\<exists>s'. settle E sb (s, dev) (s', dev) \<and> fs_inv sb s' \<and> afs_of sb s' = afs_of sb s \<and> dcache s' = Map.empty \<and>
    icache s' = Map.empty"
  using assms(1,3)
proof (induction "card (dom (icache s))" arbitrary: s)
  case 0
  then have "icache s = Map.empty" by simp
  with 0 show ?case by (intro exI [of _ s]) (simp add: settle.start)
next
  case (Suc n)
  then obtain ino v where v: "icache s ino = Some v" by (metis card.empty dom_empty ext nat.simps(3) not_Some_eq)
  obtain s1 where s1: "sync_inode E sb ino s = Run 0 s1" "fs_inv sb s1" "afs_of sb s1 = afs_of sb s"
      "icache s1 = icache s" "dcache s1 = dcache s" "idirty s1 = idirty s - {ino}"
    using sync_step [OF Suc.prems(1) assms(2) v] by (elim exE conjE) (rule that, assumption+)
  let ?s = "s1\<lparr>icache := (icache s1)(ino := None)\<rparr>"
  have v1: "icache s1 ino = Some v" "ino \<notin> idirty s1" "dcache s1 = Map.empty"
    using v s1(4-6) Suc.prems(2) by simp_all
  have step: "fs_inv sb ?s \<and> afs_of sb ?s = afs_of sb s1"
    by (rule evict_step [OF s1(2) v1(1,2)]) (simp_all add: v1(3))
  have r1: "settle E sb (s, dev) (s1, dev)" by (rule settle_once [where q = "Sync ino" and r = 0]) (simp_all add: v s1(1))
  have r2: "settle E sb (s, dev) (?s, dev)" by (rule settle.settled [OF r1, where q = "Evict ino" and r = 0]) (simp_all add: v1)
  have "dom (icache ?s) = dom (icache s) - {ino}" using s1(4) by auto
  then have "n = card (dom (icache ?s))" using Suc.hyps(2) v by (simp add: domI)
  then obtain s' where s': "settle E sb (?s, dev) (s', dev)" "fs_inv sb s'" "afs_of sb s' = afs_of sb ?s" "dcache s' = Map.empty"
      "icache s' = Map.empty"
    using Suc.hyps(1) [of ?s] step v1(3) by auto
  have "afs_of sb s' = afs_of sb s" using s'(3) step s1(3) by simp
  with s' settle_trans [OF s'(1) r2] show ?case by blast
qed

text \<open>Then every marked block can be written out.\<close>

lemma flush_all:
  "settle E sb (s, dev) (s\<lparr>bdirty := {}\<rparr>, \<lambda>b. if b \<in> bdirty s then disk s b else dev b)"
proof (induction "card (bdirty s)" arbitrary: s dev)
  case 0
  then have "bdirty s = {}" by simp
  moreover from this have "s\<lparr>bdirty := {}\<rparr> = s" by simp
  ultimately have "(s\<lparr>bdirty := {}\<rparr>, \<lambda>b. if b \<in> bdirty s then disk s b else dev b) = (s, dev)" by (simp only: empty_iff if_False)
  then show ?case by (simp only: settle.start)
next
  case (Suc n)
  then obtain b where b: "b \<in> bdirty s" by (metis card.empty ex_in_conv nat.simps(3))
  let ?s = "s\<lparr>bdirty := bdirty s - {b}\<rparr>" and ?dev = "dev(b := disk s b)"
  have "settle E sb (s, dev) (?s, ?dev)"
    using settle.flushed [OF settle.start b] by (simp add: write_out_def)
  moreover have "n = card (bdirty ?s)" using Suc.hyps(2) b by simp
  then have "settle E sb (?s, ?dev) (?s\<lparr>bdirty := {}\<rparr>, \<lambda>a. if a \<in> bdirty ?s then disk ?s a else ?dev a)"
    by (rule Suc.hyps(1))
  moreover have "(\<lambda>a. if a \<in> bdirty ?s then disk ?s a else ?dev a) = (\<lambda>a. if a \<in> bdirty s then disk s a else dev a)"
    using b by auto
  ultimately show ?case using settle_trans by simp
qed

lemma shut_down:
  assumes "fs_inv sb s" and "device_ok E sb" and "owner_ok E" and "finite (dom (dcache s))" and "lags s dev"
  shows "\<exists>s'. settle E sb (s, dev) (s', disk s') \<and> fs_inv sb s' \<and> icache s' = Map.empty \<and> dcache s' = Map.empty \<and>
    bdirty s' = {} \<and> afs_of sb s' = afs_of sb s"
proof -
  obtain s1 where s1: "settle E sb (s, dev) (s1, dev)" "fs_inv sb s1" "afs_of sb s1 = afs_of sb s" "dcache s1 = Map.empty"
    using drop_all [OF assms(1,4)] by blast
  obtain s2 where s2: "settle E sb (s1, dev) (s2, dev)" "fs_inv sb s2" "afs_of sb s2 = afs_of sb s1" "dcache s2 = Map.empty"
      "icache s2 = Map.empty"
    using evict_all [OF s1(2) assms(2) s1(4)] by blast
  have r: "settle E sb (s, dev) (s2, dev)" by (rule settle_trans [OF s2(1) s1(1)])
  then have "lags s2 dev" using settle_inv [OF _ assms(1-3,5)] by blast
  note written = lags_written [OF this]
  then have "settle E sb (s, dev) (s2\<lparr>bdirty := {}\<rparr>, disk (s2\<lparr>bdirty := {}\<rparr>))"
    using settle_trans [OF flush_all [of E sb s2 dev] r] written by simp
  then show ?thesis
    using bdirty_step [OF s2(2), of "{}"] s1(3) s2(3-5) by (intro exI [of _ "s2\<lparr>bdirty := {}\<rparr>"]) simp
qed

section \<open>Mounting again\<close>

text \<open>With no dirty inode in memory, the disk alone holds the same tree.\<close>

lemma settled_disk:
  assumes inv: "fs_inv sb s" and clean: "\<forall>i. icache s i \<noteq> None \<longrightarrow> i \<notin> idirty s"
  shows "fs_inv sb (kst_of (disk s)) \<and> afs_of sb (kst_of (disk s)) = afs_of sb s"
proof -
  let ?s = "kst_of (disk s)"
  have dn: "disk_node sb ?s i = disk_node sb s i" for i by (simp add: disk_node_def dinode_at_def)
  have same: "untouched sb s ?s i" for i
  proof (rule untouched_disk [OF fs_invD(5) [OF inv]])
    have "core (disk_node sb s i) = core v" if "icache s i = Some v" for v
      using fs_invD(6) [OF inv] clean that by (simp add: clean_ok_def)
    then show "core (node sb ?s i) = core (node sb s i)" by (simp add: node_def dn split: option.split)
  qed simp
  show ?thesis
    by (intro conjI unseen_step [OF inv same])
      (simp_all add: fs_invD(2,3) [OF inv] clean_ok_def)
qed

lemma remount:
  assumes "fs_inv sb s" and dev: "device_ok E sb" and "\<forall>i. icache s i \<noteq> None \<longrightarrow> i \<notin> idirty s"
    and "lags s dv" and "bdirty s = {}"
  shows "\<exists>m' d. yaf_fill_super E True True (unmounted (kst_of dv)) = Run 0 m' \<and> s_fs_info m' = Some sb \<and>
    fs_inv sb (ks m') \<and> afs_of sb (ks m') = afs_of sb s \<and> icache (ks m') = [ROOT_INO \<mapsto> d] \<and>
    S_ISDIR (i_mode d) \<and> dcache (ks m') = Map.empty"
  unfolding lags_none [OF assms(4,5)]
  using settled_disk [OF assms(1,3)] mount_inv [of sb "kst_of (disk s)" E] dev by auto

section \<open>Properties\<close>

text \<open>
  C11. An unmount always gets there. From every state of a working device that satisfies the
  invariant, with a device that lags behind in marked blocks only, a sequence of housekeeping
  steps (write an inode back, drop an inode or a dentry, each allowed and served by the driver, write a
  marked block out) leads to a state in which no inode and no dentry is left in memory and no block is marked,
  with the abstract file system unchanged, and the device then holds what the driver sees: no
  operation leaves behind an inode that stays locked or cannot be written back.
\<close>

theorem shutdown_possible:
  assumes "fs_inv sb s" and "device_ok E sb" and "owner_ok E" and "finite (dom (dcache s))" and "lags s dev"
  shows "\<exists>s'. settle E sb (s, dev) (s', disk s') \<and> fs_inv sb s' \<and> icache s' = Map.empty \<and> dcache s' = Map.empty \<and>
    bdirty s' = {} \<and> afs_of sb s' = afs_of sb s"
  using shut_down [OF assms] .

theorem shutdown_possible_witness:
  "\<exists>s dev s'. icache s ROOT_INO \<noteq> None \<and> settle env0 sb0 (s, dev) (s', disk s') \<and> icache s' = Map.empty \<and>
     bdirty s' = {} \<and> afs_of sb0 s' = [ROOT_INO \<mapsto> Dir Map.empty]"
proof -
  obtain m' d where m: "fs_inv sb0 (ks (m' :: mount))" "afs_of sb0 (ks m') = [ROOT_INO \<mapsto> Dir Map.empty]"
      "icache (ks m') = [ROOT_INO \<mapsto> d]" "dcache (ks m') = Map.empty"
    using sample_mount by (elim exE conjE) (rule that; assumption)
  have fin: "finite (dom (dcache (ks m')))" and in_mem: "icache (ks m') ROOT_INO \<noteq> None" using m(3,4) by simp_all
  have lag: "lags (ks m') (disk (ks m'))" by (simp add: lags_def)
  from shutdown_possible [OF m(1) sample_dir(1) owner_env0 fin lag] obtain s'
    where "settle env0 sb0 (ks m', disk (ks m')) (s', disk s')" "icache s' = Map.empty" "bdirty s' = {}"
      "afs_of sb0 s' = afs_of sb0 (ks m')" by blast
  with in_mem m(2) show ?thesis by (intro exI [of _ "ks m'"] exI [of _ "disk (ks m')"] exI [of _ s']) simp
qed

end
