(* ===== verification/Yaf_Life.thy ===== *)
theory Yaf_Life
  imports Yaf_Shutdown
begin

text \<open>
  The life of a file: made, written, settled to the device, found and read back after an unmount.
  The lemmas join the steps of the other theories; the root theory puts them behind the
  formatting tool.
\<close>

section \<open>Finitely many dentries\<close>

definition few_dentries :: "kst \<Rightarrow> kst \<Rightarrow> bool" where
  "few_dentries s s' \<longleftrightarrow> (finite (dom (dcache s)) \<longrightarrow> finite (dom (dcache s')))"

lemma few_load: "keeps few_dentries (yaf_iget E sb i)"
  by (auto simp: keeps_def few_dentries_def yaf_iget_def bnd_def kernel_defs iget_locked_def upd_inode_def ret_def
      split: outcome.splits option.splits if_splits)

interpretation few: contract E few_dentries "\<lambda>_. True" for E
proof
  show "reflp few_dentries" "transp few_dentries" by (auto simp: reflp_def transp_def few_dentries_def)
qed (auto simp: few_load simp flip: keeps_obeys,
    auto simp: keeps_def few_dentries_def kernel_defs upd_inode_def split: if_splits option.splits)

lemma few_update: "obeys few_dentries (\<lambda>_. True) (upd_inode i f)"
  unfolding keeps_obeys [symmetric] by (auto simp: keeps_def few_dentries_def upd_inode_def split: option.splits)

lemma few_page: "obeys few_dentries (\<lambda>_. True) (mark_page_dirty b)"
  by (simp add: obeys_def few_dentries_def mark_page_dirty_def)

text \<open>The kernel's part of a write binds no names.\<close>

lemma few_write_begin:
  assumes "write_begin_contract bwb off len"
  shows "obeys few_dentries (\<lambda>_. True) (yaf_write_begin bwb E sb ino off len)"
proof (rule few.write_begin)
  fix g :: get_block
  assume g: "\<And>b c. obeys few_dentries (\<lambda>_. True) (g b c)"
  have "bwb g off len = bnd (g (of_nat (off div YAF_BLOCK_SIZE)) True) (\<lambda>r. ret (fst r))"
    using assms by (intro ext) (simp only: write_begin_contract_def)
  then show "obeys few_dentries (\<lambda>_. True) (bwb g off len)" by (simp only:) (intro few.look g)
qed

lemma few_write_end:
  assumes "write_end_contract gwe sb ino off data"
  shows "obeys few_dentries (\<lambda>_. True) (yaf_write_end gwe E ino off (of_nat (length data)) (of_nat (length data)))"
proof (rule few.write_end)
  have "gwe off (of_nat (length data)) (of_nat (length data)) = store_data sb ino off data"
    using assms by (intro ext) (simp only: write_end_contract_def)
  moreover have "obeys few_dentries (\<lambda>_. True) (store_data sb ino off data)"
    unfolding store_data_def by (intro few.keep few_update few_page)
  ultimately show "obeys few_dentries (\<lambda>_. True) (gwe off (of_nat (length data)) (of_nat (length data)))" by simp
qed

section \<open>A file is made and written\<close>

lemma written_all: "written 0 data [] d \<Longrightarrow> d = data"
  by (rule nth_equalityI) (simp_all add: written_def)

lemma one_block_free:
  assumes "used_bits (disk s (BID_DBP_MIN sb)) \<subseteq> {x}" and "2 < unat (nr_d sb)"
  shows "Suc 0 - n \<le> card (free_dblocks sb s)"
proof -
  have "(if x = 0 then 1 else 0) \<in> free_dblocks sb s"
    using assms by (auto simp: free_dblocks_def)
  moreover have "finite (free_dblocks sb s)" by (simp add: free_dblocks_def)
  ultimately have "0 < card (free_dblocks sb s)" by (auto simp: card_gt_0_iff)
  then show ?thesis by simp
qed

lemma file_made:
  assumes inv: "fs_inv sb s" and dev: "device_ok E sb" and own: "owner_ok E" and may: "may_create sb s dir nm mode"
    and bits: "used_bits (disk s (BID_DBP_MIN sb)) = {..<0}" "2 < unat (nr_d sb)"
    and few: "finite (dom (dcache s))" and fits: "data \<noteq> []" "length data \<le> YAF_BLOCK_SIZE"
    and bwb: "write_begin_contract bwb 0 (of_nat (length data))"
    and gwe: "\<And>ino. write_end_contract (gwe ino) sb ino 0 data"
  shows "\<exists>s1 ino s2 s3 m i. yaf_create E sb dir nm mode s = Run 0 s1 \<and> dcache s1 (dir, nm) = Some (Some ino) \<and>
    yaf_write_begin bwb E sb ino 0 (of_nat (length data)) s1 = Run 0 s2 \<and>
    yaf_write_end (gwe ino) E ino 0 (of_nat (length data)) (of_nat (length data)) s2 = Run (int (length data)) s3 \<and>
    fs_inv sb s3 \<and> ino = ucast (i :: u32) \<and> afs_of sb s dir = Some (Dir m) \<and>
    afs_of sb s3 = (afs_of sb s)(dir := Some (Dir (m(nm := Some i))), ino := Some (File data)) \<and>
    finite (dom (dcache s3)) \<and> (\<forall>dev. lags s dev \<longrightarrow> lags s3 dev)"
proof -
  have op: "yaf_create = yaf_create \<and> S_IFREG = S_IFREG \<or> yaf_create = yaf_mkdir \<and> S_IFREG = S_IFDIR" by simp
  obtain s1 m i x where s1: "yaf_create E sb dir nm mode s = Run 0 s1" "fs_inv sb s1" "afs_of sb s dir = Some (Dir m)"
      "afs_of sb s1 = (afs_of sb s)(dir := Some (Dir (m(nm := Some i))), ucast i := Some (File []))"
      "dcache s1 (dir, nm) = Some (Some (ucast (i :: u32)))" "used_bits (disk s1 (BID_DBP_MIN sb)) \<subseteq> {x}"
    using create_system [OF inv dev own may op] unfolding bits(1)
    by (elim exE conjE) (rule that; simp add: S_IFREG_def S_IFDIR_def)
  let ?ino = "ucast i :: u64"
  obtain v where v: "icache s1 ?ino = Some v"
    using dentries_okD [OF fs_invD(7) [OF s1(2)] s1(5)] by (auto simp: dentry_in_def)
  have at: "afs_of sb s1 ?ino = Some (File [])" using s1(4) by simp
  obtain s2 s3 d' where w: "yaf_write_begin bwb E sb ?ino 0 (of_nat (length data)) s1 = Run 0 s2"
      "yaf_write_end (gwe ?ino) E ?ino 0 (of_nat (length data)) (of_nat (length data)) s2 = Run (int (length data)) s3"
      "fs_inv sb s3" "afs_of sb s3 = (afs_of sb s1)(?ino := Some (File d'))" "written 0 data [] d'"
    using write_file [OF s1(2) dev v at fits(1) _ _ _ bwb gwe] fits(2) one_block_free [OF s1(6) bits(2)] by auto
  have "finite (dom (dcache s1))" "finite (dom (dcache s1)) \<longrightarrow> finite (dom (dcache s2))"
      "finite (dom (dcache s2)) \<longrightarrow> finite (dom (dcache s3))"
    using few obeysD(1) [OF few.create(1) s1(1)] obeysD(1) [OF few_write_begin [OF bwb] w(1)]
      obeysD(1) [OF few_write_end [OF gwe] w(2)] by (simp_all add: few_dentries_def)
  then have fin: "finite (dom (dcache s3))" by simp
  have made: "marks (yaf_create E sb dir nm mode)" by (simp only: yaf_create_def marks_create)
  have lag: "\<forall>dev. lags s dev \<longrightarrow> lags s3 dev"
    using lags_run [OF made s1(1)] lags_run [OF marks_write_begin [OF bwb] w(1)] lags_run [OF marks_write_end [OF gwe] w(2)] by blast
  have afs: "afs_of sb s3 = (afs_of sb s)(dir := Some (Dir (m(nm := Some i))), ?ino := Some (File data))"
    using w(4) s1(4) written_all [OF w(5)] by simp
  show ?thesis
    by (rule exI [of _ s1], rule exI [of _ ?ino], rule exI [of _ s2], rule exI [of _ s3], rule exI [of _ m],
        rule exI [of _ i], intro conjI) (fact s1(1,3,5) w(1-3) refl afs fin lag)+
qed

section \<open>It is found and read after an unmount\<close>

lemma file_found:
  assumes inv: "fs_inv sb s" and dev: "device_ok E sb" and nm: "valid_name nm" and none: "icache s = Map.empty"
    and dv: "lags s dv" "bdirty s = {}"
    and root: "afs_of sb s ROOT_INO = Some (Dir m)" "m nm = Some i"
    and at: "afs_of sb s (ucast (i :: u32)) = Some (File data)"
  shows "\<exists>m' s'. yaf_fill_super E True True (unmounted (kst_of dv)) = Run 0 m' \<and> afs_of sb (ks m') = afs_of sb s \<and>
    yaf_lookup E sb ROOT_INO nm (ks m') = Run 0 s' \<and> dcache s' (ROOT_INO, nm) = Some (Some (ucast i)) \<and>
    (\<forall>k<length data. \<exists>b. yaf_get_block E sb (ucast i) (of_nat (k div YAF_BLOCK_SIZE)) False s' = Run (0, Some b) s' \<and>
       disk s' b (k mod YAF_BLOCK_SIZE) = data ! k) \<and>
    (\<exists>v. icache s' (ucast i) = Some v \<and> i_size v = length data)"
proof -
  obtain m' d where m': "yaf_fill_super E True True (unmounted (kst_of dv)) = Run 0 m'" "fs_inv sb (ks m')"
      "afs_of sb (ks m') = afs_of sb s" "icache (ks m') = [ROOT_INO \<mapsto> d]" "S_ISDIR (i_mode d)"
    using remount [OF inv dev _ dv] none by auto
  have d: "icache (ks m') ROOT_INO = Some d" using m'(4) by simp
  have "view sb (ks m') d = Dir m" using cached_node(4) [OF m'(2) d] m'(3) root(1) by simp
  then have map: "dir_map sb (ks m') d nm = Some i" using root(2) by (simp add: view_dir [OF m'(5)])
  have "icache (ks m') (ucast j) = None" if "dir_map sb (ks m') d nm = Some j" for j
    using entry_live(3) [OF m'(2) d m'(5) that] m'(4) by simp
  then have fresh: "icache (ks m') (ucast j) = None \<or> ucast j \<notin> idirty (ks m')" if "dir_map sb (ks m') d nm = Some j" for j
    using that by blast
  obtain s' where s': "yaf_lookup E sb ROOT_INO nm (ks m') = Run 0 s'" "fs_inv sb s'" "afs_of sb s' = afs_of sb s"
      "dcache s' (ROOT_INO, nm) = Some (Some (ucast i))" "icache s' (ucast i) \<noteq> None"
    using lookup_found [OF m'(2) dev d m'(5) nm fresh] map m'(3) by auto
  from s'(5) obtain v where v: "icache s' (ucast i) = Some v" by blast
  have at': "afs_of sb s' (ucast i) = Some (File data)" using at s'(3) by simp
  have "view sb s' v = File data" using cached_node(4) [OF s'(2) v] at' by simp
  then have "i_size v = length data" by (auto simp: view_def file_data_def split: if_splits)
  with m'(1,3) s'(1,4) v read_file [OF s'(2) v at'] show ?thesis by blast
qed

lemma found_after_settling:
  assumes inv: "fs_inv sb s" and dev: "device_ok E sb" and own: "owner_ok E" and nm: "valid_name nm"
    and lag: "lags s dv" and ino: "ino = ucast (i :: u32)" and afs: "afs_of sb s = [ROOT_INO \<mapsto> Dir [nm \<mapsto> i], ino \<mapsto> File data]"
  shows "\<forall>t dt. settle E sb (s, dv) (t, dt) \<and> icache t = Map.empty \<and> bdirty t = {} \<longrightarrow>
    (\<exists>m' s'. yaf_fill_super E True True (unmounted (kst_of dt)) = Run 0 m' \<and>
      afs_of sb (ks m') = [ROOT_INO \<mapsto> Dir [nm \<mapsto> i], ino \<mapsto> File data] \<and>
      yaf_lookup E sb ROOT_INO nm (ks m') = Run 0 s' \<and> dcache s' (ROOT_INO, nm) = Some (Some ino) \<and>
      (\<forall>k<length data. \<exists>b. yaf_get_block E sb ino (of_nat (k div YAF_BLOCK_SIZE)) False s' = Run (0, Some b) s' \<and>
         disk s' b (k mod YAF_BLOCK_SIZE) = data ! k) \<and>
      (\<exists>v. icache s' ino = Some v \<and> i_size v = length data))" (is "\<forall>t dt. _ \<longrightarrow> ?P t dt")
proof (intro allI impI, elim conjE)
  fix t dt assume t: "settle E sb (s, dv) (t, dt)" "icache t = Map.empty" "bdirty t = {}"
  have ne: "ino \<noteq> ROOT_INO"
    using tree_okD(1) [OF fs_invD(8) [OF inv]] afs by auto
  have "fs_inv sb t" "afs_of sb t = [ROOT_INO \<mapsto> Dir [nm \<mapsto> i], ino \<mapsto> File data]" "lags t dt"
    using settle_inv [OF t(1) inv dev own lag] afs by simp_all
  then show "?P t dt"
    using file_found [OF _ dev nm t(2) _ t(3), of dt "[nm \<mapsto> i]" i data, folded ino] ne by simp
qed

end
