(* ===== verification/Yaf_Resources.thy ===== *)
theory Yaf_Resources
  imports Yaf_Run
begin

text \<open>
  What creation needs. While an inode number, a data block and a slot of the directory are left, the
  creation of a file or a directory succeeds; the conditions are stated on the abstract file
  system as far as it knows them.
\<close>

section \<open>Numbers and blocks\<close>

lemma least_unused:
  assumes "i \<notin> used_bits addr" and "i < BITS_PER_BLOCK"
  obtains n where "used_bits addr \<noteq> {..<BITS_PER_BLOCK}" "unat (alloc_result addr) = n" "n \<le> i" "n \<notin> used_bits addr"
proof -
  have room: "used_bits addr \<noteq> {..<BITS_PER_BLOCK}" using assms by blast
  then obtain n b where a: "block_alloc addr = Some (n, b)" using bitmap.alloc_None by fastforce
  note n = bitmap.alloc_Some [OF a]
  have "unat (alloc_result addr) = n" using n by (simp add: alloc_result_def a unat_of_nat_u32)
  moreover have "n \<le> i" using n assms(1) by (metis lessThan_iff not_le subsetD)
  ultimately show ?thesis using that room n by blast
qed

lemma inode_left:
  assumes inv: "fs_inv sb s" and i: "0 < unat i" "unat i < BITS_PER_BLOCK" "ino_ok sb i" and none: "afs_of sb s i = None"
  shows "\<exists>n. inode_available sb s n"
proof -
  have "unat i \<notin> used_bits (disk s (BID_IBP_MIN sb))" using none i(1) by (simp add: afs_of_def live_def split: if_splits)
  then obtain n where n: "used_bits (disk s (BID_IBP_MIN sb)) \<noteq> {..<BITS_PER_BLOCK}"
      "unat (alloc_result (disk s (BID_IBP_MIN sb))) = n" "n \<le> unat i" "n \<notin> used_bits (disk s (BID_IBP_MIN sb))"
    using least_unused [OF _ i(2)] by blast
  have pos: "0 < n" using n(4) zero_reserved [OF inv] by (metis gr0I)
  have u: "unat (of_nat n :: u64) = n" using n(3) i(2) by (simp add: unat_of_nat take_bit_nat_eq_self)
  have "\<not> live sb s (of_nat n)" using n(4) by (simp add: live_def u)
  then have "icache s (of_nat n) = None" using fs_invD(4) [OF inv] by (cases "icache s (of_nat n)") auto
  moreover have "ino_ok sb (of_nat n)" using i(3) n(3) by (simp add: ino_ok_def u)
  ultimately show ?thesis
    using n(1,2) pos fs_invD(2) [OF inv] unfolding inode_available_def by (intro exI [of _ n]) simp
qed

lemma dblock_left:
  assumes "free_dblocks sb s \<noteq> {}"
  shows "dblock_available sb s"
proof -
  obtain k where "k \<in> free_dblocks sb s" using assms by blast
  then have k: "k \<notin> used_bits (disk s (BID_DBP_MIN sb))" "k < BITS_PER_BLOCK" "k < unat (nr_d sb)"
    by (simp_all add: free_dblocks_def)
  obtain n where "used_bits (disk s (BID_DBP_MIN sb)) \<noteq> {..<BITS_PER_BLOCK}"
      "unat (alloc_result (disk s (BID_DBP_MIN sb))) = n" "n \<le> k"
    using least_unused [OF k(1,2)] by blast
  with k(3) show ?thesis by (simp add: dblock_available_def word_less_nat_alt)
qed

section \<open>Slots\<close>

lemma slot_left:
  assumes ok: "dir_inv sb s d" and few: "card (dom (dir_map sb s d)) < MAX_DENTRYS"
  shows "has_room sb s d"
proof (rule ccontr)
  assume full: "\<not> has_room sb s d"
  let ?f = "dslot sb s d" and ?n = "nslots d"
  have uniq: "names_unique ?f ?n" using ok by (simp add: dir_inv_def)
  have live: "live_as (d_name (?f k)) (?f k)" if "k < ?n" for k
    using full that by (simp add: has_room_def live_as_def)
  have inj: "inj_on (\<lambda>k. d_name (?f k)) {..<?n}"
  proof (rule inj_onI)
    fix j k assume "j \<in> {..<?n}" "k \<in> {..<?n}" and "d_name (?f j) = d_name (?f k)"
    then show "j = k" using uniq live [of j] live [of k] unfolding names_unique_def by (metis lessThan_iff)
  qed
  have dom: "dom (dir_map sb s d) = (\<lambda>k. d_name (?f k)) ` {..<?n}"
  proof (intro set_eqI iffI)
    fix nm assume "nm \<in> dom (dir_map sb s d)"
    then have "entry_map ?f ?n nm \<noteq> None" by (auto simp: dir_map_def)
    then show "nm \<in> (\<lambda>k. d_name (?f k)) ` {..<?n}" unfolding entry_map_None by (auto simp: live_as_def)
  next
    fix nm assume "nm \<in> (\<lambda>k. d_name (?f k)) ` {..<?n}"
    then have "entry_map ?f ?n nm \<noteq> None" unfolding entry_map_None using live by blast
    then show "nm \<in> dom (dir_map sb s d)" by (simp add: dir_map_def domIff)
  qed
  have "card (dom (dir_map sb s d)) = ?n" unfolding dom by (simp add: card_image [OF inj])
  then show False using few full by (simp add: has_room_def)
qed

lemma creation_possible:
  assumes inv: "fs_inv sb s" and dent: "dcache s (dir, nm) = Some None" and nm: "valid_name nm" and mode: "mode AND S_IFMT = 0"
    and at: "afs_of sb s dir = Some (Dir m)" and few: "card (dom m) < MAX_DENTRYS"
    and i: "0 < unat i" "unat i < BITS_PER_BLOCK" "ino_ok sb i" "afs_of sb s i = None" and free: "free_dblocks sb s \<noteq> {}"
  shows "may_create sb s dir nm mode"
proof -
  obtain d where d: "icache s dir = Some d"
    using dentries_okD [OF fs_invD(7) [OF inv] dent] by (auto simp: dentry_in_def)
  have dir: "S_ISDIR (i_mode d)" by (rule dentryD(1) [OF inv dent d])
  then have "dir_inv sb s d" "dir_map sb s d = m"
    using cached_node(3,4) [OF inv d] at by (simp_all add: node_ok_def view_dir)
  then have "has_room sb s d" using slot_left few by blast
  with dent nm mode d inode_left [OF inv i] dblock_left [OF free] show ?thesis by (auto simp: may_create_def)
qed

section \<open>Properties\<close>

text \<open>
  C12. Creation succeeds while resources last. In a state that satisfies the invariant, on a working
  device, when the kernel has looked up a name in vain in a directory of less than
  \<open>MAX_DENTRYS\<close> entries, some inode number of the table from 1 to 32767 (those of the first inode
  bitmap block) belongs to no inode of the tree, and one of the first 32768 data blocks (those of the first data
  bitmap block) is not marked used, creating a file or a directory of that name returns 0,
  adds it to the tree, and keeps the invariant: the driver never refuses what the first blocks of its bitmaps have room for.
  Behind them it does not work, whatever is left there.
\<close>

theorem creation_succeeds:
  assumes "fs_inv sb s" and "device_ok E sb" and "owner_ok E" and "dcache s (dir, nm) = Some None" and "valid_name nm"
    and "mode AND S_IFMT = 0" and "afs_of sb s dir = Some (Dir m)" and "card (dom m) < MAX_DENTRYS"
    and "0 < unat i" and "unat i < BITS_PER_BLOCK" and "ino_ok sb i" and "afs_of sb s i = None" and "free_dblocks sb s \<noteq> {}"
  shows "(\<exists>s'. yaf_create E sb dir nm mode s = Run 0 s' \<and> fs_inv sb s' \<and> adds (afs_of sb s) dir nm (File []) (afs_of sb s')) \<and>
    (\<exists>s'. yaf_mkdir E sb dir nm mode s = Run 0 s' \<and> fs_inv sb s' \<and> adds (afs_of sb s) dir nm (Dir Map.empty) (afs_of sb s'))"
proof -
  have may: "may_create sb s dir nm mode"
    using creation_possible [OF assms(1,4-13)] .
  have "S_IFREG \<noteq> S_IFDIR" by (simp add: S_IFREG_def S_IFDIR_def)
  then show ?thesis
    using creation_served [OF assms(1-3) may, of yaf_create S_IFREG] creation_served [OF assms(1-3) may, of yaf_mkdir S_IFDIR]
    by simp
qed

theorem creation_succeeds_witness:
  "\<exists>s s' s''. fs_inv sb0 s \<and> yaf_create env0 sb0 ROOT_INO [97] 0 s = Run 0 s' \<and> yaf_mkdir env0 sb0 ROOT_INO [97] 0 s = Run 0 s''"
proof -
  obtain s where s: "fs_inv sb0 s" "dcache s (ROOT_INO, [97]) = Some None" "afs_of sb0 s = [ROOT_INO \<mapsto> Dir Map.empty]"
      "used_bits (disk s (BID_DBP_MIN sb0)) = {}"
    using sample_creation by (auto simp: too_long_def may_create_def)
  have at: "afs_of sb0 s ROOT_INO = Some (Dir Map.empty)" "afs_of sb0 s 2 = None" using s(3) by (simp_all add: ROOT_INO_def)
  have "0 \<in> free_dblocks sb0 s" using s(4) by (simp add: free_dblocks_def sb0_def)
  then have free: "free_dblocks sb0 s \<noteq> {}" by blast
  have n: "card (dom (Map.empty :: name \<Rightarrow> u32 option)) < MAX_DENTRYS" "0 < unat (2 :: u64)" "unat (2 :: u64) < BITS_PER_BLOCK"
      "ino_ok sb0 2" "(0 :: u16) AND S_IFMT = 0" by (simp_all add: ino_ok_def sb0_def)
  from creation_succeeds [OF s(1) sample_dir(1) owner_env0 s(2) sample_dir(6) n(5) at(1) n(1-4) at(2) free] s(1)
  show ?thesis by blast
qed

end
