(* ===== verification/Yaf_Parallel.thy ===== *)
theory Yaf_Parallel
  imports Yaf_Bitmap
begin

text \<open>
  Calls of the allocators at the same time. The driver takes no lock around the bitmaps: requests on
  different directories and files may search one bitmap block together. What protects it is that
  \<open>yaf_get_free_bit\<close> and \<open>yaf_put_bit\<close> access the block by the atomic \<open>test_and_set_bit\<close> and
  \<open>test_and_clear_bit\<close> alone, as the comment in \<open>driver/bitmap.c\<close> says. Here any number of calls runs
  on one block, interleaved at these accesses.
\<close>

section \<open>A call, one access at a time\<close>

text \<open>One iteration of the loop of \<open>yaf_get_free_bit\<close>: it goes on with the next bit, or the call returns.\<close>

datatype scan = Scanning nat | Returned int

definition scan_step :: "nat \<Rightarrow> nat \<Rightarrow> block \<Rightarrow> scan \<times> block" where
  "scan_step bits nr addr =
     (if nr < bits then
        (case test_and_set_bit nr addr of (old, addr') \<Rightarrow>
           if \<not> old then (Returned (int nr), addr') else (Scanning (Suc nr), addr'))
      else (Returned (- ENOENT), addr))"

text \<open>Without interruption the iterations are the loop.\<close>

lemma scan_loop:
  "get_free_bit_from addr nr bits =
     (case scan_step bits nr addr of
        (Scanning nr', addr') \<Rightarrow> get_free_bit_from addr' nr' bits | (Returned r, addr') \<Rightarrow> (r, addr'))"
  by (subst get_free_bit_from.simps) (simp add: scan_step_def split: prod.split)

lemma scan_cases:
  obtains "nr < bits" "test_bit_at addr nr" "scan_step bits nr addr = (Scanning (Suc nr), addr)"
  | "nr < bits" "\<not> test_bit_at addr nr" "scan_step bits nr addr = (Returned (int nr), mark_bit nr addr)"
  | "bits \<le> nr" "scan_step bits nr addr = (Returned (- ENOENT), addr)"
  by (cases "nr < bits"; cases "test_bit_at addr nr") (simp_all add: scan_step_def test_and_set_bit_def not_less)

section \<open>Calls on one block\<close>

text \<open>
  The bitmap block; the position of the call each task is in, if any; the indices that are owned, being
  in use from the start or returned by a call, and not released since; and whether an assertion
  failed. The list of owned indices is no data of the driver: it records what the calls returned.
\<close>

record shared =
  bitmap :: block
  position :: "nat \<Rightarrow> nat option"
  owned :: "nat list"
  panicked :: bool

datatype event = Enter nat | Test nat | Release nat

text \<open>
  \<open>Enter t\<close>: task \<open>t\<close> calls the allocator. \<open>Test t\<close>: its call makes one iteration. \<open>Release k\<close>: some
  task gives an owned index back. \<open>None\<close> is an event that is not possible.
\<close>

fun happen :: "event \<Rightarrow> shared \<Rightarrow> shared option" where
  "happen (Enter t) s =
     (case position s t of None \<Rightarrow> Some (s\<lparr>position := (position s)(t := Some 0)\<rparr>) | Some nr \<Rightarrow> None)"
| "happen (Test t) s =
     (case position s t of
        None \<Rightarrow> None
      | Some nr \<Rightarrow>
          (case scan_step BITS_PER_BLOCK nr (bitmap s) of
             (Scanning nr', addr) \<Rightarrow> Some (s\<lparr>bitmap := addr, position := (position s)(t := Some nr')\<rparr>)
           | (Returned r, addr) \<Rightarrow>
               Some (s\<lparr>bitmap := addr, position := (position s)(t := None),
                 owned := (if 0 \<le> r then nat r # owned s else owned s)\<rparr>)))"
| "happen (Release k) s =
     (if k \<in> set (owned s) then
        (case yaf_put_bit (bitmap s) k of
           None \<Rightarrow> Some (s\<lparr>panicked := True\<rparr>)
         | Some addr \<Rightarrow> Some (s\<lparr>bitmap := addr, owned := remove1 k (owned s)\<rparr>))
      else None)"

fun happens :: "event list \<Rightarrow> shared \<Rightarrow> shared option" where
  "happens [] s = Some s"
| "happens (e # es) s = Option.bind (happen e s) (happens es)"

text \<open>A block no call is in progress on, with the indices in use.\<close>

definition at_rest :: "block \<Rightarrow> shared" where
  "at_rest addr = \<lparr>bitmap = addr, position = (\<lambda>_. None), owned = sorted_list_of_set (used_bits addr), panicked = False\<rparr>"

section \<open>No index is handed out twice\<close>

definition ownership :: "shared \<Rightarrow> bool" where
  "ownership s \<longleftrightarrow> distinct (owned s) \<and> set (owned s) = used_bits (bitmap s) \<and> \<not> panicked s"

lemma used_mark: "k < BITS_PER_BLOCK \<Longrightarrow> used_bits (mark_bit k addr) = insert k (used_bits addr)"
  by (auto simp: used_bits_def)

lemma used_clear: "used_bits (clear_bit k addr) = used_bits addr - {k}"
  by (auto simp: used_bits_def)

lemma ownership_rest: "ownership (at_rest addr)"
  using finite_subset [OF bitmap.used_cap] by (simp add: ownership_def at_rest_def)

lemma ownership_happen:
  assumes own: "ownership s" and step: "happen e s = Some s'"
  shows "ownership s'"
proof (cases e)
  case (Enter t)
  then show ?thesis using own step by (auto simp: ownership_def split: option.splits)
next
  case (Test t)
  then obtain nr where nr: "position s t = Some nr" using step by (auto split: option.splits)
  show ?thesis
  proof (cases rule: scan_cases [of nr BITS_PER_BLOCK "bitmap s"])
    case 1
    then have "s' = s\<lparr>position := (position s)(t := Some (Suc nr))\<rparr>"
      using step nr Test by (simp del: layout_consts)
    then show ?thesis using own by (simp add: ownership_def)
  next
    case 2
    then have "s' = s\<lparr>bitmap := mark_bit nr (bitmap s), position := (position s)(t := None), owned := nr # owned s\<rparr>"
      using step nr Test by (simp del: layout_consts)
    moreover have "nr \<notin> used_bits (bitmap s)" using 2(2) by (simp add: used_bits_def)
    ultimately show ?thesis using own used_mark [OF 2(1), of "bitmap s"] by (simp add: ownership_def)
  next
    case 3
    then have "s' = s\<lparr>position := (position s)(t := None)\<rparr>"
      using step nr Test by (simp add: ENOENT_def del: layout_consts)
    then show ?thesis using own by (simp add: ownership_def)
  qed
next
  case (Release k)
  then have k: "k \<in> set (owned s)" using step by (auto split: if_splits)
  then have "test_bit_at (bitmap s) k" using own by (auto simp: ownership_def used_bits_def)
  then have "yaf_put_bit (bitmap s) k = Some (clear_bit k (bitmap s))"
    by (simp add: yaf_put_bit_def test_and_clear_bit_def)
  then show ?thesis using own step k Release by (auto simp: ownership_def used_clear)
qed

lemma ownership_happens: "happens es s = Some s' \<Longrightarrow> ownership s \<Longrightarrow> ownership s'"
  by (induction es arbitrary: s) (auto simp: bind_eq_Some_conv dest: ownership_happen)

section \<open>Every call ends\<close>

lemma test_possible: "position s t = Some nr \<Longrightarrow> \<exists>s'. happen (Test t) s = Some s'"
  by (cases rule: scan_cases [of nr BITS_PER_BLOCK "bitmap s"]) auto

text \<open>What is left of a call: the bits to test and the return.\<close>

definition remaining :: "shared \<Rightarrow> nat \<Rightarrow> nat" where
  "remaining s t = (case position s t of None \<Rightarrow> 0 | Some nr \<Rightarrow> Suc (BITS_PER_BLOCK - nr))"

lemma test_shrinks: "happen (Test t) s = Some s' \<Longrightarrow> remaining s' t < remaining s t"
proof -
  assume step: "happen (Test t) s = Some s'"
  then obtain nr where nr: "position s t = Some nr" by (auto split: option.splits)
  show ?thesis
    by (cases rule: scan_cases [of nr BITS_PER_BLOCK "bitmap s"])
      (use step nr in \<open>auto simp: remaining_def simp del: layout_consts\<close>)
qed

lemma others_keep: "happen e s = Some s' \<Longrightarrow> e \<noteq> Test t \<Longrightarrow> e \<noteq> Enter t \<Longrightarrow> remaining s' t = remaining s t"
  by (cases e) (auto simp: remaining_def split: option.splits prod.splits scan.splits if_splits)

lemma happens_remaining:
  "happens es s = Some s' \<Longrightarrow> Enter t \<notin> set es \<Longrightarrow> count_list es (Test t) + remaining s' t \<le> remaining s t"
proof (induction es arbitrary: s)
  case (Cons e es)
  then obtain u where u: "happen e s = Some u" "happens es u = Some s'" by (auto simp: bind_eq_Some_conv)
  then have "count_list es (Test t) + remaining s' t \<le> remaining u t" using Cons by simp
  then show ?case
    using test_shrinks [of t s u] others_keep [OF u(1), of t] u(1) Cons.prems(2) by (cases "e = Test t") auto
qed simp

section \<open>A call that is not interrupted\<close>

lemma alone:
  assumes "position s t = Some nr" and "get_free_bit_from (bitmap s) nr BITS_PER_BLOCK = (r, addr)"
  shows "\<exists>n. happens (replicate n (Test t)) s = Some (s\<lparr>bitmap := addr, position := (position s)(t := None),
    owned := (if 0 \<le> r then nat r # owned s else owned s)\<rparr>)"
  using assms
proof (induction "BITS_PER_BLOCK - nr" arbitrary: s nr rule: less_induct)
  case less
  show ?case
  proof (cases rule: scan_cases [of nr BITS_PER_BLOCK "bitmap s"])
    case 1
    let ?s = "s\<lparr>position := (position s)(t := Some (Suc nr))\<rparr>"
    have step: "happen (Test t) s = Some ?s" using less.prems(1) 1(3) by simp
    have "get_free_bit_from (bitmap ?s) (Suc nr) BITS_PER_BLOCK = (r, addr)"
      using less.prems(2) 1(3) by (subst (asm) scan_loop) simp
    then obtain n where "happens (replicate n (Test t)) ?s = Some (?s\<lparr>bitmap := addr,
        position := (position ?s)(t := None), owned := (if 0 \<le> r then nat r # owned ?s else owned ?s)\<rparr>)"
      using less.hyps [OF diff_less_mono2 [OF lessI 1(1)], of ?s] by auto
    then show ?thesis using step by (intro exI [of _ "Suc n"]) simp
  next
    case 2
    then show ?thesis using less.prems by (intro exI [of _ 1]) (simp add: scan_loop [of "bitmap s"])
  next
    case 3
    then show ?thesis using less.prems by (intro exI [of _ 1]) (simp add: scan_loop [of "bitmap s"])
  qed
qed

section \<open>Properties\<close>

text \<open>
  C5. Calls at the same time do not collide. Whatever calls of the allocator and releases of owned
  indices run on a bitmap block, and however their accesses are interleaved: no index is owned
  twice, so no two files or directories ever get the same inode or data block; the bits of the block
  are exactly those of the owned indices, so that nothing is lost either; and no release fails the
  assertion of \<open>yaf_put_bit\<close>.
\<close>

theorem allocations_never_collide:
  assumes "happens es (at_rest addr) = Some s"
  shows "distinct (owned s) \<and> set (owned s) = used_bits (bitmap s) \<and> \<not> panicked s"
  using ownership_happens [OF assms ownership_rest] unfolding ownership_def .

theorem allocations_never_collide_witness:
  "\<exists>s. happens [Enter 0, Enter 1, Test 0, Test 1, Test 1] (at_rest (\<lambda>_. 0)) = Some s \<and> owned s = [1, 0] \<and>
     used_bits (bitmap s) = {0, 1}"
proof -
  have "used_bits (\<lambda>_. 0) = {}" by (simp add: used_bits_def test_bit_at_def)
  then have run: "happens [Enter 0, Enter 1, Test 0, Test 1, Test 1] (at_rest (\<lambda>_. 0)) =
      Some \<lparr>bitmap = mark_bit 1 (mark_bit 0 (\<lambda>_. 0)), position = (\<lambda>_. None)(0 := None, 1 := None), owned = [1, 0],
        panicked = False\<rparr>"
    by (simp add: at_rest_def scan_step_def test_and_set_bit_def fun_upd_twist) (simp add: test_bit_at_def fun_eq_iff)
  from allocations_never_collide [OF this] run show ?thesis by auto
qed

text \<open>
  C13. Every call ends by itself. A task in a call can always make its next access, and whatever the
  other tasks do meanwhile, it makes at most one for every bit it has not tested, and one to
  return: the allocator waits for no one.
\<close>

theorem allocations_wait_free:
  assumes "position s t = Some nr"
  shows "(\<exists>s'. happen (Test t) s = Some s') \<and>
    (\<forall>es s'. happens es s = Some s' \<and> Enter t \<notin> set es \<longrightarrow> count_list es (Test t) \<le> Suc (BITS_PER_BLOCK - nr)) \<and>
    (\<forall>es s'. happens es s = Some s' \<and> Enter t \<notin> set es \<and> count_list es (Test t) = Suc (BITS_PER_BLOCK - nr) \<longrightarrow>
       position s' t = None)"
proof -
  have "count_list es (Test t) + remaining s' t \<le> Suc (BITS_PER_BLOCK - nr)"
    if "happens es s = Some s'" "Enter t \<notin> set es" for es s'
    using happens_remaining [OF that] assms by (simp add: remaining_def)
  moreover have "remaining s' t = 0 \<longleftrightarrow> position s' t = None" for s'
    by (simp add: remaining_def split: option.split)
  ultimately show ?thesis using test_possible [OF assms] by fastforce
qed

theorem allocations_wait_free_witness:
  "\<exists>s. happen (Test 0) (at_rest (\<lambda>_. 0)\<lparr>position := [0 \<mapsto> 5]\<rparr>) = Some s"
proof -
  have "position (at_rest (\<lambda>_. 0)\<lparr>position := [0 \<mapsto> 5]\<rparr>) 0 = Some 5" by simp
  from allocations_wait_free [OF this] show ?thesis by blast
qed

text \<open>
  C21. The sequential allocator is the concurrent one run alone: a call that is not interrupted ends after
  finitely many accesses with the block and the result of \<open>yaf_get_free_bit\<close>, which the
  rest of this development is about.
\<close>

theorem allocation_alone:
  assumes "position s t = None"
  shows "\<exists>n. happens (Enter t # replicate n (Test t)) s =
    (case yaf_get_free_bit (bitmap s) BITS_PER_BLOCK of (r, addr) \<Rightarrow>
       Some (s\<lparr>bitmap := addr, owned := (if 0 \<le> r then nat r # owned s else owned s)\<rparr>))"
proof -
  obtain r addr where r: "yaf_get_free_bit (bitmap s) BITS_PER_BLOCK = (r, addr)" by fastforce
  let ?s = "s\<lparr>position := (position s)(t := Some 0)\<rparr>"
  have "(position s)(t := None) = position s" using assms by auto
  then have "\<exists>n. happens (replicate n (Test t)) ?s =
      Some (s\<lparr>bitmap := addr, owned := (if 0 \<le> r then nat r # owned s else owned s)\<rparr>)"
    using alone [of ?s t 0 r addr] r by (cases "0 \<le> r") (simp_all add: yaf_get_free_bit_def)
  then show ?thesis using assms r by (cases "0 \<le> r") simp_all
qed

theorem allocation_alone_witness:
  "\<exists>n s. happens (Enter 7 # replicate n (Test 7)) (at_rest (\<lambda>_. 0)) = Some s \<and> bitmap s = mark_bit 0 (\<lambda>_. 0)"
proof -
  have "position (at_rest (\<lambda>_. 0)) 7 = None" by (simp add: at_rest_def)
  from allocation_alone [OF this] obtain n where
    n: "happens (Enter 7 # replicate n (Test 7)) (at_rest (\<lambda>_. 0)) =
      (case yaf_get_free_bit (bitmap (at_rest (\<lambda>_. 0))) BITS_PER_BLOCK of (r, addr) \<Rightarrow>
         Some (at_rest (\<lambda>_. 0)\<lparr>bitmap := addr,
           owned := (if 0 \<le> r then nat r # owned (at_rest (\<lambda>_. 0)) else owned (at_rest (\<lambda>_. 0)))\<rparr>))" ..
  have "first_idx (\<lambda>k. \<not> test_bit_at (\<lambda>_. 0) k) BITS_PER_BLOCK = Some 0"
    by (simp add: first_idx_Some test_bit_at_def)
  then have "yaf_get_free_bit (bitmap (at_rest (\<lambda>_. 0))) BITS_PER_BLOCK = (0, mark_bit 0 (\<lambda>_. 0))"
    by (simp add: at_rest_def yaf_get_free_bit_eq)
  with n show ?thesis by (intro exI [of _ n]) simp
qed

end
