(* ===== verification/Yaf_Errors.thy ===== *)
theory Yaf_Errors
  imports Yaf_Contract
begin

text \<open>
  What an operation that reports an error leaves behind, whatever the device and the memory of
  the kernel do. Lookup, deletion and write-back read first and change something only when nothing
  can fail any more, except that a lookup may leave the inode it could not read in memory; creation may have prepared the directory, but nothing else.
\<close>

section \<open>Failing calls\<close>

text \<open>
  \<open>when_error F R m\<close>: a result of \<open>m\<close> that \<open>F\<close> takes for an error comes with states related by \<open>R\<close>.
\<close>

definition when_error :: "('a \<Rightarrow> bool) \<Rightarrow> (kst \<Rightarrow> kst \<Rightarrow> bool) \<Rightarrow> 'a kc \<Rightarrow> bool" where
  "when_error F R m \<longleftrightarrow> (\<forall>s. case m s of Run x s' \<Rightarrow> F x \<longrightarrow> R s s' | Stop e \<Rightarrow> True)"

abbreviation never_fails :: "('a \<Rightarrow> bool) \<Rightarrow> 'a kc \<Rightarrow> bool" where
  "never_fails F m \<equiv> when_error F (\<lambda>_ _. False) m"

lemma when_errorI: "(\<And>s x s'. m s = Run x s' \<Longrightarrow> F x \<Longrightarrow> R s s') \<Longrightarrow> when_error F R m"
  by (simp add: when_error_def split: outcome.split)

lemma when_errorD: "when_error F R m \<Longrightarrow> m s = Run x s' \<Longrightarrow> F x \<Longrightarrow> R s s'"
  by (auto simp: when_error_def split: outcome.splits dest: spec [of _ s])

lemma when_error_keeps: "obeys R (\<lambda>_. True) m \<Longrightarrow> when_error F R m"
  by (auto intro: when_errorI dest: obeysD(1))

lemma when_error_never: "never_fails F m \<Longrightarrow> when_error F R m"
  by (auto intro: when_errorI dest: when_errorD)

text \<open>
  A call in the middle: when it fails with \<open>G\<close> the rest may fail too, otherwise the rest is past
  the point of no return.
\<close>

lemma when_error_step:
  assumes "transp R" and "when_error G R m" and "\<And>x. G x \<Longrightarrow> when_error F R (f x)"
    and "\<And>x. \<not> G x \<Longrightarrow> never_fails F (f x)"
  shows "when_error F R (bnd m f)"
proof (rule when_errorI)
  fix s y s' assume run: "bnd m f s = Run y s'" and F: "F y"
  then obtain x t where xt: "m s = Run x t" "f x t = Run y s'" by (auto simp: bnd_def split: outcome.splits)
  then have "G x" using when_errorD [OF assms(4) xt(2) F] by blast
  then show "R s s'"
    using transpD [OF assms(1)] when_errorD [OF assms(2) xt(1)] when_errorD [OF assms(3) xt(2) F] by blast
qed

text \<open>The same of a call that answers with an error pointer or an inode.\<close>

lemma when_error_sum:
  assumes "transp R" and "when_error isl R m" and "\<And>e. when_error F R (g e)" and "\<And>x. never_fails F (h x)"
  shows "when_error F R (bnd m (case_sum g h))"
  by (rule when_error_step [OF assms(1,2)]) (auto simp: isl_def assms(3,4) split: sum.split)

context reading
begin

text \<open>What only reads comes before the point of no return.\<close>

lemma before: "obeys R H m \<Longrightarrow> (\<And>x. when_error F R (f x)) \<Longrightarrow> when_error F R (bnd m f)"
  by (rule when_error_step [OF trans, where G = "\<lambda>_. True"]) (auto intro: when_errorI dest: obeysD(1))

lemma settled: "when_error F R (ret x)"
  using refl by (auto intro: when_errorI simp: ret_def reflp_def)

lemmas reads_first = reads(1-6) [THEN before] bread [THEN before] release [THEN before] find [THEN before] settled

end

lemma never_fails_bnd: "(\<And>x. never_fails F (f x)) \<Longrightarrow> never_fails F (bnd m f)"
  by (rule when_errorI) (auto simp: bnd_def split: outcome.splits dest: when_errorD)

lemma never_fails_ret: "\<not> F x \<Longrightarrow> never_fails F (ret x)"
  by (rule when_errorI) (simp add: ret_def)

lemma when_error_halt: "when_error F R (halt e)"
  by (rule when_errorI) (simp add: halt_def)

lemma when_error_branches:
  "(c \<Longrightarrow> when_error F R m) \<Longrightarrow> (\<not> c \<Longrightarrow> when_error F R m') \<Longrightarrow> when_error F R (if c then m else m')"
  "when_error F R m \<Longrightarrow> (\<And>x. when_error F R (f x)) \<Longrightarrow> when_error F R (case_option m f y)"
  "(\<And>x. z = Inl x \<Longrightarrow> when_error F R (g x)) \<Longrightarrow> (\<And>x. z = Inr x \<Longrightarrow> when_error F R (h x)) \<Longrightarrow>
     when_error F R (case_sum g h z)"
  "(\<And>x. when_error F R (h x)) \<Longrightarrow> when_error F R (let x = a in h x)"
  by (simp_all split: option.split sum.split)

section \<open>Nothing changed\<close>

text \<open>
  Nothing but reference counts: the disk, the marks, the dentries, and the inodes in memory with
  their locks are the same. For \<open>yaf_lookup\<close>, which may have made an inode, only the inodes that were
  in memory have to be.
\<close>

definition still :: "kst \<Rightarrow> kst \<Rightarrow> bool" where
  "still s s' \<longleftrightarrow> disk s' = disk s \<and> bdirty s' = bdirty s \<and> loose s' = loose s \<and> idirty s' = idirty s \<and>
     dcache s' = dcache s \<and> icache s' = icache s \<and> inew s' = inew s"

definition quiet :: "kst \<Rightarrow> kst \<Rightarrow> bool" where
  "quiet s s' \<longleftrightarrow> disk s' = disk s \<and> bdirty s' = bdirty s \<and> loose s' = loose s \<and> idirty s' = idirty s \<and>
     dcache s' = dcache s \<and> (\<forall>i v. icache s i = Some v \<longrightarrow> icache s' i = Some v)"

interpretation still: reading E still "\<lambda>_. True" for E
proof
  show "reflp still" "transp still" by (auto simp: reflp_def transp_def still_def)
qed (simp_all add: obeys_def still_def kernel_defs)

interpretation quiet: reading E quiet "\<lambda>_. True" for E
proof
  show "reflp quiet" "transp quiet" by (auto simp: reflp_def transp_def quiet_def)
qed (simp_all add: obeys_def quiet_def kernel_defs)

lemma iget_error: "when_error isl quiet (yaf_iget E sb i)"
  by (rule when_errorI)
    (auto simp: quiet_def yaf_iget_def bnd_def kernel_defs iget_locked_def upd_inode_def ret_def
      split: outcome.splits option.splits if_splits)

text \<open>Code that reports errors as negative numbers, and returns 0 otherwise.\<close>

lemmas then_writes = never_fails_bnd never_fails_ret when_error_branches

lemma delete_error: "when_error (\<lambda>r. r \<noteq> 0) still (yaf_delete E sb dir nm)"
  unfolding yaf_delete_def
  by (intro still.reads_first when_error_branches when_error_halt; rule when_error_never; intro then_writes; simp)

lemma rmdir_error: "when_error (\<lambda>r. r \<noteq> 0) still (yaf_rmdir E sb dir nm)"
  unfolding yaf_rmdir_def by (intro still.reads_first when_error_branches delete_error)

lemma write_inode_error: "when_error (\<lambda>r. r \<noteq> 0) still (yaf_write_inode E sb i)"
  unfolding yaf_write_inode_def
  by (intro still.reads_first when_error_branches; rule when_error_never; intro then_writes; simp)

lemma lookup_out_succeeds: "never_fails (\<lambda>r. r \<noteq> 0) (lookup_out E dir nm i)"
  unfolding lookup_out_def by (intro then_writes; simp)

lemma lookup_error: "when_error (\<lambda>r. r \<noteq> 0) quiet (yaf_lookup E sb dir nm)"
  unfolding yaf_lookup_def
  by (intro quiet.reads_first when_error_branches when_error_sum [OF quiet.trans iget_error]
      when_error_never [OF lookup_out_succeeds] never_fails_bnd lookup_out_succeeds)

section \<open>Nothing created\<close>

text \<open>
  No name was bound, no inode in memory but the directory has changed, and the directory has the
  same mode and counts the same links.
\<close>

definition uncreated :: "u64 \<Rightarrow> kst \<Rightarrow> kst \<Rightarrow> bool" where
  "uncreated dir s s' \<longleftrightarrow> dcache s' = dcache s \<and> idirty s \<subseteq> idirty s' \<and> idirty s' \<subseteq> insert dir (idirty s) \<and>
     (\<forall>i v. icache s i = Some v \<longrightarrow>
        (\<exists>w. icache s' i = Some w \<and> (i = dir \<or> w = v) \<and> i_mode w = i_mode v \<and> i_nlink w = i_nlink v))"

interpretation uncreated: storing E "uncreated dir" "\<lambda>_. True" for E dir
proof
  show "reflp (uncreated dir)" by (auto simp: reflp_def uncreated_def)
  show "transp (uncreated dir)"
  proof (rule transpI)
    fix s t u assume a: "uncreated dir s t" "uncreated dir t u"
    have "\<exists>w. icache u i = Some w \<and> (i = dir \<or> w = v) \<and> i_mode w = i_mode v \<and> i_nlink w = i_nlink v"
      if v: "icache s i = Some v" for i v
    proof -
      obtain x where x: "icache t i = Some x" "i = dir \<or> x = v" "i_mode x = i_mode v" "i_nlink x = i_nlink v"
        using a(1) v unfolding uncreated_def by blast
      obtain w where "icache u i = Some w" "i = dir \<or> w = x" "i_mode w = i_mode x" "i_nlink w = i_nlink x"
        using a(2) x(1) unfolding uncreated_def by blast
      with x show ?thesis by auto
    qed
    moreover have "dcache u = dcache s" "idirty s \<subseteq> idirty u" "idirty u \<subseteq> insert dir (idirty s)"
      using a unfolding uncreated_def by auto
    ultimately show "uncreated dir s u" unfolding uncreated_def by blast
  qed
qed (simp_all add: obeys_def uncreated_def kernel_defs subset_insertI)

lemma quiet_uncreated: "quiet s s' \<Longrightarrow> uncreated dir s s'"
  by (auto simp: quiet_def uncreated_def)

text \<open>Changes of the directory that are no creation: a longer block list, a new size and new times.\<close>

lemma own_update:
  assumes "\<And>v. i_mode (f v) = i_mode v" and "\<And>v. i_nlink (f v) = i_nlink v"
  shows "obeys (uncreated dir) (\<lambda>_. True) (upd_inode dir f)"
  using assms by (auto simp: obeys_def uncreated_def upd_inode_def split: option.split)

lemma own_mark: "obeys (uncreated dir) (\<lambda>_. True) (mark_inode_dirty dir)"
  by (auto simp: obeys_def uncreated_def mark_inode_dirty_def)

lemma free_dentry_uncreated: "obeys (uncreated dir) (\<lambda>_. True) (yaf_get_free_dentry E sb dir)"
  unfolding yaf_get_free_dentry_def append_dentry_def
  by (intro uncreated.look uncreated.dir_search uncreated.get_free_dblock uncreated.mark uncreated.store
      own_update own_mark; simp)

lemma new_inode_error: "when_error isl (uncreated dir) (yaf_new_inode E sb dir mode)"
proof -
  have "when_error isl (uncreated dir) (yaf_iget E sb i)" for i
    by (rule when_errorI) (rule quiet_uncreated, erule (1) when_errorD [OF iget_error])
  then show ?thesis
    unfolding yaf_new_inode_def
    by (intro uncreated.get_free_inode [THEN uncreated.before] when_error_sum [OF uncreated.trans]
        when_error_branches(1) uncreated.put(1) [THEN uncreated.before] uncreated.settled then_writes; simp)
qed

lemma create_error: "when_error (\<lambda>r. r \<noteq> 0) (uncreated dir) (do_yaf_create E sb dir nm mode)"
  unfolding do_yaf_create_def
  by (intro when_error_branches uncreated.reads_first free_dentry_uncreated [THEN uncreated.before]
      when_error_sum [OF uncreated.trans new_inode_error] then_writes; simp)

section \<open>Properties\<close>

text \<open>
  C33. Errors leave things as they were. Whatever reads and allocations fail, and whatever the
  disk holds: when looking up a name, deleting a file or directory or writing an inode back returns
  an error, no block, no dentry, no mark and no inode that was in memory has changed. Deletion and
  write-back have loaded and locked no inode either; a failed lookup may leave in memory the inode it
  could not read, locked. When creating a
  file or directory returns an error, no name was bound, no other inode in memory has changed, and
  the directory has the mode and the number of links it had. Reading a directory changes nothing
  in any case.
\<close>

theorem errors_keep_state:
  "when_error (\<lambda>r. r \<noteq> 0) quiet (yaf_lookup E sb dir nm) \<and> when_error (\<lambda>r. r \<noteq> 0) still (yaf_unlink E sb dir nm) \<and>
   when_error (\<lambda>r. r \<noteq> 0) still (yaf_rmdir E sb dir nm) \<and> when_error (\<lambda>r. r \<noteq> 0) still (yaf_write_inode E sb i) \<and>
   when_error (\<lambda>r. r \<noteq> 0) (uncreated dir) (yaf_create E sb dir nm mode) \<and>
   when_error (\<lambda>r. r \<noteq> 0) (uncreated dir) (yaf_mkdir E sb dir nm mode) \<and>
   keeps still (yaf_iterate_shared E sb A parent dir ctx)"
  unfolding yaf_unlink_def yaf_create_def yaf_mkdir_def keeps_obeys
  by (intro conjI lookup_error delete_error rmdir_error write_inode_error create_error still.iterate)

end
