(* ===== verification/Yaf_Buffers.thy ===== *)
theory Yaf_Buffers
  imports Yaf_Contract Yaf_Super
begin

text \<open>
  References to buffers. Every operation gives back each reference it takes with \<open>sb_bread\<close>, on
  every path, whatever fails: no buffer is leaked and none is released twice.
\<close>

section \<open>Taking and giving back\<close>

abbreviation balanced :: "'a kc \<Rightarrow> bool" where
  "balanced m \<equiv> keeps buffers_balanced m"

text \<open>\<open>releases b m\<close>: \<open>m\<close> gives back one reference to \<open>b\<close> that its caller holds, and is balanced otherwise.\<close>

definition releases :: "u64 \<Rightarrow> 'a kc \<Rightarrow> bool" where
  "releases b m \<longleftrightarrow> (\<forall>s x s'. m s = Run x s' \<longrightarrow> 0 < refs s b \<longrightarrow> refs s' = (refs s)(b := refs s b - 1))"

lemma balanced_refl: "reflp buffers_balanced" and balanced_trans: "transp buffers_balanced"
  by (auto simp: reflp_def transp_def buffers_balanced_def)

lemma balanced_calls:
  "balanced (b_data b)" "balanced (get_inode i)" "balanced (current_time E)" "balanced (d_inode i nm)"
  "balanced (assert_k c)" "balanced (iblock v n)" "balanced (ret x)" "balanced (halt e)"
  "balanced (mark_buffer_dirty b)" "balanced (set_b_data b blk)" "balanced (mark_inode_dirty i)"
  "balanced (d_bind i nm y)" "balanced (upd_inode i f)"
  by (auto simp: keeps_def buffers_balanced_def kernel_defs get_inode_def d_inode_def assert_k_def iblock_def
      ret_def halt_def upd_inode_def split: option.splits if_splits)

lemma releasesD: "releases b m \<Longrightarrow> m s = Run x s' \<Longrightarrow> 0 < refs s b \<Longrightarrow> refs s' = (refs s)(b := refs s b - 1)"
  by (simp add: releases_def)

lemma balancedD: "balanced m \<Longrightarrow> m s = Run x s' \<Longrightarrow> refs s' = refs s"
  by (auto simp: buffers_balanced_def dest: keepsD)

text \<open>A buffer that is read has to be released by what follows, if it was read.\<close>

lemma balanced_bread:
  assumes "balanced m" and "\<And>b. releases b (f b)"
  shows "balanced (bnd (sb_bread E n) (case_option m f))"
  unfolding keeps_def buffers_balanced_def
proof (intro allI impI)
  fix s x s' assume run: "bnd (sb_bread E n) (case_option m f) s = Run x s'"
  show "refs s' = refs s"
  proof (cases "bread_ok E (tick s) n")
    case True
    with run have "f n (s\<lparr>tick := tick s + 1, refs := (refs s)(n := refs s n + 1)\<rparr>) = Run x s'"
      by (simp add: yaf_exec)
    from releasesD [OF assms(2) this] show ?thesis by simp
  next
    case False
    with run have "m (s\<lparr>tick := tick s + 1\<rparr>) = Run x s'" by (simp add: yaf_exec)
    from balancedD [OF assms(1) this] show ?thesis by simp
  qed
qed

lemma releases_before:
  assumes "balanced m" and "\<And>x. releases b (f x)"
  shows "releases b (bnd m f)"
  unfolding releases_def
proof (intro allI impI)
  fix s x s' assume run: "bnd m f s = Run x s'" and held: "0 < refs s b"
  then obtain y t where yt: "m s = Run y t" "f y t = Run x s'" by (auto simp: bnd_def split: outcome.splits)
  show "refs s' = (refs s)(b := refs s b - 1)"
    using balancedD [OF assms(1) yt(1)] releasesD [OF assms(2) yt(2)] held by simp
qed

lemma releases_here:
  assumes "\<And>x. balanced (f x)"
  shows "releases b (bnd (brelse b) f)"
  unfolding releases_def
proof (intro allI impI)
  fix s x s' assume "bnd (brelse b) f s = Run x s'"
  then have "f () (s\<lparr>refs := (refs s)(b := refs s b - 1)\<rparr>) = Run x s'" by (simp add: yaf_exec)
  from balancedD [OF assms this] show "refs s' = (refs s)(b := refs s b - 1)" by simp
qed

lemma releases_last: "releases b (brelse b)"
  by (simp add: releases_def kernel_defs)

lemma releases_halt: "releases b (halt e)"
  by (simp add: releases_def halt_def)

lemma releases_branches:
  "(c \<Longrightarrow> releases b m) \<Longrightarrow> (\<not> c \<Longrightarrow> releases b m') \<Longrightarrow> releases b (if c then m else m')"
  "releases b m \<Longrightarrow> (\<And>x. y = Some x \<Longrightarrow> releases b (f x)) \<Longrightarrow> releases b (case_option m f y)"
  "(\<And>x. z = Inl x \<Longrightarrow> releases b (g x)) \<Longrightarrow> (\<And>x. z = Inr x \<Longrightarrow> releases b (h x)) \<Longrightarrow> releases b (case_sum g h z)"
  "(\<And>x y. p = (x, y) \<Longrightarrow> releases b (k x y)) \<Longrightarrow> releases b (case_prod k p)"
  "(\<And>x. releases b (h' x)) \<Longrightarrow> releases b (let x = a in h' x)"
  by (simp_all split: option.split sum.split prod.split)

lemma balanced_branches:
  "(c \<Longrightarrow> balanced m) \<Longrightarrow> (\<not> c \<Longrightarrow> balanced m') \<Longrightarrow> balanced (if c then m else m')"
  "balanced m \<Longrightarrow> (\<And>x. y = Some x \<Longrightarrow> balanced (f x)) \<Longrightarrow> balanced (case_option m f y)"
  "(\<And>x. z = Inl x \<Longrightarrow> balanced (g x)) \<Longrightarrow> (\<And>x. z = Inr x \<Longrightarrow> balanced (h x)) \<Longrightarrow> balanced (case_sum g h z)"
  "(\<And>x y. p = (x, y) \<Longrightarrow> balanced (k x y)) \<Longrightarrow> balanced (case_prod k p)"
  "(\<And>x. balanced (h' x)) \<Longrightarrow> balanced (let x = a in h' x)"
  "(\<And>n. balanced (a1 n)) \<Longrightarrow> (\<And>n. balanced (a2 n)) \<Longrightarrow> (\<And>e. balanced (a3 e)) \<Longrightarrow> balanced (case_search a1 a2 a3 w)"
  by (simp_all split: option.split sum.split prod.split search.split)

lemmas releasing = releases_here releases_last releases_halt releases_branches
lemmas balance_seq = keeps_bnd [OF balanced_trans] releases_before
lemmas balance = balanced_bread balanced_calls balanced_branches releasing

section \<open>The operations\<close>

lemma discipline_balanced: "keeps buffer_discipline m \<Longrightarrow> balanced m"
  by (simp add: keeps_def buffer_discipline_def)

lemmas balanced_parts = keeps_get_free_inode [THEN discipline_balanced] keeps_put_inode [THEN discipline_balanced]
  keeps_put_dblock [THEN discipline_balanced] keeps_iget [THEN discipline_balanced]
  keeps_write_inode [THEN discipline_balanced] keeps_new_inode [THEN discipline_balanced]

lemma balanced_get_free_dblock: "balanced (yaf_get_free_dblock E sb)"
proof -
  have "balanced (get_free_dblock_loop E sb bids)" for bids
    by (induction bids)
      (simp only: get_free_dblock_loop.simps, intro balance balance_seq | assumption)+
  then show ?thesis by (simp add: yaf_get_free_dblock_def)
qed

lemma balanced_dir_search: "balanced (dir_search E sb P ib sz doff)"
proof (induction "sz - doff" arbitrary: doff rule: less_induct)
  case less
  have ih: "balanced (dir_search E sb P ib sz doff')" if "doff < sz" "dentry_scan P blk 0 doff sz = Inr doff'" for doff' blk
    using dentry_scan_progress [OF _ that] that(1) by (intro less) simp
  show ?case by (subst dir_search.simps) (intro balance balance_seq ih; assumption)
qed

lemma balanced_get_free_dentry: "balanced (yaf_get_free_dentry E sb dir)"
  unfolding yaf_get_free_dentry_def append_dentry_def
  by (intro balance balance_seq balanced_dir_search balanced_get_free_dblock)

lemma balanced_create: "balanced (do_yaf_create E sb dir nm mode)"
  unfolding do_yaf_create_def
  by (intro balance balance_seq balanced_get_free_dentry balanced_parts)

lemma balanced_find: "balanced (do_yaf_lookup E sb dir nm)"
  unfolding do_yaf_lookup_def by (intro balance balance_seq balanced_dir_search)

lemma balanced_lookup: "balanced (yaf_lookup E sb dir nm)"
  unfolding yaf_lookup_def lookup_out_def by (intro balance balance_seq balanced_find balanced_parts)

lemma balanced_put_dblocks: "balanced (put_dblocks E sb v doff)"
proof (induction "i_size v - doff" arbitrary: doff rule: less_induct)
  case less
  show ?case by (subst put_dblocks.simps) (intro balance balance_seq balanced_parts less; simp)
qed

lemma balanced_delete: "balanced (yaf_delete E sb dir nm)"
  unfolding yaf_delete_def by (intro balance balance_seq balanced_find balanced_parts balanced_put_dblocks)

lemma balanced_remove: "balanced (yaf_unlink E sb dir nm)" "balanced (yaf_rmdir E sb dir nm)"
  unfolding yaf_unlink_def yaf_rmdir_def by (intro balance balance_seq balanced_delete)+

lemma balanced_iterate: "balanced (yaf_iterate_shared E sb A parent dir ctx)"
proof -
  have "balanced (iterate_blocks E sb A ib sz doff ctx)" for ib sz doff ctx
  proof (induction "sz - doff" arbitrary: doff ctx rule: less_induct)
    case less
    have ih: "balanced (iterate_blocks E sb A ib sz doff' ctx')"
      if "doff < sz" "emit_scan A blk (doff mod YAF_BLOCK_SIZE div YAF_DENTRY_SIZE) 0 doff sz ctx = Some c"
        "c = (doff', ctx')" for doff' ctx' blk c
      using emit_scan_progress [OF that(2) [unfolded that(3)]] that(1) by (intro less) (simp add: less_mult_imp_div_less diff_less_mono2)
    show ?case by (subst iterate_blocks.simps) (intro balance balance_seq ih; assumption)
  qed
  then show ?thesis unfolding yaf_iterate_shared_def by (intro balance balance_seq)
qed

lemma balanced_get_block: "balanced (yaf_get_block E sb ino blk c)"
proof -
  have "balanced (extend_blocks E sb ino dbnr n)" for dbnr n
  proof (induction "Suc n - dbnr" arbitrary: dbnr rule: less_induct)
    case less
    show ?case by (subst extend_blocks.simps) (intro balance balance_seq balanced_get_free_dblock less; simp)
  qed
  then show ?thesis unfolding yaf_get_block_def map_block_def by (intro balance balance_seq)
qed

text \<open>Mounting.\<close>

lemma balanced_fill_super:
  assumes "yaf_fill_super E kz dm m = Run r m'"
  shows "refs (ks m') = refs (ks m)"
proof -
  have iget: "refs s' = refs s" if "yaf_iget E ysi ROOT_INO s = Run x s'" for x ysi s s'
    using balancedD [OF keeps_iget [THEN discipline_balanced] that] .
  show ?thesis
    using assms
    by (auto simp: yaf_fill_super_def mount_run on_ks_def sb_bread_def kernel_run ret_def Let_def
        split: outcome.splits if_splits sum.splits dest!: iget)
qed

lemma balanced_mount: "keeps (\<lambda>m m'. buffers_balanced (ks m) (ks m')) (yaf_fill_super E kz dm)"
  using balanced_fill_super by (auto simp: keeps_def buffers_balanced_def)

section \<open>Properties\<close>

text \<open>
  C34. No buffer is leaked. Whatever reads and allocations fail, and whatever the disk holds,
  an operation of the driver that returns, with an error or without, leaves the reference count of
  every buffer as it found it: each buffer it reads is released exactly once.
\<close>

theorem driver_leaks_no_buffer:
  "keeps buffers_balanced (yaf_iget E sb i) \<and> keeps buffers_balanced (yaf_write_inode E sb i) \<and>
   keeps buffers_balanced (yaf_create E sb dir nm mode) \<and> keeps buffers_balanced (yaf_mkdir E sb dir nm mode) \<and>
   keeps buffers_balanced (yaf_lookup E sb dir nm) \<and> keeps buffers_balanced (yaf_unlink E sb dir nm) \<and>
   keeps buffers_balanced (yaf_rmdir E sb dir nm) \<and>
   keeps buffers_balanced (yaf_iterate_shared E sb A parent dir ctx) \<and>
   keeps buffers_balanced (yaf_get_block E sb i blk c) \<and>
   keeps (\<lambda>m m'. buffers_balanced (ks m) (ks m')) (yaf_fill_super E kz dm)"
  unfolding yaf_create_def yaf_mkdir_def
  by (intro conjI balanced_mount balanced_parts balanced_create balanced_lookup balanced_remove balanced_iterate balanced_get_block)

end
