(* ===== verification/Yaf_Faults.thy ===== *)
theory Yaf_Faults
  imports Yaf_Run Yaf_Errors Yaf_Buffers
begin

text \<open>
  Devices that fail. An operation that does not report an error on such a device has read all it
  wanted to read, and so has done what it does on a reliable device. With this, the refinement theorem
  extends to any device whose first data bitmap block can always be read: every request that \<open>allowed\<close>
  covers and that returns 0 has had its specified effect. A data bitmap that can not be read is left out
  because the allocator then hands out data block 0, used or not, and reports no error.
\<close>

section \<open>Runs on a reliable device\<close>

definition reliable :: "env \<Rightarrow> env" where
  "reliable E = E\<lparr>bread_ok := \<lambda>_ _. True, iget_ok := \<lambda>_ _. True\<rparr>"

lemma reliable_simps [simp]:
  "bread_ok (reliable E) t b" "iget_ok (reliable E) t i" "now (reliable E) = now E"
  "init_owner (reliable E) = init_owner E" "slab_inode (reliable E) = slab_inode E"
  by (simp_all add: reliable_def)

lemma current_time_reliable: "current_time (reliable E) = current_time E"
  by (simp add: fun_eq_iff current_time_def)

lemma init_new_inode_reliable: "init_new_inode (reliable E) = init_new_inode E"
  by (simp add: fun_eq_iff init_new_inode_def)

text \<open>
  \<open>agrees F m m'\<close>: when \<open>m\<close> returns and \<open>F\<close> does not take its result for an error, \<open>m'\<close> does the
  same. \<open>surely F m\<close>: \<open>m\<close> only returns errors.
\<close>

definition agrees :: "('a \<Rightarrow> bool) \<Rightarrow> 'a kc \<Rightarrow> 'a kc \<Rightarrow> bool" where
  "agrees F m m' \<longleftrightarrow> (\<forall>s x s'. m s = Run x s' \<longrightarrow> F x \<or> m' s = Run x s')"

definition surely :: "('a \<Rightarrow> bool) \<Rightarrow> 'a kc \<Rightarrow> bool" where
  "surely F m \<longleftrightarrow> (\<forall>s x s'. m s = Run x s' \<longrightarrow> F x)"

lemma agreesD: "agrees F m m' \<Longrightarrow> m s = Run x s' \<Longrightarrow> \<not> F x \<Longrightarrow> m' s = Run x s'"
  unfolding agrees_def by blast

lemma agrees_refl: "agrees F m m"
  by (simp add: agrees_def)

lemma agrees_step:
  assumes "agrees G m m'" and "\<And>x. G x \<Longrightarrow> surely F (f x)" and "\<And>x. \<not> G x \<Longrightarrow> agrees F (f x) (f' x)"
  shows "agrees F (bnd m f) (bnd m' f')"
  unfolding agrees_def
proof (intro allI impI)
  fix s x s' assume "bnd m f s = Run x s'"
  then obtain y t where y: "m s = Run y t" "f y t = Run x s'" by (auto simp: bnd_def split: outcome.splits)
  show "F x \<or> bnd m' f' s = Run x s'"
  proof (cases "G y")
    case True
    then show ?thesis using assms(2) y(2) by (auto simp: surely_def)
  next
    case False
    then have "m' s = Run y t" using agreesD [OF assms(1) y(1)] by blast
    then show ?thesis using assms(3) [OF False] y(2) by (auto simp: agrees_def bnd_def)
  qed
qed

lemma agrees_same: "(\<And>x. agrees F (f x) (f' x)) \<Longrightarrow> agrees F (bnd m f) (bnd m f')"
  by (rule agrees_step [where G = "\<lambda>_. False"]) (simp_all add: agrees_refl)

lemma agrees_first: "agrees (\<lambda>_. False) m m' \<Longrightarrow> (\<And>x. agrees F (f x) (f' x)) \<Longrightarrow> agrees F (bnd m f) (bnd m' f')"
  by (rule agrees_step [where G = "\<lambda>_. False"]) simp_all

lemma agrees_bread:
  assumes "surely F e" and "\<And>b. agrees F (f b) (f' b)"
  shows "agrees F (bnd (sb_bread E n) (case_option e f)) (bnd (sb_bread (reliable E) n) (case_option e' f'))"
  using assms by (auto simp: agrees_def surely_def bnd_def sb_bread_def)

lemma agrees_branches:
  "(c \<Longrightarrow> agrees F m m') \<Longrightarrow> (\<not> c \<Longrightarrow> agrees F n n') \<Longrightarrow> agrees F (if c then m else n) (if c then m' else n')"
  "agrees F m m' \<Longrightarrow> (\<And>x. y = Some x \<Longrightarrow> agrees F (f x) (f' x)) \<Longrightarrow> agrees F (case_option m f y) (case_option m' f' y)"
  "(\<And>x. z = Inl x \<Longrightarrow> agrees F (g x) (g' x)) \<Longrightarrow> (\<And>x. z = Inr x \<Longrightarrow> agrees F (h x) (h' x)) \<Longrightarrow>
     agrees F (case_sum g h z) (case_sum g' h' z)"
  "(\<And>x y. p = (x, y) \<Longrightarrow> agrees F (k x y) (k' x y)) \<Longrightarrow> agrees F (case_prod k p) (case_prod k' p)"
  "(\<And>x. agrees F (l x) (l' x)) \<Longrightarrow> agrees F (let x = a in l x) (let x = a in l' x)"
  "(\<And>n. agrees F (a1 n) (b1 n)) \<Longrightarrow> (\<And>n. agrees F (a2 n) (b2 n)) \<Longrightarrow> (\<And>e. agrees F (a3 e) (b3 e)) \<Longrightarrow>
     agrees F (case_search a1 a2 a3 w) (case_search b1 b2 b3 w)"
  by (simp_all split: option.split sum.split prod.split search.split)

lemma surely_ret: "F x \<Longrightarrow> surely F (ret x)"
  by (simp add: surely_def ret_def)

lemma surely_halt: "surely F (halt e)"
  by (simp add: surely_def halt_def)

lemma surely_bnd: "(\<And>x. surely F (f x)) \<Longrightarrow> surely F (bnd m f)"
  by (auto simp: surely_def bnd_def split: outcome.splits)

text \<open>A rule for one state.\<close>

lemma agrees_at:
  "m s = Run y t \<Longrightarrow> m' s = Run y t \<Longrightarrow> bnd m f s = Run x s' \<Longrightarrow> agrees (\<lambda>r. r \<noteq> x) (f y) (f' y) \<Longrightarrow>
    bnd m' f' s = Run x s'"
  by (auto simp: bnd_def agrees_def)

lemmas agree = agrees_refl agrees_bread agrees_same agrees_branches surely_ret surely_halt

section \<open>The operations\<close>

lemma agrees_put:
  "agrees (\<lambda>_. False) (yaf_put_inode E sb i) (yaf_put_inode (reliable E) sb i)"
  "agrees (\<lambda>_. False) (yaf_put_dblock E sb j) (yaf_put_dblock (reliable E) sb j)"
  unfolding yaf_put_inode_def yaf_put_dblock_def by (intro agree)+

lemma agrees_get_free_inode:
  "agrees (\<lambda>i. i = RESERVED_INO) (yaf_get_free_inode E sb) (yaf_get_free_inode (reliable E) sb)"
proof -
  have "agrees (\<lambda>i. i = RESERVED_INO) (get_free_inode_loop E sb bids) (get_free_inode_loop (reliable E) sb bids)" for bids
    by (induction bids) (simp only: get_free_inode_loop.simps, intro agree refl | assumption)+
  then show ?thesis by (simp add: yaf_get_free_inode_def)
qed

lemma get_free_dblock_reliable:
  assumes "sb_ok sb" and "\<forall>t. bread_ok E t (BID_DBP_MIN sb)"
  shows "yaf_get_free_dblock (reliable E) sb = yaf_get_free_dblock E sb"
  using get_free_dblock_run [of sb E] get_free_dblock_run [of sb "reliable E"] assms by (simp add: fun_eq_iff)

definition error_pointer :: "(int + u64) \<Rightarrow> bool" where
  "error_pointer r \<longleftrightarrow> (\<exists>e. r = Inl e \<and> e \<noteq> 0)"

lemma agrees_iget: "agrees error_pointer (yaf_iget E sb i) (yaf_iget (reliable E) sb i)"
  by (auto simp: agrees_def yaf_iget_def bnd_def sb_bread_def iget_locked_def ret_def error_pointer_def errno_defs
      kernel_run split: outcome.splits option.splits if_splits)

lemma agrees_new_inode: "agrees error_pointer (yaf_new_inode E sb dir mode) (yaf_new_inode (reliable E) sb dir mode)"
  unfolding yaf_new_inode_def current_time_reliable init_new_inode_reliable
  by (intro agrees_step [OF agrees_get_free_inode] agrees_step [OF agrees_iget] agree surely_bnd agrees_first agrees_put;
      auto simp: error_pointer_def errno_defs intro!: surely_ret surely_bnd)

text \<open>Errors as negative numbers, as small as kernel errors are.\<close>

definition negative :: "int \<Rightarrow> bool" where
  "negative r \<longleftrightarrow> - 4096 < r \<and> r < 0"

definition search_failed :: "search \<Rightarrow> bool" where
  "search_failed r \<longleftrightarrow> (\<exists>e. r = Failed e \<and> negative e \<and> e \<noteq> - ENOENT)"

lemma negative_errnos [simp]: "negative (- EIO)" "negative (- ENOSPC)" "negative (- ENAMETOOLONG)"
  by (simp_all add: negative_def errno_defs)

lemma agrees_dir_search:
  "agrees search_failed (dir_search E sb P ib sz doff) (dir_search (reliable E) sb P ib sz doff)"
proof (induction "sz - doff" arbitrary: doff rule: less_induct)
  case less
  have ih: "agrees search_failed (dir_search E sb P ib sz doff') (dir_search (reliable E) sb P ib sz doff')"
    if "doff < sz" "dentry_scan P blk 0 doff sz = Inr doff'" for doff' blk
    using dentry_scan_progress [OF _ that] that(1) by (intro less) simp
  have err: "surely search_failed (ret (Failed (- EIO)))"
    by (rule surely_ret) (simp add: search_failed_def errno_defs negative_def)
  show ?case
    by (subst (1 2) dir_search.simps) (intro err agree ih; assumption)
qed

lemma agrees_append: "agrees (\<lambda>_. False) (append_dentry E sb dir doff) (append_dentry (reliable E) sb dir doff)"
  unfolding append_dentry_def current_time_reliable by (intro agree)

lemma agrees_get_free_dentry:
  assumes "sb_ok sb" and "\<forall>t. bread_ok E t (BID_DBP_MIN sb)"
  shows "agrees negative (yaf_get_free_dentry E sb dir) (yaf_get_free_dentry (reliable E) sb dir)"
proof -
  have "agrees negative (append_dentry E sb dir doff) (append_dentry (reliable E) sb dir doff)" for doff
    using agrees_append [of E sb dir doff] by (simp add: agrees_def)
  then show ?thesis
    unfolding yaf_get_free_dentry_def get_free_dblock_reliable [OF assms]
    by (intro agree agrees_step [OF agrees_dir_search]; (auto simp: search_failed_def intro: surely_ret)?)
qed

lemma agrees_find:
  "agrees (\<lambda>r. negative r \<and> r \<noteq> - ENOENT) (do_yaf_lookup E sb dir nm) (do_yaf_lookup (reliable E) sb dir nm)"
  unfolding do_yaf_lookup_def
  by (intro agree agrees_step [OF agrees_dir_search]; (auto simp: search_failed_def intro: surely_ret)?)

lemma agrees_lookup: "agrees (\<lambda>r. r \<noteq> 0) (yaf_lookup E sb dir nm) (yaf_lookup (reliable E) sb dir nm)"
  unfolding yaf_lookup_def lookup_out_def current_time_reliable
  by (intro agrees_step [OF agrees_find] agrees_step [OF agrees_iget] agree;
      (auto simp: negative_def error_pointer_def errno_defs intro!: surely_ret surely_bnd)?)

lemma agrees_put_dblocks: "agrees (\<lambda>_. False) (put_dblocks E sb v doff) (put_dblocks (reliable E) sb v doff)"
proof (induction "i_size v - doff" arbitrary: doff rule: less_induct)
  case less
  show ?case by (subst (1 2) put_dblocks.simps) (intro agree agrees_first agrees_put less; simp)
qed

lemma agrees_delete: "agrees (\<lambda>r. r \<noteq> 0) (yaf_delete E sb dir nm) (yaf_delete (reliable E) sb dir nm)"
proof -
  have "surely (\<lambda>r. r \<noteq> 0) (bnd (assert_k (0 \<le> r)) f)" if "negative r" for r and f :: "unit \<Rightarrow> int kc"
    using that by (simp add: surely_def negative_def assert_k_def bnd_def)
  then show ?thesis
    unfolding yaf_delete_def current_time_reliable
    by (intro agrees_step [OF agrees_find] agree agrees_first agrees_put agrees_put_dblocks; simp add: errno_defs)
qed

lemma agrees_rmdir: "agrees (\<lambda>r. r \<noteq> 0) (yaf_rmdir E sb dir nm) (yaf_rmdir (reliable E) sb dir nm)"
  unfolding yaf_rmdir_def by (intro agree agrees_delete)

lemma agrees_write_inode: "agrees (\<lambda>r. r \<noteq> 0) (yaf_write_inode E sb i) (yaf_write_inode (reliable E) sb i)"
  unfolding yaf_write_inode_def by (intro agree) (simp_all add: errno_defs)

lemma get_block_reliable:
  assumes "sb_ok sb" and "\<forall>t. bread_ok E t (BID_DBP_MIN sb)"
  shows "yaf_get_block (reliable E) sb i blk c = yaf_get_block E sb i blk c"
proof -
  have "extend_blocks (reliable E) sb i n m = extend_blocks E sb i n m" for n m
  proof (induction "Suc m - n" arbitrary: n rule: less_induct)
    case less
    have "extend_blocks (reliable E) sb i (Suc n) m = extend_blocks E sb i (Suc n) m" if "n \<le> m"
      by (rule less) (use that in simp)
    then show ?case
      by (cases "n \<le> m"; subst (1 2) extend_blocks.simps) (simp_all add: get_free_dblock_reliable [OF assms] cong: if_cong)
  qed
  then show ?thesis by (simp only: yaf_get_block_def)
qed

section \<open>Creation\<close>

text \<open>
  When no free entry is found, creation stops on an access outside of the block list: the inodes in
  memory keep block lists of eight entries.
\<close>

definition lists_kept :: "kst \<Rightarrow> kst \<Rightarrow> bool" where
  "lists_kept s s' \<longleftrightarrow> (\<forall>i v. icache s i = Some v \<longrightarrow> length (i_block v) = YAF_IBLOCKS \<longrightarrow>
     (\<exists>w. icache s' i = Some w \<and> length (i_block w) = YAF_IBLOCKS))"

lemma lists_update: "driver_update E f \<Longrightarrow> length (i_block v) = YAF_IBLOCKS \<Longrightarrow> length (i_block (f v)) = YAF_IBLOCKS"
  by (induction rule: driver_update.induct) simp_all

interpretation lists: primitives E lists_kept "\<lambda>_. True" for E
proof
  show "reflp lists_kept" by (auto simp: reflp_def lists_kept_def)
  show "transp lists_kept" unfolding transp_def lists_kept_def by blast
  show "driver_update E f \<Longrightarrow> obeys lists_kept (\<lambda>_. True) (upd_inode i f)" for f i
    by (auto simp: obeys_def lists_kept_def upd_inode_def lists_update split: option.split)
qed (simp_all add: obeys_def lists_kept_def kernel_defs)

lemma create_reliable:
  assumes sb: "sb_ok sb" "\<forall>t. bread_ok E t (BID_DBP_MIN sb)" and d: "icache s dir = Some d" "length (i_block d) = YAF_IBLOCKS"
    and run: "do_yaf_create E sb dir nm mode s = Run 0 s'"
  shows "do_yaf_create (reliable E) sb dir nm mode s = Run 0 s'"
proof -
  have short: "length nm \<le> YAF_DENTRY_NAME_LEN"
    using run by (cases "YAF_DENTRY_NAME_LEN < length nm") (auto simp: do_yaf_create_def ret_def errno_defs)
  obtain r s1 where free: "yaf_get_free_dentry E sb dir s = Run r s1"
    using run short by (auto simp: do_yaf_create_def bnd_def split: outcome.splits)
  obtain d1 where d1: "icache s1 dir = Some d1" "length (i_block d1) = YAF_IBLOCKS"
    using obeysD(1) [OF lists.get_free_dentry free] d unfolding lists_kept_def by blast
  have "\<not> negative r"
    using create_negative_run [OF free _ _ d1(1), of nm mode] d1(2) short run by (auto simp: negative_def)
  with free have free': "yaf_get_free_dentry (reliable E) sb dir s = Run r s1"
    by (rule agreesD [OF agrees_get_free_dentry [OF sb]])
  have "\<not> YAF_DENTRY_NAME_LEN < length nm" using short by (simp only: not_less)
  note unfold = do_yaf_create_def if_not_P [OF this] current_time_reliable
  show ?thesis
    using run unfolding unfold
    by (rule agrees_at [where s = s and m = "yaf_get_free_dentry E sb dir" and y = r and t = s1
          and m' = "yaf_get_free_dentry (reliable E) sb dir", OF free free'], intro agree agrees_step [OF agrees_new_inode])
      (auto simp: errno_defs error_pointer_def intro!: surely_bnd surely_ret)
qed

section \<open>Requests on a device that fails\<close>

lemma serve_reliable:
  assumes inv: "fs_inv sb s" and bitmap: "\<forall>t. bread_ok E t (BID_DBP_MIN sb)" and ok: "allowed sb s q"
    and run: "serve E sb q s = Run 0 s'"
  shows "serve (reliable E) sb q s = Run 0 s'"
proof -
  note sb = fs_invD(1) [OF inv]
  have create: "do_yaf_create (reliable E) sb dir nm mode s = Run 0 s'"
    if c: "do_yaf_create E sb dir nm mode s = Run 0 s'" and may: "too_long nm \<or> may_create sb s dir nm mode'" for dir nm mode mode'
  proof -
    have "\<not> too_long nm" using c by (auto simp: too_long_def do_yaf_create_def ret_def errno_defs)
    then obtain d where d: "icache s dir = Some d" using may by (auto simp: may_create_def)
    have "length (i_block d) = YAF_IBLOCKS" using node_ok_length [OF cached_node(3) [OF inv d]] by simp
    then show ?thesis using create_reliable [OF sb bitmap d _ c] by blast
  qed
  have forget: "agrees (\<lambda>r. r \<noteq> 0) (then_forget dir nm ino m) (then_forget dir nm ino m')"
    if "agrees (\<lambda>r. r \<noteq> 0) m m'" for dir nm ino m m'
    unfolding then_forget_def by (rule agrees_step [OF that]) (simp_all add: surely_def agrees_refl)
  have sync: "agrees (\<lambda>r. r \<noteq> 0) (sync_inode E sb ino) (sync_inode (reliable E) sb ino)" for ino
    unfolding sync_inode_def by (rule agrees_step [OF agrees_write_inode]) (simp_all add: surely_def agrees_refl)
  show ?thesis
    using run ok create
      agreesD [OF forget [OF agrees_delete]] agreesD [OF forget [OF agrees_rmdir]] agreesD [OF sync] agreesD [OF agrees_lookup]
    by (cases q) (auto simp: yaf_create_def yaf_mkdir_def yaf_unlink_def get_block_reliable [OF sb bitmap])
qed

text \<open>Requests whose errors leave everything as it was.\<close>

fun clean_error :: "request \<Rightarrow> bool" where
  "clean_error (Create dir nm mode) = too_long nm"
| "clean_error (Mkdir dir nm mode) = too_long nm"
| "clean_error (Lookup dir nm) = too_long nm"
| "clean_error (Unlink dir nm ino) = True"
| "clean_error (Rmdir dir nm ino) = True"
| "clean_error (Sync ino) = True"
| "clean_error q = False"

lemma still_step:
  assumes inv: "fs_inv sb s" and same: "still s s'" "refs s' = refs s"
  shows "fs_inv sb s' \<and> afs_of sb s' = afs_of sb s"
proof (rule cache_step [OF inv])
  note st = same(1) [unfolded still_def]
  show "cache_move sb s (idirty s') i (icache s' i)" for i using st by (simp add: cache_move.stays)
  show "dentry_in (afs_of sb s) s' dir nm x" if "dcache s' (dir, nm) = Some x" for dir nm x
    using that st by (intro old_dentry [OF inv]) simp_all
qed (use same in \<open>simp_all add: still_def\<close>)

lemma error_served:
  assumes run: "serve E sb q s = Run r s'" and r: "r \<noteq> 0" and q: "clean_error q"
  shows "still s s' \<and> refs s' = refs s"
proof -
  have op: "still s s'" "refs s' = refs s" if "m s = Run r s'" "when_error (\<lambda>r. r \<noteq> 0) still m" "balanced m" for m :: "int kc"
    using when_errorD [OF that(2,1)] balancedD [OF that(3,1)] r by blast+
  have forget: "m s = Run r s'" if "then_forget dir nm ino m s = Run r s'" for dir nm ino m
    using that r by (auto simp: then_forget_def bnd_run split: outcome.splits)
  have sync: "yaf_write_inode E sb ino s = Run r s'" if "sync_inode E sb ino s = Run r s'" for ino
    using that r by (auto simp: sync_inode_def bnd_run split: outcome.splits)
  have long: "s' = s" if "Run (- ENAMETOOLONG) s = Run r s'" using that by simp
  show ?thesis
  proof (cases q)
    case (Unlink dir nm ino)
    then have "yaf_delete E sb dir nm s = Run r s'" using run by (simp add: yaf_unlink_def forget)
    then show ?thesis using op [OF _ delete_error balanced_delete] by blast
  next
    case (Rmdir dir nm ino)
    then have "yaf_rmdir E sb dir nm s = Run r s'" using run by (simp add: forget)
    then show ?thesis using op [OF _ rmdir_error balanced_remove(2)] by blast
  next
    case (Sync ino)
    then have "yaf_write_inode E sb ino s = Run r s'" using run by (simp add: sync)
    then show ?thesis using op [OF _ write_inode_error balanced_parts(5)] by blast
  qed (use q run long long_name in \<open>auto simp: still_def\<close>)
qed

text \<open>
  Sequences of requests, on any device, as long as each of them succeeds or fails in one of these ways.
  On a reliable device all do. On one that is not, the states behind a failed creation, lookup
  or block mapping are left out, although the driver returns such errors and goes on: a creation may have made
  the directory longer, and a lookup may have left an inode locked.
\<close>

inductive runs :: "env \<Rightarrow> Yaf_Sb_Info \<Rightarrow> kst \<Rightarrow> kst \<Rightarrow> bool" for E sb s0 where
  start: "runs E sb s0 s0"
| served: "runs E sb s0 s \<Longrightarrow> allowed sb s q \<Longrightarrow> serve E sb q s = Run r s' \<Longrightarrow> r = 0 \<or> clean_error q \<Longrightarrow> runs E sb s0 s'"

lemma spec_error: "spec_of q a r a' \<Longrightarrow> r = 0 \<or> clean_error q"
  by (cases q) (auto simp: unless_too_long_def split: if_splits)

lemma reach_runs:
  assumes "reach E sb s0 s" and "fs_inv sb s0" and "device_ok E sb" and "owner_ok E"
  shows "runs E sb s0 s"
  using assms
proof (induction rule: reach.induct)
  case (served s q r s')
  have "fs_inv sb s" by (rule reach_inv [OF served.hyps(1) served.prems])
  from request_served [OF this served.prems(2,3) served.hyps(2)] served.hyps(3)
  have "r = 0 \<or> clean_error q" by (auto dest: spec_error)
  with served show ?case by (blast intro: runs.served)
qed (rule runs.start)

lemma served_inv:
  assumes inv: "fs_inv sb s" and own: "owner_ok E" and bitmap: "\<forall>t. bread_ok E t (BID_DBP_MIN sb)"
    and ok: "allowed sb s q" and run: "serve E sb q s = Run r s'" and r: "r = 0 \<or> clean_error q"
  shows "fs_inv sb s' \<and> (if r = 0 then spec_of q (afs_of sb s) 0 (afs_of sb s') else afs_of sb s' = afs_of sb s)"
proof (cases "r = 0")
  case True
  then have run': "serve (reliable E) sb q s = Run 0 s'"
    using serve_reliable [OF inv bitmap ok] run by simp
  have "device_ok (reliable E) sb" "owner_ok (reliable E)"
    using own by (simp_all add: device_ok_def owner_ok_def)
  from request_served [OF inv this ok] run' show ?thesis using True by simp
next
  case False
  with r have "clean_error q" by simp
  with error_served [OF run False] still_step [OF inv] False show ?thesis by simp
qed

lemma runs_inv:
  "runs E sb s0 s \<Longrightarrow> fs_inv sb s0 \<Longrightarrow> owner_ok E \<Longrightarrow> \<forall>t. bread_ok E t (BID_DBP_MIN sb) \<Longrightarrow> fs_inv sb s"
  by (induction rule: runs.induct) (simp_all add: served_inv)

section \<open>Properties\<close>

text \<open>
  C2. What holds after requests that succeed or fail cleanly. After any sequence of requests that
  \<open>allowed\<close> covers, from a state that satisfies the invariant, on a device whose first data bitmap
  block can always be read while other reads and allocations may fail, and when every request either
  returned 0 or was one whose errors are clean (a removal, a write-back, a name too long): no two inodes hold the same data block, every
  block an inode holds is on the device and marked used, every name leads to a live inode, no inode
  has two names, every inode is below the root directory, and no buffer reference is left over.
\<close>

theorem reachable_consistent:
  assumes "runs E sb s0 s" and "fs_inv sb s0" and "owner_ok E" and "\<forall>t. bread_ok E t (BID_DBP_MIN sb)"
  shows "(\<forall>i j. live sb s i \<and> live sb s j \<and> i \<noteq> j \<longrightarrow> held (node sb s i) \<inter> held (node sb s j) = {}) \<and>
    (\<forall>i x. live sb s i \<and> x \<in> held (node sb s i) \<longrightarrow>
       DNO2BID sb x \<le> BID_D_MAX sb \<and> unat x \<in> used_bits (disk s (BID_DBP_MIN sb))) \<and>
    (\<forall>dir nm i. links (afs_of sb s) dir nm i \<longrightarrow> live sb s (ucast i)) \<and>
    (\<forall>dir nm dir' nm' i. links (afs_of sb s) dir nm i \<and> links (afs_of sb s) dir' nm' i \<longrightarrow>
       dir = dir' \<and> nm = nm') \<and>
    (\<forall>i. live sb s i \<longrightarrow> below (afs_of sb s) i) \<and> refs s = (\<lambda>_. 0)"
  by (rule inv_consistent [OF runs_inv [OF assms]])

theorem reachable_consistent_witness:
  "\<exists>s s'. s' \<noteq> s \<and> runs env0 sb0 s s' \<and> below (afs_of sb0 s') ROOT_INO \<and> refs s' = (\<lambda>_. 0)"
proof -
  obtain m' d where m: "fs_inv sb0 (ks (m' :: mount))" "afs_of sb0 (ks m') = [ROOT_INO \<mapsto> Dir Map.empty]"
      "icache (ks m') = [ROOT_INO \<mapsto> d]" "S_ISDIR (i_mode d)"
    using sample_mount by (elim exE conjE) (rule that, assumption+)
  let ?s = "ks m'"
  have d: "icache ?s ROOT_INO = Some d" using m(3) by simp
  obtain s' where s': "serve env0 sb0 (Sync ROOT_INO) ?s = Run 0 s'" "afs_of sb0 s' = afs_of sb0 ?s" "tick s' = tick ?s + 1"
  proof -
    have "ino_ok sb0 ROOT_INO" by (rule cached_node(2) [OF m(1) d])
    then show thesis
      using that sync_step [OF m(1) sample_dir(1) d] write_inode_run [of env0 ?s sb0 ROOT_INO d] d
      by (auto simp: sync_inode_def bnd_run)
  qed
  have bm: "\<forall>t. bread_ok env0 t (BID_DBP_MIN sb0)" by simp
  have r: "runs env0 sb0 ?s s'" by (rule runs.served [OF runs.start _ s'(1)]) (simp_all add: d)
  have "live sb0 s' ROOT_INO" using s'(2) m(2) by (auto simp: afs_of_def dest: fun_cong [where x = ROOT_INO] split: if_splits)
  with reachable_consistent [OF r m(1) owner_env0 bm]
  have "below (afs_of sb0 s') ROOT_INO" "refs s' = (\<lambda>_. 0)" by blast+
  moreover have "s' \<noteq> ?s" using s'(3) by auto
  ultimately show ?thesis using r by blast
qed

text \<open>
  C3. Requests on a device that fails in other places than the data bitmap. On any device whose first
  data bitmap block can always be read, whatever other
  reads and allocations fail: a request that \<open>allowed\<close> covers and that returns 0 leads to a state that
  satisfies the invariant and has had its specified effect on the abstract file system; a removal or
  a write-back that returns an error, or a name refused as too long, leads to a state that satisfies
  the invariant and has the same abstract file system.
\<close>

theorem faulty_device_served:
  assumes "fs_inv sb s" and "owner_ok E" and "\<forall>t. bread_ok E t (BID_DBP_MIN sb)" and "allowed sb s q"
    and "serve E sb q s = Run r s'" and "r = 0 \<or> clean_error q"
  shows "fs_inv sb s' \<and> (if r = 0 then spec_of q (afs_of sb s) 0 (afs_of sb s') else afs_of sb s' = afs_of sb s)"
  by (rule served_inv [OF assms])

text \<open>The block of the root inode can not be read: it can not be written back either.\<close>

theorem faulty_device_served_witness:
  "\<exists>s s'. serve (env0\<lparr>bread_ok := \<lambda>t b. b \<noteq> 3\<rparr>) sb0 (Sync ROOT_INO) s = Run (- EIO) s' \<and> fs_inv sb0 s' \<and>
     afs_of sb0 s' = [ROOT_INO \<mapsto> Dir Map.empty]"
proof -
  let ?E = "env0\<lparr>bread_ok := \<lambda>t b. b \<noteq> 3\<rparr>"
  obtain m' d where m: "fs_inv sb0 (ks (m' :: mount))" "afs_of sb0 (ks m') = [ROOT_INO \<mapsto> Dir Map.empty]"
      "icache (ks m') = [ROOT_INO \<mapsto> d]"
    using sample_mount by (elim exE conjE) (rule that; assumption)
  let ?s' = "(ks m')\<lparr>tick := tick (ks m') + 1\<rparr>"
  have "INO2BID sb0 ROOT_INO = 3" and b: "BID_DBP_MIN sb0 = 2" by code_simp+
  then have run: "serve ?E sb0 (Sync ROOT_INO) (ks m') = Run (- EIO) ?s'"
    by (simp add: sync_inode_def yaf_write_inode_def bnd_run sb_bread_def ret_def errno_defs)
  have own: "owner_ok ?E" using owner_env0 by (simp add: owner_ok_def)
  have "allowed sb0 (ks m') (Sync ROOT_INO)" using m(3) by simp
  from faulty_device_served [OF m(1) own _ this run] b m(2) run show ?thesis by (auto simp: errno_defs)
qed

end
