(* ===== verification/Yaf_Locks.thy ===== *)
theory Yaf_Locks
  imports Yaf_Faults
begin

text \<open>
  Waiting. \<open>iget_locked\<close> waits until an inode in memory is unlocked, and this is the one place where
  the driver waits. An inode is locked from the moment \<open>iget_locked\<close> makes it until \<open>yaf_iget\<close> unlocks it,
  so no request waits for ever as long as every request before it has unlocked what it locked.
  All of them do, but for one case: \<open>yaf_iget\<close> does not unlock the inode when it can not read its block
  of the inode table, and the creation or lookup that called it then returns \<open>-EIO\<close>.
\<close>

definition same_locks :: "kst \<Rightarrow> kst \<Rightarrow> bool" where
  "same_locks s s' \<longleftrightarrow> inew s' = inew s"

interpretation locks: primitives E same_locks "\<lambda>e. e \<noteq> Hang" for E
proof
  show "reflp same_locks" by (simp add: reflp_def same_locks_def)
  show "transp same_locks" by (rule transpI) (simp only: same_locks_def)
qed (simp_all add: obeys_def same_locks_def kernel_defs upd_inode_def split: option.split)

abbreviation lockless :: "'a kc \<Rightarrow> bool" where
  "lockless \<equiv> obeys same_locks (\<lambda>e. e \<noteq> Hang)"

section \<open>Code that unlocks what it locks\<close>

text \<open>
  \<open>unlocking G m\<close>: started while no inode is locked, \<open>m\<close> does not wait for ever, and when it returns no
  inode is locked, unless \<open>G\<close> takes its result for the error that leaves one locked.
\<close>

definition unlocking :: "('a \<Rightarrow> bool) \<Rightarrow> 'a kc \<Rightarrow> bool" where
  "unlocking G m \<longleftrightarrow>
     (\<forall>s. inew s = {} \<longrightarrow> (case m s of Run x s' \<Rightarrow> G x \<or> inew s' = {} | Stop e \<Rightarrow> e \<noteq> Hang))"

lemma unlockingI:
  assumes "\<And>s x s'. inew s = {} \<Longrightarrow> m s = Run x s' \<Longrightarrow> \<not> G x \<Longrightarrow> inew s' = {}"
    and "\<And>s. inew s = {} \<Longrightarrow> m s \<noteq> Stop Hang"
  shows "unlocking G m"
  unfolding unlocking_def
proof (intro allI impI)
  fix s :: kst assume "inew s = {}"
  from assms(1) [OF this] assms(2) [OF this] show "case m s of Run x s' \<Rightarrow> G x \<or> inew s' = {} | Stop e \<Rightarrow> e \<noteq> Hang"
    by (cases "m s") auto
qed

lemma unlockingD:
  assumes "unlocking G m" and "inew s = {}"
  shows "m s = Run x s' \<Longrightarrow> \<not> G x \<Longrightarrow> inew s' = {}" and "m s \<noteq> Stop Hang"
  using assms by (auto simp: unlocking_def dest!: spec [of _ s])

lemma unlocking_lockless: "lockless m \<Longrightarrow> unlocking G m"
  by (rule unlockingI) (auto dest: obeysD simp: same_locks_def)

text \<open>Before the call that may lock an inode, nothing is locked; after it, nothing waits.\<close>

lemma unlocking_before:
  assumes "lockless m" and "\<And>x. unlocking G (f x)"
  shows "unlocking G (bnd m f)"
proof (rule unlockingI)
  fix s :: kst assume s: "inew s = {}"
  have mid: "inew t = {}" if "m s = Run x t" for x t
    using obeysD(1) [OF assms(1) that] s by (simp add: same_locks_def)
  show "inew s' = {}" if "bnd m f s = Run x s'" "\<not> G x" for x s'
    using that mid unlockingD(1) [OF assms(2)] by (auto simp: bnd_def split: outcome.splits)
  show "bnd m f s \<noteq> Stop Hang"
    using mid unlockingD(2) [OF assms(2)] obeysD(2) [OF assms(1), of s Hang]
    by (auto simp: bnd_def split: outcome.splits)
qed

lemma unlocking_after:
  assumes "unlocking G' m" and "\<And>x. lockless (f x)" and "\<And>x. G' x \<Longrightarrow> surely G (f x)"
  shows "unlocking G (bnd m f)"
proof (rule unlockingI)
  fix s :: kst assume s: "inew s = {}"
  show "inew s' = {}" if run: "bnd m f s = Run y s'" and y: "\<not> G y" for y s'
  proof -
    obtain x t where xt: "m s = Run x t" "f x t = Run y s'"
      using run by (auto simp: bnd_def split: outcome.splits)
    then have "\<not> G' x" using assms(3) y by (auto simp: surely_def)
    then have "inew t = {}" using unlockingD(1) [OF assms(1) s xt(1)] by blast
    with obeysD(1) [OF assms(2) xt(2)] show ?thesis by (simp add: same_locks_def)
  qed
  show "bnd m f s \<noteq> Stop Hang"
    using unlockingD(2) [OF assms(1) s] obeysD(2) [OF assms(2)] by (auto simp: bnd_def split: outcome.splits)
qed

lemma unlocking_branches:
  "(c \<Longrightarrow> unlocking G m) \<Longrightarrow> (\<not> c \<Longrightarrow> unlocking G m') \<Longrightarrow> unlocking G (if c then m else m')"
  "unlocking G m \<Longrightarrow> (\<And>x. unlocking G (f x)) \<Longrightarrow> unlocking G (case_option m f y)"
  "(\<And>x. unlocking G (h x)) \<Longrightarrow> unlocking G (let x = a in h x)"
  by (simp_all split: option.split)

lemma surely_sum: "(\<And>e. z = Inl e \<Longrightarrow> surely F (g e)) \<Longrightarrow> (\<And>x. z = Inr x \<Longrightarrow> surely F (h x)) \<Longrightarrow> surely F (case_sum g h z)"
  by (simp split: sum.split)

lemmas lockless_first = locks.reads(1-6) [THEN unlocking_before] locks.bread [THEN unlocking_before]
  locks.find [THEN unlocking_before] locks.get_free_dentry [THEN unlocking_before]
  locks.get_free_inode [THEN unlocking_before] locks.reads(7) [THEN unlocking_lockless]

section \<open>The operations\<close>

definition table_readable :: "env \<Rightarrow> Yaf_Sb_Info \<Rightarrow> bool" where
  "table_readable E sb \<longleftrightarrow> (\<forall>t i. ino_ok sb i \<longrightarrow> bread_ok E t (INO2BID sb i))"

definition unread :: "env \<Rightarrow> Yaf_Sb_Info \<Rightarrow> int \<Rightarrow> bool" where
  "unread E sb e \<longleftrightarrow> e = - EIO \<and> \<not> table_readable E sb"

definition unread_pointer :: "env \<Rightarrow> Yaf_Sb_Info \<Rightarrow> (int + u64) \<Rightarrow> bool" where
  "unread_pointer E sb r \<longleftrightarrow> (case r of Inl e \<Rightarrow> unread E sb e | Inr _ \<Rightarrow> False)"

lemma iget_unlocking: "unlocking (unread_pointer E sb) (yaf_iget E sb ino)"
proof (cases "ino_ok sb ino")
  case True
  then have in_table: "\<not> ucast (nr_i sb) * of_nat INODES_PER_BLOCK \<le> ino"
    using inode_bound by blast
  have "bread_ok E t (INO2BID sb ino) \<or> unread E sb (- EIO)" for t
    using True by (auto simp: unread_def table_readable_def)
  then show ?thesis
    unfolding yaf_iget_def if_not_P [OF in_table]
    by (auto simp: unlocking_def bnd_def kernel_defs iget_locked_def upd_inode_def ret_def
        unread_pointer_def split: outcome.splits option.splits if_splits)
qed (simp add: unlocking_def iget_range)

lemma new_inode_unlocking: "unlocking (unread_pointer E sb) (yaf_new_inode E sb dir mode)"
  unfolding yaf_new_inode_def
  by (intro lockless_first unlocking_branches unlocking_after [OF iget_unlocking] locks.keep locks.put surely_sum)
    (auto simp: unread_pointer_def intro!: surely_bnd surely_ret)

lemma create_unlocking: "unlocking (unread E sb) (do_yaf_create E sb dir nm mode)"
  unfolding do_yaf_create_def
  by (intro lockless_first unlocking_branches unlocking_after [OF new_inode_unlocking] locks.keep surely_sum)
    (auto simp: unread_pointer_def intro!: surely_bnd surely_ret)

lemma lookup_unlocking: "unlocking (unread E sb) (yaf_lookup E sb dir nm)"
proof -
  have "lockless (lookup_out E dir nm i)" for i
    unfolding lookup_out_def by (intro locks.keep)
  then show ?thesis
    unfolding yaf_lookup_def
    by (intro lockless_first unlocking_branches unlocking_after [OF iget_unlocking] locks.keep surely_sum)
      (auto simp: unread_pointer_def intro!: surely_bnd surely_ret unlocking_lockless)
qed

section \<open>Sequences of requests\<close>

text \<open>The requests that load an inode; the others take no lock and never wait.\<close>

fun loads :: "request \<Rightarrow> bool" where
  "loads (Create dir nm mode) = True"
| "loads (Mkdir dir nm mode) = True"
| "loads (Lookup dir nm) = True"
| "loads q = False"

lemma lockless_serve:
  assumes "\<not> loads q"
  shows "lockless (serve E sb q)"
proof -
  have forget: "lockless (then_forget dir nm ino m)" if "lockless m" for dir nm ino and m :: "int kc"
    unfolding then_forget_def
    by (rule obeys_bnd [OF locks.trans that]) (simp add: obeys_def same_locks_def)
  have sync: "lockless (sync_inode E sb ino)" for ino
    unfolding sync_inode_def
    by (rule obeys_bnd [OF locks.trans locks.write_inode]) (simp add: obeys_def same_locks_def)
  have update: "lockless (upd_inode i f)" "lockless (mark_page_dirty b)" "lockless (\<lambda>s. Run y (s\<lparr>icache := g s\<rparr>))"
      "lockless (\<lambda>s. Run y (s\<lparr>dcache := h s\<rparr>))" for i f b g h and y :: int
    by (auto simp: obeys_def same_locks_def upd_inode_def mark_page_dirty_def split: option.split)
  show ?thesis
    using assms
    by (cases q; simp add: set_size_def)
      (intro forget locks.remove sync update locks.keep locks.get_block | assumption)+
qed

lemma serve_unlocking: "unlocking (\<lambda>r. loads q \<and> unread E sb r) (serve E sb q)"
proof (cases "loads q")
  case True
  then show ?thesis
    using create_unlocking lookup_unlocking by (cases q) (simp_all add: yaf_create_def yaf_mkdir_def)
qed (simp add: lockless_serve unlocking_lockless)

text \<open>
  The states that any requests lead to, allowed or not and on any device, as long as no creation or
  lookup has returned \<open>-EIO\<close> on a device whose inode table can not always be read.
\<close>

inductive unfailing :: "env \<Rightarrow> Yaf_Sb_Info \<Rightarrow> kst \<Rightarrow> kst \<Rightarrow> bool" for E sb s0 where
  start: "unfailing E sb s0 s0"
| served: "unfailing E sb s0 s \<Longrightarrow> serve E sb q s = Run r s' \<Longrightarrow>
     \<not> loads q \<or> r \<noteq> - EIO \<or> table_readable E sb \<Longrightarrow> unfailing E sb s0 s'"

lemma unfailing_unlocked: "unfailing E sb s0 s \<Longrightarrow> inew s0 = {} \<Longrightarrow> inew s = {}"
proof (induction rule: unfailing.induct)
  case (served s q r s')
  then show ?case
    using unlockingD(1) [OF serve_unlocking served.IH [OF served.prems] served.hyps(2)] by (auto simp: unread_def)
qed

section \<open>Properties\<close>

text \<open>
  C40. No request waits for ever. Whatever the disk holds and whatever reads and allocations fail, any
  sequence of requests that starts while no inode is locked leaves none locked, and the next request,
  or reading of a directory, does not wait for an inode that no one will unlock. The one exception is
  a device whose inode table can not always be read: there a creation or a lookup must not have
  returned \<open>-EIO\<close> before, since it may have left an inode locked.
\<close>

theorem driver_never_hangs:
  assumes "unfailing E sb s0 s" and "inew s0 = {}"
  shows "inew s = {} \<and> serve E sb q s \<noteq> Stop Hang \<and> yaf_iterate_shared E sb A parent dir ctx s \<noteq> Stop Hang"
proof -
  have s: "inew s = {}" by (rule unfailing_unlocked [OF assms])
  with unlockingD(2) [OF serve_unlocking s] unlockingD(2) [OF unlocking_lockless [OF locks.iterate] s]
  show ?thesis by blast
qed

theorem driver_never_hangs_witness:
  "\<exists>s s'. serve env0 sb0 (Create ROOT_INO [97] 0) s = Run 0 s' \<and> inew s' = {} \<and>
     serve env0 sb0 (Lookup ROOT_INO [97]) s' \<noteq> Stop Hang"
proof -
  obtain s where s: "fs_inv sb0 s" "allowed sb0 s (Create ROOT_INO [97] 0)"
    using sample_creation by blast
  from request_served [OF s(1) sample_dir(1) owner_env0 s(2)] obtain s' where
    s': "serve env0 sb0 (Create ROOT_INO [97] 0) s = Run 0 s'" by (auto simp: too_long_def unless_too_long_def)
  have "unfailing env0 sb0 s s'"
    by (rule unfailing.served [OF unfailing.start s']) (simp add: errno_defs)
  moreover have "inew s = {}" using s(1) by (simp add: fs_inv_def)
  ultimately have "inew s' = {}" "serve env0 sb0 (Lookup ROOT_INO [97]) s' \<noteq> Stop Hang"
    using driver_never_hangs by blast+
  with s' show ?thesis by blast
qed

end
