(* ===== verification/Yaf_Scan.thy ===== *)
theory Yaf_Scan
  imports Yaf_DirMap
begin

text \<open>
  The search over the blocks of a directory as such, whatever is stored there and whichever
  predicate is searched for: it is a linear search over the array of slots, and it always comes to an end.
\<close>

section \<open>Progress of the loops\<close>

lemma dentry_scan_end:
  "i \<le> DENTRYS_PER_BLOCK \<Longrightarrow> dentry_scan P blk i doff sz = Inr doff' \<Longrightarrow>
     sz \<le> doff' \<or> doff' = doff + (DENTRYS_PER_BLOCK - i) * YAF_DENTRY_SIZE"
proof (induction P blk i doff sz rule: dentry_scan.induct)
  case (1 P blk i doff sz)
  show ?case
  proof (cases "i < DENTRYS_PER_BLOCK \<and> doff < sz")
    case True
    with "1.prems" have rest: "dentry_scan P blk (Suc i) (doff + YAF_DENTRY_SIZE) sz = Inr doff'"
        and np: "\<not> P blk (i * YAF_DENTRY_SIZE)"
      by (subst (asm) dentry_scan.simps, simp split: if_splits)+
    have "DENTRYS_PER_BLOCK - i = Suc (DENTRYS_PER_BLOCK - Suc i)" using True by (simp; arith)
    with "1.IH" [OF True np _ rest] True show ?thesis by (simp add: add.assoc)
  next
    case False
    with "1.prems" show ?thesis by (subst (asm) dentry_scan.simps) auto
  qed
qed

definition blocks_from :: "nat \<Rightarrow> nat \<Rightarrow> nat" where
  "blocks_from sz doff = (sz - doff + (YAF_BLOCK_SIZE - 1)) div YAF_BLOCK_SIZE"

lemma blocks_from_next:
  "doff < sz \<Longrightarrow> sz \<le> doff' \<or> doff' = doff + 4096 \<Longrightarrow> Suc (blocks_from sz doff') \<le> blocks_from sz doff"
proof (elim disjE)
  assume "doff < sz" "sz \<le> doff'"
  then have "blocks_from sz doff' = 0" "1 \<le> blocks_from sz doff"
    by (simp_all add: blocks_from_def less_eq_div_iff_mult_less_eq)
  then show ?thesis by simp
next
  assume d: "doff < sz" "doff' = doff + 4096"
  show ?thesis
  proof (cases "sz \<le> doff'")
    case True
    then show ?thesis using d by (simp add: blocks_from_def less_eq_div_iff_mult_less_eq)
  next
    case False
    then have "sz - doff + 4095 = (sz - doff' + 4095) + 4096" using d by simp
    then show ?thesis by (simp add: blocks_from_def)
  qed
qed

lemma search_ends:
  assumes "sz \<le> YAF_BLOCK_SIZE * length ib"
  shows "\<exists>r t. dir_search E sb P ib sz doff s = Run r (s\<lparr>tick := t\<rparr>) \<and> t \<le> tick s + blocks_from sz doff"
proof (induction "sz - doff" arbitrary: doff s rule: less_induct)
  case less
  show ?case
  proof (cases "doff < sz")
    case False
    then show ?thesis by (subst dir_search.simps) (auto intro!: exI [of _ "tick s"])
  next
    case True
    let ?b = "DNO2BID sb (ib ! (doff div 4096))"
    have idx: "doff div 4096 < length ib" using True assms by (simp add: less_mult_imp_div_less)
    have one: "1 \<le> blocks_from sz doff" using blocks_from_next [OF True, of sz] by simp
    show ?thesis
    proof (cases "bread_ok E (tick s) ?b")
      case False
      then show ?thesis using True idx one
        by (intro exI [of _ "Failed (- EIO)"] exI [of _ "tick s + 1"])
          (subst dir_search.simps, simp add: yaf_exec)
    next
      case ok: True
      show ?thesis
      proof (cases "dentry_scan P (disk s ?b) 0 doff sz")
        case (Inl found)
        then show ?thesis using True ok idx one
          by (intro exI [of _ "Found found"] exI [of _ "tick s + 1"])
            (subst dir_search.simps, simp add: yaf_exec)
      next
        case (Inr doff')
        have "doff < doff'" using dentry_scan_progress [OF _ True Inr] by simp
        then obtain r t where "dir_search E sb P ib sz doff' (s\<lparr>tick := tick s + 1\<rparr>) =
              Run r (s\<lparr>tick := tick s + 1\<rparr>\<lparr>tick := t\<rparr>)"
            "t \<le> tick s + 1 + blocks_from sz doff'"
          using less [of doff' "s\<lparr>tick := tick s + 1\<rparr>"] True diff_less_mono2 [of doff doff' sz] by auto
        moreover have "Suc (blocks_from sz doff') \<le> blocks_from sz doff"
          using blocks_from_next [OF True] dentry_scan_end [OF _ Inr] by simp
        ultimately show ?thesis using True ok idx Inr
          by (intro exI [of _ r] exI [of _ t]) (subst dir_search.simps, simp add: yaf_exec)
      qed
    qed
  qed
qed

section \<open>Properties\<close>

text \<open>
  C35. The search is linear search. The two nested loops, one over the blocks and one over the
  entries of a block, each with an early exit, find the first slot of the directory that the
  predicate holds of, as a search of the array of slots does, and report its byte offset, or the
  size of the directory when there is none.
\<close>

theorem dir_search_linear:
  assumes "\<forall>t j. 128 * j < n \<longrightarrow> bread_ok E t (DNO2BID sb (ib ! j))" and "n \<le> 128 * length ib"
  shows "\<exists>t. dir_search E sb P ib (32 * n) 0 s = Run
    (case first_idx (\<lambda>k. P (disk s (DNO2BID sb (ib ! (k div 128)))) (32 * (k mod 128))) n of
       Some k \<Rightarrow> Found (32 * k) | None \<Rightarrow> Missing (32 * n)) (s\<lparr>tick := t\<rparr>)"
  using dir_search_run [of n E sb ib 0 0 P s] assms
  by (simp add: first_idx_def slot_sat_def [abs_def])

theorem dir_search_linear_witness:
  "\<exists>t. dir_search env0 sb0 (\<lambda>blk off. blk off = 7) [0, 1] (32 * 200) 0
     (kst_of (\<lambda>b off. if b = DNO2BID sb0 1 \<and> off = 32 then 7 else 0)) = Run (Found 4128)
     ((kst_of (\<lambda>b off. if b = DNO2BID sb0 1 \<and> off = 32 then 7 else 0))\<lparr>tick := t\<rparr>)"
proof -
  let ?s = "kst_of (\<lambda>b off. if b = DNO2BID sb0 1 \<and> off = 32 then 7 else (0 :: byte))"
  have ne: "DNO2BID sb0 0 \<noteq> DNO2BID sb0 1" by (simp add: DNO2BID_def)
  have at: "(disk ?s (DNO2BID sb0 ([0, 1] ! (k div 128))) (32 * (k mod 128)) = 7) \<longleftrightarrow> k = 129" if "k < 200" for k
  proof -
    consider "k < 128" | "128 \<le> k" by linarith
    then show ?thesis
      using ne that by cases (simp_all add: le_div_geq le_mod_geq, arith)
  qed
  have "first_idx (\<lambda>k. disk ?s (DNO2BID sb0 ([0, 1] ! (k div 128))) (32 * (k mod 128)) = 7) 200 = Some 129"
    by (rule first_idx_at) (use at in auto)
  then show ?thesis
    using dir_search_linear [of 200 env0 sb0 "[0, 1]" "\<lambda>blk off. blk off = 7" ?s] by simp
qed

text \<open>
  C36. The search comes to an end. Whatever the blocks hold and whichever of their reads fail,
  a search over a directory whose block list covers its size returns, after at most one
  read per block of the directory, with every buffer given back and nothing changed.
\<close>

theorem dir_search_terminates:
  assumes "sz \<le> YAF_BLOCK_SIZE * length ib"
  shows "\<exists>r t. dir_search E sb P ib sz 0 s = Run r (s\<lparr>tick := t\<rparr>) \<and>
    t \<le> tick s + (sz + (YAF_BLOCK_SIZE - 1)) div YAF_BLOCK_SIZE"
  using search_ends [OF assms, of E sb P 0 s] by (simp add: blocks_from_def)

theorem dir_search_terminates_witness:
  "\<exists>r t. dir_search (env0\<lparr>bread_ok := \<lambda>_ _. False\<rparr>) sb0 free_entry [5] 4000 0 (kst_of zeros) =
     Run r ((kst_of zeros)\<lparr>tick := t\<rparr>) \<and> t \<le> 1"
  using dir_search_terminates [of 4000 "[5]" "env0\<lparr>bread_ok := \<lambda>_ _. False\<rparr>" sb0 free_entry "kst_of zeros"]
  by simp

end
