(* ===== verification/Spec2Isabelle.thy ===== *)
theory Spec2Isabelle
  imports Yaf_Life Yaf_Resources Yaf_Parallel Yaf_Faults Yaf_Locks Yaf_Scan
begin

text \<open>
  YAF, a file system for Linux with a fixed layout, consists of a formatting tool
  (\<open>tool/mkfs.c\<close>, \<open>tool/arguments.c\<close>), which writes an empty file system to a block device, and of a
  kernel module (\<open>driver/\<close>), which mounts the device and serves the requests of the virtual file
  system. They share the layout of the device and the records on it (\<open>include/\<close>). A device of
  4096-byte blocks holds the superblock, the inode bitmap, the data bitmap, the inode table and the
  data blocks, in this order. An inode has eight data blocks at most; those of a directory hold an
  array of 32-byte entries. This development models both programs and shows that they fit together.

  \<^bold>\<open>The model.\<close> A piece of C code is a function from a state to an outcome (\<open>Yaf_Prelude\<close>):
  \<open>Run x s\<close> when it returns, \<open>Stop e\<close> when it fails an assertion (\<open>Panic\<close>), reads or writes
  outside of an object (\<open>BadAccess\<close>) or waits for ever (\<open>Hang\<close>); \<open>bnd\<close> is sequential composition.
  Integers have the width the code gives them; sizes and offsets that can not wrap around are natural
  numbers. The state of the driver (\<open>Yaf_Kernel\<close>) is what it shares with the kernel: the blocks
  as the buffer cache shows them, reference counts and dirty marks of buffers, the inodes and
  dentries in memory, and the locks on inodes. What the driver can not decide (which
  reads and allocations fail, the clock, the owner of a new inode, the content of fresh memory) is a
  parameter \<open>env\<close>, quantified in every theorem; \<open>device_ok\<close> states that no read within the
  device and no allocation fails. The
  tool's \<open>host\<close> does the same for system calls. Generic functions of the kernel that the driver
  calls or puts into its tables are parameters as well, with contracts taken from their
  documentation where a theorem needs one (\<open>Yaf_Content\<close>).

  \<^bold>\<open>Theories and code.\<close>
  \<^item> \<open>Yaf_Prelude\<close>: outcomes, little-endian fields, C strings; no code of the repository.
  \<^item> \<open>Yaf_Layout\<close>: \<open>include/fs.h\<close>, \<open>super.h\<close>, \<open>bitmap.h\<close> and the constants and conversions of
    \<open>inode.h\<close>. The sections partition the device, and the conversions between indices, blocks and
    offsets stay in their sections and are injective.
  \<^item> \<open>Yaf_Kernel\<close>: the state and the kernel calls that touch it; \<open>struct Yaf_Inode_Info\<close>.
  \<^item> \<open>Yaf_Disk\<close>: the on-disk \<open>Yaf_Inode\<close> and \<open>Yaf_Dentry\<close>; locale \<open>slot_store\<close>, records of one width
    in a block, is interpreted for 32-bit fields, inodes and entries.
  \<^item> \<open>Yaf_Bitmap\<close>: \<open>driver/bitmap.c\<close>; locale \<open>index_allocator\<close>, which takes the least free index and
    gives it back, is interpreted for a bitmap block. \<open>Yaf_Parallel\<close> runs any number of calls on one block,
    interleaved at their atomic accesses: no index is handed out twice, no call waits, and a call that is
    not interrupted is the sequential one.
  \<^item> \<open>Yaf_Inode\<close>: \<open>yaf_iget\<close> and \<open>yaf_new_inode\<close> of \<open>driver/inode.c\<close>, \<open>yaf_write_inode\<close> of
    \<open>driver/super.c\<close>: loading, creating and writing back an inode.
  \<^item> \<open>Yaf_Dir\<close>: the rest of \<open>driver/inode.c\<close>: searching, creating, looking up and deleting entries.
    \<open>Yaf_Scan\<close> shows the search loops equal to a linear search that always ends; \<open>Yaf_DirMap\<close> turns
    the slots of a directory into a map from names to inode numbers; \<open>Yaf_DirOps\<close>,
    \<open>Yaf_DirCreate\<close> and \<open>Yaf_DirDelete\<close> show that the operations look up, add and remove an entry of
    this map, and what they answer where they can not.
  \<^item> \<open>Yaf_Readdir\<close>: \<open>driver/dir.c\<close>, as a pass over the slots.
  \<^item> \<open>Yaf_File\<close>: \<open>driver/file.c\<close>, block mapping and the address space operations; \<open>Yaf_Content\<close> shows
    what a read and a buffered write do to the bytes of a file.
  \<^item> \<open>Yaf_Super\<close>: \<open>driver/super.c\<close> and \<open>driver/fs.c\<close>: mounting, and loading the module as a step
    relation. \<open>Yaf_Tables\<close>: the six operation tables, as records; requests are dispatched through
    them.
  \<^item> \<open>Yaf_Mkfs\<close>, \<open>Yaf_Format\<close>: the formatting tool: counts, superblock, bitmaps, root inode, command
    line; and what the driver reads from the device it wrote.

  \<^bold>\<open>Contracts on every path.\<close> \<open>Yaf_Contract\<close> states what an operation keeps whatever fails, in a
  chain of locales \<open>reading\<close>, \<open>storing\<close>, \<open>primitives\<close>, \<open>contract\<close>: a preorder kept by the kernel
  calls of a group of operations is kept by the operations. The interpretations are on the
  model's state: the tables of the inodes fit their types, no dirty mark is lost (there), no
  request waits for ever, as long as no creation or lookup has left an inode locked by failing
  to read it (\<open>Yaf_Locks\<close>), a deletion or write-back that fails has changed nothing, a lookup that fails
  nothing but for the inode it may have left in memory, locked, and a
  creation that fails has only prepared the directory (\<open>Yaf_Errors\<close>). \<open>Yaf_Buffers\<close> adds that every buffer
  is released exactly once.

  \<^bold>\<open>The file system as a whole.\<close> \<open>Yaf_Spec\<close> is the specification: a map from inode numbers to
  directories (maps from names to inode numbers) and files (lists of bytes) that is a tree
  below the root. \<open>Yaf_Node\<close> reads such a map off a state of the driver (\<open>afs_of\<close>): an inode in
  memory counts before the one on disk. \<open>Yaf_System\<close> has the invariant \<open>fs_inv\<close>: the blocks of the
  inodes are apart and marked in the bitmap, inode number 0 is never free, clean inodes in memory agree with the disk,
  dentries agree with the directories, and the map is a tree. \<open>Yaf_Steps\<close> and \<open>Yaf_Change\<close> prove,
  one operation at a time, that it is kept and which abstract step was made. \<open>Yaf_Run\<close>
  puts this together: requests, those the theorems cover (\<open>allowed\<close>: the resources they need are left, and
  no name is looked up whose inode is in memory and dirty), the code that serves them
  (\<open>serve\<close>), and the refinement theorem. \<open>Yaf_Faults\<close> extends
  the theorem to devices that fail in other places than the data bitmap: what reports no error has done
  what it does on a reliable device. It also shows what holds after any sequence of requests that succeed or
  fail without an effect; the states behind a failed creation, lookup or block mapping are not covered.
  \<open>Yaf_Device\<close> puts the device behind the buffer cache: every block the driver changes is marked
  dirty, so that the device differs from the cache in marked blocks only, which the kernel writes out one by
  one. \<open>Yaf_Shutdown\<close> shows that
  the kernel can always write back and drop everything, and that the device then has it all, and
  \<open>Yaf_Resources\<close> that creation succeeds as long as the first block of the inode bitmap has an inode number left, the first
  block of the data bitmap a data block, and the directory a slot. \<open>Yaf_Life\<close> follows a
  file from its creation to a later mount. The theorems below join the tool and the
  driver: a formatted device mounts as an empty file system, a file system survives an unmount, and a
  file made on a freshly formatted device is read back, byte by byte, at the next mount.

  \<^bold>\<open>Bounds.\<close> No fuel is used; every loop is a function with a proof of termination by a measure
  (entries left in a block, bytes left in a file, blocks left to allocate or to clear). The theorems
  on formatting and mounting hold for devices of 64 up to \<open>2 ^ 32 - 1\<close> blocks; smaller
  ones are formatted but can not be mounted (shown below), and the counts have 32 bits.
  Allocation is characterised for the first block of each bitmap, 32768 inodes and data blocks: once
  that is full, the code fails, because the negative answer of \<open>yaf_get_free_bit\<close> is kept
  in an unsigned variable (shown in \<open>Yaf_Inode\<close> and \<open>Yaf_File\<close>); the hypotheses
  \<open>inode_available\<close> and \<open>dblock_available\<close> exclude this. The refinement theorem excludes
  that the kernel looks up a name while its inode is in memory and dirty, since \<open>yaf_iget\<close> reads
  it again from the disk and loses the changes (shown in \<open>Yaf_Inode\<close>), and it assumes that the kernel makes one request after the
  other, as the locks of the virtual file system make it do for one directory or file.

  \<^bold>\<open>Not modelled.\<close> Log messages and the debug printers of the tool, which only write output; the build
  files and the test script; the page cache, apart from the contracts of \<open>block_write_begin\<close> and
  \<open>generic_write_end\<close>; crashes before all marked buffers are written, of which the driver, having no
  journal, promises nothing; the reference counts of inodes, and files that are open while they are unlinked (a request
  that removes a name forgets the inode at once); big-endian hosts; devices whose
  hardware blocks are larger than 4096 bytes, on which the block size can not be set; and requests on
  different directories at the same time, apart from their accesses to the bitmaps
  (\<open>Yaf_Parallel\<close>).
\<close>

section \<open>From the formatting tool to the driver\<close>

text \<open>
  C6. Format, then mount. When no call of the formatting tool fails, on a device of at least 64
  and less than \<open>2 ^ 32\<close> blocks, it returns 0; mounting what it wrote then succeeds with the
  counts it computed, in a state that satisfies the invariant of the running file system and
  whose abstract file system is an empty root directory, with inode 2 and a data block ready
  to be handed out.
\<close>

theorem mkfs_then_mount:
  assumes "host_ok H" and "64 \<le> unat bnr" and "unat bnr < 2 ^ 32" and "device_ok E (sb_counts bnr)"
  shows "\<exists>v' m'. format_device H bnr v = Run 0 v' \<and>
    yaf_fill_super E True True (unmounted (kst_of (disk_of (img v')))) = Run 0 m' \<and>
    s_fs_info m' = Some (sb_counts bnr) \<and> s_root m' = Some ROOT_INO \<and>
    fs_inv (sb_counts bnr) (ks m') \<and>
    afs_of (sb_counts bnr) (ks m') = [ROOT_INO \<mapsto> Dir Map.empty] \<and>
    inode_available (sb_counts bnr) (ks m') 2 \<and> dblock_available (sb_counts bnr) (ks m')"
proof -
  let ?sb = "sb_counts bnr"
  obtain v' m' d where m: "format_device H bnr v = Run 0 v'"
      "yaf_fill_super E True True (unmounted (kst_of (disk_of (img v')))) = Run 0 m'"
      "s_fs_info m' = Some ?sb" "s_root m' = Some ROOT_INO" "fs_inv ?sb (ks m')"
      "afs_of ?sb (ks m') = [ROOT_INO \<mapsto> Dir Map.empty]" "icache (ks m') = [ROOT_INO \<mapsto> d]"
      "used_bits (disk (ks m') (BID_IBP_MIN ?sb)) = {..<2}" "used_bits (disk (ks m') (BID_DBP_MIN ?sb)) = {..<0}"
    using format_mount [OF assms, of v] by (elim exE conjE) (rule that, assumption+)
  have two: "icache (ks m') 2 = None" using m(7) by (simp add: ROOT_INO_def)
  note room = empty_root_available [OF m(8,9) formatted_counts(1,2) [OF assms(2,3)] fs_invD(2) [OF m(5)] two]
  show ?thesis
    by (rule exI [of _ v'], rule exI [of _ m'], intro conjI) (fact m(1-6) room)+
qed

theorem mkfs_then_mount_witness:
  "\<exists>v' m'. format_device (host_of Inr) 256 dev0 = Run 0 v' \<and>
     yaf_fill_super env0 True True (unmounted (kst_of (disk_of (img v')))) = Run 0 m'"
proof -
  have "host_ok (host_of Inr)" by (simp add: host_ok_def host_of_def)
  then show ?thesis
    using mkfs_then_mount [of "host_of Inr" 256 env0 dev0] by auto
qed

text \<open>
  C39. A device that is too small. For a device of less than 64 blocks the formatting tool
  returns 0 as well, but no such device can be mounted: \<open>yaf_fill_super\<close> finds no root inode
  and returns \<open>-EINVAL\<close>.
\<close>

theorem mkfs_tiny_device:
  assumes "host_ok H" and "unat bnr < 64" and "bread_ok E 0 0"
  shows "\<exists>v' m'. format_device H bnr v = Run 0 v' \<and>
    yaf_fill_super E True True (unmounted (kst_of (disk_of (img v')))) = Run (- EINVAL) m' \<and>
    s_root m' = None"
proof -
  obtain v' ysb where v': "format_device H bnr v = Run 0 v'" "sb_load ysb = sb_counts bnr" "magic_ok ysb 0"
      "\<forall>x<4096. img v' x = ysb x"
    using format_run [OF assms(1) refl, of bnr v] by blast
  let ?m = "unmounted (kst_of (disk_of (img v')))"
  have b: "disk_of (img v') 0 off = ysb off" if "off < 4096" for off
    using v'(4) that by (simp add: disk_of_def)
  have ld: "sb_load (disk (ks ?m) 0) = sb_counts bnr" "magic_ok (disk (ks ?m) 0) 0"
    using sb_load_cong [of "disk_of (img v') 0" ysb] magic_ok_cong [of "disk_of (img v') 0" ysb] b v'(2,3)
    by (simp_all add: unmounted_def)
  have "nr_i (sb_counts bnr) = 0" using counts_small [OF assms(2)] by simp
  then have "\<not> ino_ok (sb_load (disk (ks ?m) 0)) ROOT_INO" unfolding ld(1) by (simp add: ino_ok_def)
  moreover have "bread_ok E (tick (ks ?m)) 0" using assms(3) by (simp add: unmounted_def)
  ultimately obtain m' where "yaf_fill_super E True True ?m = Run (- EINVAL) m'" "s_root m' = s_root ?m"
    using fill_super_no_root [OF _ ld(2), of E True] by blast
  with v'(1) show ?thesis by (auto simp: unmounted_def)
qed

theorem mkfs_tiny_device_witness:
  "\<exists>v' m'. format_device (host_of Inr) 63 dev0 = Run 0 v' \<and>
     yaf_fill_super env0 True True (unmounted (kst_of (disk_of (img v')))) = Run (- EINVAL) m'"
proof -
  have "host_ok (host_of Inr)" by (simp add: host_ok_def host_of_def)
  then show ?thesis
    using mkfs_tiny_device [of "host_of Inr" 63 env0 dev0] by auto
qed

section \<open>Across an unmount\<close>

text \<open>
  C8. The file system survives an unmount. When the device lags behind the cache in marked blocks
  only, as it does after any operations of the driver, and no inode in memory and no block is left to be
  written, the device mounted again gives a state that satisfies the invariant and has the same
  abstract file system: the same tree of names and the same files, byte by byte.
\<close>

theorem remount_persistent:
  assumes "fs_inv sb s" and "device_ok E sb" and "\<forall>i. icache s i \<noteq> None \<longrightarrow> i \<notin> idirty s"
    and "lags s dev" and "bdirty s = {}"
  shows "\<exists>m'. yaf_fill_super E True True (unmounted (kst_of dev)) = Run 0 m' \<and> s_fs_info m' = Some sb \<and>
    fs_inv sb (ks m') \<and> afs_of sb (ks m') = afs_of sb s"
  using remount [OF assms] by blast

theorem remount_persistent_witness:
  "\<exists>dev m'. yaf_fill_super env0 True True (unmounted (kst_of dev)) = Run 0 m' \<and>
     afs_of sb0 (ks m') = [ROOT_INO \<mapsto> Dir Map.empty]"
proof -
  obtain m' d where m: "fs_inv sb0 (ks (m' :: mount))" "afs_of sb0 (ks m') = [ROOT_INO \<mapsto> Dir Map.empty]"
      "icache (ks m') = [ROOT_INO \<mapsto> d]"
    using sample_mount by (elim exE conjE) (rule that; assumption)
  obtain s' where s': "sync_inode env0 sb0 ROOT_INO (ks m') = Run 0 s'" "fs_inv sb0 s'" "afs_of sb0 s' = afs_of sb0 (ks m')"
    using sync_step [OF m(1) sample_dir(1), of ROOT_INO d] m(3) by auto
  let ?s = "s'\<lparr>bdirty := {}\<rparr>"
  have "\<forall>i. icache s' i \<noteq> None \<longrightarrow> i \<notin> idirty s'"
    using s'(1) m(3) write_inode_run [of env0 "ks m'" sb0 ROOT_INO d]
    by (auto simp: sync_inode_def bnd_run split: if_splits)
  then have s: "fs_inv sb0 ?s" "\<forall>i. icache ?s i \<noteq> None \<longrightarrow> i \<notin> idirty ?s" "lags ?s (disk s')" "bdirty ?s = {}"
      "afs_of sb0 ?s = afs_of sb0 s'"
    using bdirty_step [OF s'(2), of "{}"] by (simp_all add: lags_def)
  from remount_persistent [OF s(1) sample_dir(1) s(2-4)] s(5) s'(3) m(2) show ?thesis by auto
qed

section \<open>From one mount to the next\<close>

text \<open>
  C4. The life of a file, from the formatting tool to a second mount. The tool formats a device, the
  driver mounts it, the kernel looks up a name, creates the file and writes up to a block of data to it,
  and then writes back and drops what it caches. All of this succeeds, and the kernel can get to where
  no inode is left in memory and no block is left to be written. In whatever order it gets there, the
  device, which so far held what the tool wrote, then mounts again, the
  name is found with the inode number it was given, the file has the size of the data, and
  each of its bytes is in the block the driver maps it to.
\<close>

theorem file_life_cycle:
  assumes "host_ok H" and "64 \<le> unat bnr" and "unat bnr < 2 ^ 32" and "sb = sb_counts bnr"
    and "device_ok E sb" and "owner_ok E" and "valid_name nm" and "mode AND S_IFMT = 0"
    and "data \<noteq> []" and "length data \<le> YAF_BLOCK_SIZE"
    and "write_begin_contract bwb 0 (of_nat (length data))" and "\<And>ino. write_end_contract (gwe ino) sb ino 0 data"
  shows "\<exists>v' m s1 s2 i ino s3 s4. format_device H bnr v = Run 0 v' \<and>
    yaf_fill_super E True True (unmounted (kst_of (disk_of (img v')))) = Run 0 m \<and>
    yaf_lookup E sb ROOT_INO nm (ks m) = Run 0 s1 \<and>
    yaf_create E sb ROOT_INO nm mode s1 = Run 0 s2 \<and> ino = ucast (i :: u32) \<and> dcache s2 (ROOT_INO, nm) = Some (Some ino) \<and>
    yaf_write_begin bwb E sb ino 0 (of_nat (length data)) s2 = Run 0 s3 \<and>
    yaf_write_end (gwe ino) E ino 0 (of_nat (length data)) (of_nat (length data)) s3 = Run (int (length data)) s4 \<and>
    (\<exists>s5 dev. settle E sb (s4, disk_of (img v')) (s5, dev) \<and> icache s5 = Map.empty \<and> bdirty s5 = {}) \<and>
    (\<forall>s5 dev. settle E sb (s4, disk_of (img v')) (s5, dev) \<and> icache s5 = Map.empty \<and> bdirty s5 = {} \<longrightarrow>
      (\<exists>m' s6. yaf_fill_super E True True (unmounted (kst_of dev)) = Run 0 m' \<and>
        afs_of sb (ks m') = [ROOT_INO \<mapsto> Dir [nm \<mapsto> i], ino \<mapsto> File data] \<and>
        yaf_lookup E sb ROOT_INO nm (ks m') = Run 0 s6 \<and> dcache s6 (ROOT_INO, nm) = Some (Some ino) \<and>
        (\<forall>k<length data. \<exists>b. yaf_get_block E sb ino (of_nat (k div YAF_BLOCK_SIZE)) False s6 = Run (0, Some b) s6 \<and>
           disk s6 b (k mod YAF_BLOCK_SIZE) = data ! k) \<and>
        (\<exists>w. icache s6 ino = Some w \<and> i_size w = length data)))"
proof -
  note n = formatted_counts [OF assms(2,3), folded assms(4)]
  obtain v' m d where m: "format_device H bnr v = Run 0 v'"
      "yaf_fill_super E True True (unmounted (kst_of (disk_of (img v')))) = Run 0 m" "fs_inv sb (ks m)"
      "afs_of sb (ks m) = [ROOT_INO \<mapsto> Dir Map.empty]" "icache (ks m) = [ROOT_INO \<mapsto> d]" "S_ISDIR (i_mode d)"
      "dcache (ks m) = Map.empty" "used_bits (disk (ks m) (BID_IBP_MIN sb)) = {..<2}"
      "used_bits (disk (ks m) (BID_DBP_MIN sb)) = {..<0}" "disk (ks m) = disk_of (img v')"
    using format_mount [OF assms(1-3) assms(5) [unfolded assms(4)], of v, folded assms(4)]
    by (elim exE conjE) (rule that, assumption+)
  obtain s1 where s1: "yaf_lookup E sb ROOT_INO nm (ks m) = Run 0 s1" "fs_inv sb s1" "afs_of sb s1 = afs_of sb (ks m)"
      "disk s1 = disk (ks m)" "dcache s1 = [(ROOT_INO, nm) \<mapsto> None]" "may_create sb s1 ROOT_INO nm mode"
    using first_lookup [OF m(3) assms(5) m(4-6,8,9) n(1,2) assms(7), of mode] assms(8) m(7) by auto
  have bits: "used_bits (disk s1 (BID_DBP_MIN sb)) = {..<0}" and fin: "finite (dom (dcache s1))"
    using m(9) s1(4,5) by simp_all
  obtain s2 ino s3 s4 r i where f: "yaf_create E sb ROOT_INO nm mode s1 = Run 0 s2" "dcache s2 (ROOT_INO, nm) = Some (Some ino)"
      "yaf_write_begin bwb E sb ino 0 (of_nat (length data)) s2 = Run 0 s3"
      "yaf_write_end (gwe ino) E ino 0 (of_nat (length data)) (of_nat (length data)) s3 = Run (int (length data)) s4"
      "fs_inv sb s4" "ino = ucast (i :: u32)" "afs_of sb s1 ROOT_INO = Some (Dir r)"
      "afs_of sb s4 = (afs_of sb s1)(ROOT_INO := Some (Dir (r(nm := Some i))), ino := Some (File data))"
      "finite (dom (dcache s4))" "\<forall>dev. lags s1 dev \<longrightarrow> lags s4 dev"
    using file_made [OF s1(2) assms(5,6) s1(6) bits n(3) fin assms(9-12)]
    by (elim exE conjE) (rule that, assumption+)
  have afs: "afs_of sb s4 = [ROOT_INO \<mapsto> Dir [nm \<mapsto> i], ino \<mapsto> File data]"
    using f(7,8) s1(3) m(4) by auto
  have "lags (ks m) (disk_of (img v'))" using m(10) by (simp add: lags_def)
  then have lag: "lags s4 (disk_of (img v'))"
    using f(10) lags_run [OF marks_lookup s1(1)] by blast
  have settled: "\<exists>s5 dev. settle E sb (s4, disk_of (img v')) (s5, dev) \<and> icache s5 = Map.empty \<and> bdirty s5 = {}"
    using shut_down [OF f(5) assms(5,6) f(9) lag] by blast
  note again = found_after_settling [OF f(5) assms(5-7) lag f(6) afs]
  show ?thesis
    by (rule exI [of _ v'], rule exI [of _ m], rule exI [of _ s1], rule exI [of _ s2], rule exI [of _ i],
        rule exI [of _ ino], rule exI [of _ s3], rule exI [of _ s4], intro conjI)
      (fact m(1,2) s1(1) f(1-4,6) settled again)+
qed

theorem file_life_cycle_witness:
  "\<exists>s4 d4 s5 dev m' s6 ino b. settle env0 sb0 (s4, d4) (s5, dev) \<and> icache s5 = Map.empty \<and> bdirty s5 = {} \<and>
    yaf_fill_super env0 True True (unmounted (kst_of dev)) = Run 0 m' \<and>
    yaf_lookup env0 sb0 ROOT_INO [97] (ks m') = Run 0 s6 \<and> dcache s6 (ROOT_INO, [97]) = Some (Some ino) \<and>
    yaf_get_block env0 sb0 ino 0 False s6 = Run (0, Some b) s6 \<and> disk s6 b 1 = 8"
proof -
  let ?gwe = "\<lambda>ino off len copied. store_data sb0 ino off [7, 8]"
  have H: "host_ok (host_of Inr)" by (simp add: host_ok_def host_of_def)
  have n: "64 \<le> unat (256 :: u64)" "unat (256 :: u64) < 2 ^ 32" by simp_all
  have w: "(0 :: u16) AND S_IFMT = 0" "[7 :: byte, 8] \<noteq> []" "length [7 :: byte, 8] \<le> YAF_BLOCK_SIZE" by simp_all
  have gwe: "\<And>ino. write_end_contract (?gwe ino) sb0 ino 0 [7, 8]" by (rule store_contract)
  obtain d4 ino s4 s5 dev i where s5: "settle env0 sb0 (s4, d4) (s5, dev)" "icache s5 = Map.empty" "bdirty s5 = {}"
    and again: "\<forall>s5 dev. settle env0 sb0 (s4, d4) (s5, dev) \<and> icache s5 = Map.empty \<and> bdirty s5 = {} \<longrightarrow>
      (\<exists>m' s6. yaf_fill_super env0 True True (unmounted (kst_of dev)) = Run 0 m' \<and>
        afs_of sb0 (ks m') = [ROOT_INO \<mapsto> Dir [[97] \<mapsto> (i :: u32)], ino \<mapsto> File [7, 8]] \<and>
        yaf_lookup env0 sb0 ROOT_INO [97] (ks m') = Run 0 s6 \<and> dcache s6 (ROOT_INO, [97]) = Some (Some ino) \<and>
        (\<forall>k<length [7 :: byte, 8]. \<exists>b. yaf_get_block env0 sb0 ino (of_nat (k div YAF_BLOCK_SIZE)) False s6 = Run (0, Some b) s6 \<and>
           disk s6 b (k mod YAF_BLOCK_SIZE) = [7, 8] ! k) \<and>
        (\<exists>w. icache s6 ino = Some w \<and> i_size w = length [7 :: byte, 8]))"
    using file_life_cycle [OF H n sb_counts_256 [symmetric] sample_dir(1) owner_env0 sample_dir(6) w bwb0_contract gwe, of dev0]
    by (elim exE conjE) (rule that, assumption+)
  obtain m' s6 where s6: "yaf_fill_super env0 True True (unmounted (kst_of dev)) = Run 0 m'"
      "yaf_lookup env0 sb0 ROOT_INO [97] (ks m') = Run 0 s6" "dcache s6 (ROOT_INO, [97]) = Some (Some ino)"
      "\<forall>k<length [7 :: byte, 8]. \<exists>b. yaf_get_block env0 sb0 ino (of_nat (k div YAF_BLOCK_SIZE)) False s6 = Run (0, Some b) s6 \<and>
           disk s6 b (k mod YAF_BLOCK_SIZE) = [7, 8] ! k"
    using again [rule_format, OF conjI, OF s5(1) conjI, OF s5(2,3)] by (elim exE conjE) (rule that, assumption+)
  obtain b where "yaf_get_block env0 sb0 ino 0 False s6 = Run (0, Some b) s6" "disk s6 b 1 = 8"
    using s6(4) [rule_format, of 1] by auto
  with s5 s6(1-3) show ?thesis
    by (intro exI [of _ s4] exI [of _ d4] exI [of _ s5] exI [of _ dev] exI [of _ m'] exI [of _ s6] exI [of _ ino] exI [of _ b] conjI)
qed

end
